(* ===== verification/Prelude.thy ===== *)
theory Prelude
  imports Main "HOL-Library.Word" "HOL-Library.Sublist"
begin

text \<open>
  The prelude of the development: the names of the types every component shares, the
  \<open>Result\<close> and \<open>Option\<close> plumbing of the Rust code, and the generic lemmas on lists the
  components' proofs use.

  A Rust \<open>String\<close>, \<open>&str\<close>, \<open>Vec<u8>\<close>, \<open>Bytes\<close> or \<open>&[u8]\<close> is a list of \<open>char\<close>: a
  \<open>char\<close> of HOL is one byte, and the byte list of a string is its UTF-8 encoding, so
  \<open>length\<close> is what \<open>len()\<close> returns. \<open>Result<T, E>\<close> is \<open>E + T\<close>, with \<open>Err\<close> and \<open>Ok\<close> the
  two injections, and \<open>Option<T>\<close> is \<open>T option\<close>.
\<close>

type_synonym byte = char
type_synonym bytes = "char list"
type_synonym str = "char list"
type_synonym ('e, 'a) result = "'e + 'a"

abbreviation Ok :: "'a \<Rightarrow> ('e, 'a) result" where
  "Ok \<equiv> Inr"

abbreviation Err :: "'e \<Rightarrow> ('e, 'a) result" where
  "Err \<equiv> Inl"

text \<open>
  Three collections: \<open>str_simps\<close> for the string functions of the standard library,
  \<open>dm_simps\<close> for the concurrent maps, \<open>inv_intros\<close> for the preservation lemmas of the
  server's invariant.
\<close>

named_theorems str_simps "evaluation of the string functions"
named_theorems dm_simps "lookup, size and keys of the maps after an update"
named_theorems inv_intros "operations that preserve the server invariant"

section \<open>Results\<close>

text \<open>Rust's \<open>?\<close>: go on with the value, return the error.\<close>

fun and_then :: "('e, 'a) result \<Rightarrow> ('a \<Rightarrow> ('e, 'b) result) \<Rightarrow> ('e, 'b) result" where
  "and_then (Inl e) f = Inl e"
| "and_then (Inr a) f = f a"

fun is_ok :: "('e, 'a) result \<Rightarrow> bool" where
  "is_ok (Inr _) = True"
| "is_ok (Inl _) = False"

lemma and_then_Ok_iff:
  "and_then r f = Ok b \<longleftrightarrow> (\<exists>a. r = Ok a \<and> f a = Ok b)"
  by (cases r) auto

lemma is_ok_iff: "is_ok r \<longleftrightarrow> (\<exists>a. r = Ok a)"
  by (cases r) auto

section \<open>Values of a timed future\<close>

text \<open>What \<open>tokio::time::timeout\<close> gives: the future's value or the deadline.\<close>

datatype 'a timed = Elapsed | Completed 'a

section \<open>Lists\<close>

lemma list_all_take: "list_all P xs \<Longrightarrow> list_all P (take n xs)"
  by (auto simp: list_all_iff dest: in_set_takeD)

lemma list_all_drop: "list_all P xs \<Longrightarrow> list_all P (drop n xs)"
  by (auto simp: list_all_iff dest: in_set_dropD)

lemma append_split:
  assumes "a @ b = c @ d" "length c \<le> length a"
  obtains x where "a = c @ x" "d = x @ b"
  using assms by (auto simp: append_eq_append_conv2)

lemma find_upt_least:
  "List.find P [a..<b] = Some x \<longleftrightarrow> a \<le> x \<and> x < b \<and> P x \<and> (\<forall>y. a \<le> y \<and> y < x \<longrightarrow> \<not> P y)"
proof
  assume "List.find P [a..<b] = Some x"
  then obtain i where i: "i < b - a" "P (a + i)" "x = a + i" "\<forall>j<i. \<not> P (a + j)"
    by (auto simp: find_Some_iff)
  have "\<not> P y" if "a \<le> y" "y < x" for y
    using i(4) [rule_format, of "y - a"] that i(3) by simp
  with i show "a \<le> x \<and> x < b \<and> P x \<and> (\<forall>y. a \<le> y \<and> y < x \<longrightarrow> \<not> P y)" by auto
next
  assume r: "a \<le> x \<and> x < b \<and> P x \<and> (\<forall>y. a \<le> y \<and> y < x \<longrightarrow> \<not> P y)"
  then have "x - a < length [a..<b] \<and> P ([a..<b] ! (x - a)) \<and> x = [a..<b] ! (x - a)
      \<and> (\<forall>j<x - a. \<not> P ([a..<b] ! j))"
    by auto
  then show "List.find P [a..<b] = Some x"
    by (subst find_Some_iff) blast
qed

section \<open>Machines driven by events\<close>

text \<open>
  A task that reacts to what its \<open>select!\<close> sees is a step function on its state, a run of it a fold over
  the events. What one step keeps, every run keeps, and so does every prefix of it.
\<close>

locale event_machine =
  fixes step :: "'e \<Rightarrow> 's \<Rightarrow> 's"
    and inv :: "'s \<Rightarrow> bool"
  assumes keeps: "inv s \<Longrightarrow> inv (step e s)"
begin

lemma run_keeps: "inv s \<Longrightarrow> inv (fold step evs s)"
  by (induction evs arbitrary: s) (simp_all add: keeps)

lemma always: "inv s \<Longrightarrow> inv (fold step (take n evs) s)"
  by (rule run_keeps)

end

end
