(* ===== verification/Rust_Str.thy ===== *)
theory Rust_Str
  imports Prelude
begin

text \<open>
  The functions on \<open>str\<close>, \<open>String\<close> and byte slices of the Rust standard library that the
  code calls, on UTF-8 byte lists: prefixes and substrings, \<open>split\<close>, \<open>split_once\<close>,
  \<open>rsplit_once\<close>, \<open>lines\<close>, \<open>trim\<close> and \<open>split_whitespace\<close> (over the Unicode white space),
  the ASCII case functions, the integer parsers, decimal printing, and UTF-8 validation
  with the lossy decoding of \<open>String::from_utf8_lossy\<close>. The lemmas are the ones the
  parsers and printers of the components need: where a separator is found, that printing
  a number and parsing it is the identity, that ASCII text is valid UTF-8.
\<close>

abbreviation CR :: byte where "CR \<equiv> CHR 0x0D"
abbreviation LF :: byte where "LF \<equiv> CHR 0x0A"
abbreviation crlf :: bytes where "crlf \<equiv> [CR, LF]"

definition byte_val :: "byte \<Rightarrow> nat" where
  "byte_val c = of_char c"

lemma byte_val_less [simp]: "byte_val c < 256"
  by (simp add: byte_val_def of_char_def)

section \<open>Prefixes and substrings\<close>

fun strip_prefix :: "str \<Rightarrow> str \<Rightarrow> str option" where
  "strip_prefix [] s = Some s"
| "strip_prefix (p # ps) [] = None"
| "strip_prefix (p # ps) (c # cs) = (if p = c then strip_prefix ps cs else None)"

definition strip_suffix :: "str \<Rightarrow> str \<Rightarrow> str option" where
  "strip_suffix p s = map_option rev (strip_prefix (rev p) (rev s))"

definition starts_with :: "str \<Rightarrow> str \<Rightarrow> bool" where
  "starts_with p s = (strip_prefix p s \<noteq> None)"

definition ends_with :: "str \<Rightarrow> str \<Rightarrow> bool" where
  "ends_with p s = (strip_suffix p s \<noteq> None)"

fun contains :: "str \<Rightarrow> str \<Rightarrow> bool" where
  "contains p [] = (p = [])"
| "contains p (c # cs) = (starts_with p (c # cs) \<or> contains p cs)"

text \<open>The offset of the first occurrence: \<open>find\<close>, or \<open>windows(n).position(..)\<close> on a slice.\<close>

fun find_sub :: "str \<Rightarrow> str \<Rightarrow> nat option" where
  "find_sub p [] = (if p = [] then Some 0 else None)"
| "find_sub p (c # cs) =
     (if starts_with p (c # cs) then Some 0 else map_option Suc (find_sub p cs))"

lemma strip_prefix_iff: "strip_prefix p s = Some r \<longleftrightarrow> s = p @ r"
  by (induction p s rule: strip_prefix.induct) auto

lemma strip_prefix_append [simp]: "strip_prefix p (p @ r) = Some r"
  by (simp add: strip_prefix_iff)

lemma starts_with_iff: "starts_with p s \<longleftrightarrow> prefix p s"
  by (auto simp: starts_with_def strip_prefix_iff prefix_def)

lemma strip_suffix_iff: "strip_suffix p s = Some r \<longleftrightarrow> s = r @ p"
proof
  assume "strip_suffix p s = Some r"
  then have "rev s = rev p @ rev r"
    by (auto simp: strip_suffix_def strip_prefix_iff)
  then have "rev (rev s) = rev (rev p @ rev r)" by (rule arg_cong)
  then show "s = r @ p" by simp
next
  assume "s = r @ p"
  then show "strip_suffix p s = Some r"
    by (simp add: strip_suffix_def)
qed

lemma contains_iff: "contains p s \<longleftrightarrow> (\<exists>u v. s = u @ p @ v)"
proof (induction s)
  case Nil
  then show ?case by auto
next
  case (Cons c cs)
  show ?case
  proof
    assume "contains p (c # cs)"
    then consider "prefix p (c # cs)" | "contains p cs"
      by (auto simp: starts_with_iff)
    then show "\<exists>u v. c # cs = u @ p @ v"
    proof cases
      case 1
      then obtain v where "c # cs = [] @ p @ v" by (auto simp: prefix_def)
      then show ?thesis by blast
    next
      case 2
      then obtain u v where "cs = u @ p @ v" using Cons.IH by blast
      then have "c # cs = (c # u) @ p @ v" by simp
      then show ?thesis by blast
    qed
  next
    assume "\<exists>u v. c # cs = u @ p @ v"
    then obtain u v where uv: "c # cs = u @ p @ v" by blast
    show "contains p (c # cs)"
    proof (cases u)
      case Nil
      with uv have "prefix p (c # cs)" by (simp add: prefix_def)
      then show ?thesis by (simp add: starts_with_iff)
    next
      case (Cons a w)
      with uv have "cs = w @ p @ v" by simp
      then show ?thesis using Cons.IH by auto
    qed
  qed
qed

lemma find_sub_Some:
  "find_sub p s = Some i \<Longrightarrow> i + length p \<le> length s \<and> take (length p) (drop i s) = p"
proof (induction s arbitrary: i)
  case Nil
  then show ?case by (auto split: if_splits)
next
  case (Cons c cs)
  show ?case
  proof (cases "starts_with p (c # cs)")
    case True
    with Cons.prems have "i = 0" by simp
    moreover obtain z where "c # cs = p @ z"
      using True by (auto simp: starts_with_iff prefix_def)
    ultimately show ?thesis by simp
  next
    case False
    with Cons.prems obtain j where "i = Suc j" "find_sub p cs = Some j" by auto
    with Cons.IH show ?thesis by auto
  qed
qed

lemma find_sub_split:
  assumes "find_sub p s = Some i"
  shows "s = take i s @ p @ drop (i + length p) s"
proof -
  have "take (length p) (drop i s) = p" using find_sub_Some [OF assms] by simp
  then have "drop i s = p @ drop (length p) (drop i s)"
    by (metis append_take_drop_id)
  then show ?thesis
    by (metis append_take_drop_id drop_drop add.commute)
qed

lemma find_sub_append:
  "find_sub p s = Some i \<Longrightarrow> find_sub p (s @ t) = Some i"
proof (induction s arbitrary: i)
  case Nil
  then have "p = []" "i = 0" by (auto split: if_splits)
  then show ?case by (cases t) (auto simp: starts_with_def)
next
  case (Cons c cs)
  show ?case
  proof (cases "starts_with p (c # cs)")
    case True
    then have "starts_with p ((c # cs) @ t)"
      unfolding starts_with_iff by (rule prefix_prefix)
    with True Cons.prems show ?thesis by simp
  next
    case False
    with Cons.prems obtain j where j: "i = Suc j" "find_sub p cs = Some j" by auto
    then have len: "length p \<le> length (c # cs)" using find_sub_Some [of p cs j] by simp
    have "\<not> starts_with p ((c # cs) @ t)"
    proof
      assume "starts_with p ((c # cs) @ t)"
      then have "prefix p ((c # cs) @ t)" by (simp only: starts_with_iff)
      moreover have "prefix (c # cs) ((c # cs) @ t)" by simp
      ultimately have "prefix p (c # cs)" using len by (rule prefix_length_prefix)
      with False show False by (simp add: starts_with_iff)
    qed
    with j Cons.IH show ?thesis by simp
  qed
qed

text \<open>A prefix that is long enough to hold the first occurrence finds the same offset.\<close>

lemma find_sub_take:
  "find_sub p s = Some i \<Longrightarrow> i + length p \<le> n \<Longrightarrow> find_sub p (take n s) = Some i"
proof (induction s arbitrary: i n)
  case Nil
  then show ?case by simp
next
  case (Cons c cs)
  show ?case
  proof (cases n)
    case 0
    with Cons.prems have "i = 0" "p = []" by auto
    with 0 show ?thesis by simp
  next
    case (Suc m)
    show ?thesis
    proof (cases "starts_with p (c # cs)")
      case True
      with Cons.prems have "i = 0" by simp
      have "take (length p) (c # cs) = p"
        using True by (auto simp: starts_with_iff prefix_def)
      moreover have "length p \<le> n" using Cons.prems(2) \<open>i = 0\<close> by simp
      ultimately have "take (length p) (take n (c # cs)) = p"
        by (simp only: take_take min.absorb1)
      then have "prefix p (take n (c # cs))" by (metis take_is_prefix)
      with Suc \<open>i = 0\<close> show ?thesis by (simp add: starts_with_iff)
    next
      case False
      with Cons.prems obtain j where j: "i = Suc j" "find_sub p cs = Some j" by auto
      have "\<not> prefix p (c # take m cs)"
      proof
        assume "prefix p (c # take m cs)"
        then have "prefix p (c # cs)"
          using take_is_prefix [of "Suc m" "c # cs"] prefix_order.order_trans by fastforce
        with False show False by (simp add: starts_with_iff)
      qed
      moreover have "find_sub p (take m cs) = Some j"
        using Cons.IH [OF j(2), of m] Cons.prems(2) j(1) Suc by simp
      ultimately show ?thesis using Suc j by (simp add: starts_with_iff)
    qed
  qed
qed

lemma find_sub_take_None:
  assumes "find_sub p s = Some i" "n < i + length p"
  shows "find_sub p (take n s) = None"
proof (rule ccontr)
  assume "find_sub p (take n s) \<noteq> None"
  then obtain k where k: "find_sub p (take n s) = Some k" by blast
  then have "find_sub p (take n s @ drop n s) = Some k" by (rule find_sub_append)
  with assms(1) have "k = i" by simp
  with find_sub_Some [OF k] assms(2) show False by simp
qed

text \<open>The first occurrence of a separator whose first byte does not occur before it.\<close>

lemma find_sub_first:
  assumes "c \<notin> set u"
  shows "find_sub (c # p) (u @ (c # p) @ v) = Some (length u)"
  using assms
proof (induction u)
  case Nil
  then show ?case by (simp add: starts_with_iff)
next
  case (Cons x u)
  then have "\<not> starts_with (c # p) (x # u @ (c # p) @ v)"
    by (simp add: starts_with_def)
  with Cons show ?case by simp
qed

lemma find_sub_None_char: "find_sub [c] s = None \<longleftrightarrow> c \<notin> set s"
  by (induction s) (auto simp: starts_with_def)

lemma find_sub_None_notin: "c \<notin> set s \<Longrightarrow> find_sub (c # p) s = None"
  by (induction s) (auto simp: starts_with_def)

section \<open>Splitting\<close>

definition split_once :: "str \<Rightarrow> str \<Rightarrow> (str \<times> str) option" where
  "split_once p s = (case find_sub p s of
     None \<Rightarrow> None
   | Some i \<Rightarrow> Some (take i s, drop (i + length p) s))"

definition rsplit_once :: "byte \<Rightarrow> str \<Rightarrow> (str \<times> str) option" where
  "rsplit_once c s = (case split_once [c] (rev s) of
     None \<Rightarrow> None
   | Some (a, b) \<Rightarrow> Some (rev b, rev a))"

fun split_on :: "byte \<Rightarrow> str \<Rightarrow> str list" where
  "split_on c [] = [[]]"
| "split_on c (x # xs) =
     (if x = c then [] # split_on c xs
      else (case split_on c xs of [] \<Rightarrow> [[x]] | h # t \<Rightarrow> (x # h) # t))"

fun split_crlf :: "str \<Rightarrow> str list" where
  "split_crlf [] = [[]]"
| "split_crlf [x] = [[x]]"
| "split_crlf (x # y # r) =
     (if x = CR \<and> y = LF then [] # split_crlf r
      else (case split_crlf (y # r) of [] \<Rightarrow> [[x]] | h # t \<Rightarrow> (x # h) # t))"

text \<open>\<open>lines()\<close>: a line that ends with \<open>\n\<close> loses it and one \<open>\r\<close> before it.\<close>

definition strip_cr :: "str \<Rightarrow> str" where
  "strip_cr l = (case strip_suffix [CR] l of None \<Rightarrow> l | Some l' \<Rightarrow> l')"

definition lines :: "str \<Rightarrow> str list" where
  "lines s = (let ls = split_on LF s in
     map strip_cr (butlast ls) @ (if last ls = [] then [] else [last ls]))"

lemma split_on_ne [simp]: "split_on c s \<noteq> []"
  by (cases s) (auto split: list.splits)

lemma split_crlf_ne [simp]: "split_crlf s \<noteq> []"
  by (cases s rule: split_crlf.cases) (auto split: list.splits)

lemma split_on_notin: "c \<notin> set s \<Longrightarrow> split_on c s = [s]"
  by (induction s) auto

lemma split_on_append: "c \<notin> set s \<Longrightarrow> split_on c (s @ c # r) = s # split_on c r"
  by (induction s) auto

lemma split_on_pieces: "p \<in> set (split_on c s) \<Longrightarrow> c \<notin> set p"
proof (induction s arbitrary: p)
  case Nil
  then show ?case by simp
next
  case (Cons x s)
  then show ?case
    by (cases "split_on c s") (auto split: if_splits)
qed

lemma split_crlf_append:
  "CR \<notin> set s \<Longrightarrow> split_crlf (s @ CR # LF # r) = s # split_crlf r"
proof (induction s)
  case Nil
  then show ?case by simp
next
  case (Cons x s)
  then show ?case by (cases s) auto
qed

lemma split_once_Some: "split_once p s = Some (a, b) \<Longrightarrow> s = a @ p @ b"
  using find_sub_split [of p s] by (auto simp: split_once_def split: option.splits)

lemma split_once_first:
  "c \<notin> set u \<Longrightarrow> split_once (c # p) (u @ (c # p) @ v) = Some (u, v)"
  by (simp add: split_once_def find_sub_first del: append_Cons)

lemma split_once_char: "c \<notin> set u \<Longrightarrow> split_once [c] (u @ c # v) = Some (u, v)"
  using split_once_first [of c u "[]" v] by simp

lemma split_once_char_None: "split_once [c] s = None \<longleftrightarrow> c \<notin> set s"
  unfolding split_once_def find_sub_None_char [symmetric] by (simp split: option.splits)

lemma split_once_char_Some:
  assumes "split_once [c] s = Some (a, b)"
  shows "s = a @ c # b \<and> c \<notin> set a"
proof -
  have "s = a @ c # b" using split_once_Some [OF assms] by simp
  moreover have "c \<notin> set a"
  proof
    assume "c \<in> set a"
    then obtain u v where "a = u @ c # v" "c \<notin> set u" by (metis split_list_first)
    then have "split_once [c] s = Some (u, v @ c # b)"
      using \<open>s = a @ c # b\<close> by (simp add: split_once_char)
    with assms have "u = a" by simp
    with \<open>a = u @ c # v\<close> show False by simp
  qed
  ultimately show ?thesis by simp
qed

lemma rsplit_once_char: "c \<notin> set v \<Longrightarrow> rsplit_once c (u @ c # v) = Some (u, v)"
  using split_once_char [of c "rev v" "rev u"] by (simp add: rsplit_once_def)


section \<open>White space, trimming and ASCII case\<close>

text \<open>
  The UTF-8 encodings of the scalar values with the Unicode property White_Space, which
  \<open>char::is_whitespace\<close> tests: U+0009..U+000D, U+0020, U+0085, U+00A0, U+1680,
  U+2000..U+200A, U+2028, U+2029, U+202F, U+205F and U+3000.
\<close>

definition ws_scalar :: "bytes \<Rightarrow> bool" where
  "ws_scalar cs = (case map byte_val cs of
     [x] \<Rightarrow> (9 \<le> x \<and> x \<le> 13) \<or> x = 32
   | [x, y] \<Rightarrow> x = 194 \<and> (y = 133 \<or> y = 160)
   | [x, y, z] \<Rightarrow> (x = 225 \<and> y = 154 \<and> z = 128)
       \<or> (x = 226 \<and> y = 128 \<and> (128 \<le> z \<and> z \<le> 138 \<or> z = 168 \<or> z = 169 \<or> z = 175))
       \<or> (x = 226 \<and> y = 129 \<and> z = 159) \<or> (x = 227 \<and> y = 128 \<and> z = 128)
   | _ \<Rightarrow> False)"

text \<open>The bytes of the white-space scalar a string starts with (0: it starts with none).\<close>

definition ws_len :: "bytes \<Rightarrow> nat" where
  "ws_len s = (if ws_scalar (take 1 s) then 1
     else if ws_scalar (take 2 s) then 2
     else if ws_scalar (take 3 s) then 3 else 0)"

text \<open>The same at the end, on the reversed string.\<close>

definition ws_len_rev :: "bytes \<Rightarrow> nat" where
  "ws_len_rev s = (if ws_scalar (rev (take 1 s)) then 1
     else if ws_scalar (rev (take 2 s)) then 2
     else if ws_scalar (rev (take 3 s)) then 3 else 0)"

lemma ws_scalar_Nil [simp]: "\<not> ws_scalar []"
  by (simp add: ws_scalar_def)

lemma ws_len_Nil [simp]: "ws_len [] = 0" "ws_len_rev [] = 0"
  by (simp_all add: ws_len_def ws_len_rev_def)

lemma drop_ws_shorter:
  "ws_len s \<noteq> 0 \<Longrightarrow> length (drop (ws_len s) s) < length s"
  "ws_len_rev s \<noteq> 0 \<Longrightarrow> length (drop (ws_len_rev s) s) < length s"
  by (cases "s = []"; simp)+

function trim_start :: "str \<Rightarrow> str" where
  "trim_start s = (if ws_len s = 0 then s else trim_start (drop (ws_len s) s))"
  by pat_completeness auto
termination
  by (relation "measure length") (simp_all del: length_drop add: drop_ws_shorter)

function trim_end_rev :: "str \<Rightarrow> str" where
  "trim_end_rev s = (if ws_len_rev s = 0 then s else trim_end_rev (drop (ws_len_rev s) s))"
  by pat_completeness auto
termination
  by (relation "measure length") (simp_all del: length_drop add: drop_ws_shorter)

declare trim_start.simps [simp del] trim_end_rev.simps [simp del]

definition trim :: "str \<Rightarrow> str" where
  "trim s = rev (trim_end_rev (rev (trim_start s)))"

text \<open>\<open>split_whitespace\<close>; the accumulator holds the word being read, reversed.\<close>

function split_ws :: "str \<Rightarrow> str \<Rightarrow> str list" where
  "split_ws acc s =
     (if s = [] then (if acc = [] then [] else [rev acc])
      else if ws_len s > 0
      then (if acc = [] then [] else [rev acc]) @ split_ws [] (drop (ws_len s) s)
      else split_ws (hd s # acc) (tl s))"
  by pat_completeness auto
termination
  by (relation "measure (length \<circ> snd)") auto

declare split_ws.simps [simp del]

definition split_whitespace :: "str \<Rightarrow> str list" where
  "split_whitespace s = split_ws [] s"

definition lower_char :: "byte \<Rightarrow> byte" where
  "lower_char c = (if 65 \<le> byte_val c \<and> byte_val c \<le> 90 then char_of (byte_val c + 32) else c)"

definition to_ascii_lowercase :: "str \<Rightarrow> str" where
  "to_ascii_lowercase s = map lower_char s"

definition eq_ignore_ascii_case :: "str \<Rightarrow> str \<Rightarrow> bool" where
  "eq_ignore_ascii_case a b = (to_ascii_lowercase a = to_ascii_lowercase b)"

lemma lower_char_idem [simp]: "lower_char (lower_char c) = lower_char c"
  by (simp add: lower_char_def byte_val_def)

lemma to_ascii_lowercase_idem [simp]:
  "to_ascii_lowercase (to_ascii_lowercase s) = to_ascii_lowercase s"
  by (simp add: to_ascii_lowercase_def)

lemma eq_ignore_ascii_case_refl [simp]: "eq_ignore_ascii_case a a"
  by (simp add: eq_ignore_ascii_case_def)

text \<open>A printable ASCII byte is not (part of) white space: \<open>trim\<close> stops at it.\<close>

definition graphic :: "byte \<Rightarrow> bool" where
  "graphic c = (33 \<le> byte_val c \<and> byte_val c \<le> 126)"

lemma ws_scalar_graphic:
  "graphic c \<Longrightarrow> c \<in> set cs \<Longrightarrow> \<not> ws_scalar cs"
  by (auto simp: ws_scalar_def graphic_def byte_val_def split: list.splits)

lemma ws_len_graphic [simp]: "graphic c \<Longrightarrow> ws_len (c # s) = 0"
  using ws_scalar_graphic [of c "c # t" for t]
  by (simp add: ws_len_def take_Cons')

lemma ws_len_rev_graphic [simp]: "graphic c \<Longrightarrow> ws_len_rev (c # s) = 0"
  using ws_scalar_graphic [of c "t @ [c]" for t] ws_scalar_graphic [of c "[c]"]
  by (simp add: ws_len_rev_def take_Cons')

lemma trim_start_graphic: "graphic c \<Longrightarrow> trim_start (c # s) = c # s"
  by (subst trim_start.simps) simp

lemma trim_end_rev_graphic: "graphic c \<Longrightarrow> trim_end_rev (c # s) = c # s"
  by (subst trim_end_rev.simps) simp

lemma trim_Nil [simp]: "trim [] = []"
  by (simp add: trim_def trim_start.simps [of "[]"] trim_end_rev.simps [of "[]"])

text \<open>Text that starts and ends with a printable byte is its own \<open>trim\<close>.\<close>

lemma trim_graphic:
  assumes "s \<noteq> []" "graphic (hd s)" "graphic (last s)"
  shows "trim s = s"
proof -
  obtain c t where s: "s = c # t" using assms(1) by (cases s) auto
  have 1: "trim_start s = s" using assms(2) s by (simp add: trim_start_graphic)
  obtain d u where r: "rev s = d # u" using assms(1) by (cases "rev s") auto
  have "s = rev (d # u)" by (metis r rev_rev_ident)
  then have "d = last s" by simp
  then have "trim_end_rev (d # u) = d # u" using assms(3) by (simp add: trim_end_rev_graphic)
  then have "trim_end_rev (rev s) = rev s" by (simp only: r)
  with 1 show ?thesis by (simp add: trim_def)
qed

lemma trim_all_graphic: "list_all graphic s \<Longrightarrow> trim s = s"
  by (cases "s = []") (auto simp: list_all_iff intro!: trim_graphic)

lemma trim_start_space [simp]: "trim_start (CHR '' '' # s) = trim_start s"
  by (subst trim_start.simps) (simp add: ws_len_def ws_scalar_def byte_val_def)

lemma trim_space: "trim (CHR '' '' # s) = trim s"
  by (simp add: trim_def)

lemma split_ws_graphic:
  "list_all graphic w \<Longrightarrow> split_ws acc (w @ r) = split_ws (rev w @ acc) r"
  by (induction w arbitrary: acc) (auto simp: split_ws.simps [of _ "_ # _"])

lemma split_ws_space:
  "split_ws acc (CHR '' '' # s) = (if acc = [] then [] else [rev acc]) @ split_ws [] s"
  by (subst split_ws.simps) (simp add: ws_len_def ws_scalar_def byte_val_def)

lemma split_ws_Nil: "split_ws acc [] = (if acc = [] then [] else [rev acc])"
  by (subst split_ws.simps) simp

section \<open>Numbers\<close>

definition digit_val :: "nat \<Rightarrow> byte \<Rightarrow> nat option" where
  "digit_val radix c = (let n = byte_val c;
     v = (if 48 \<le> n \<and> n \<le> 57 then Some (n - 48)
          else if 97 \<le> n \<and> n \<le> 122 then Some (n - 87)
          else if 65 \<le> n \<and> n \<le> 90 then Some (n - 55) else None)
     in (case v of Some d \<Rightarrow> if d < radix then Some d else None | None \<Rightarrow> None))"

fun digits_val :: "nat \<Rightarrow> nat \<Rightarrow> str \<Rightarrow> nat option" where
  "digits_val radix acc [] = Some acc"
| "digits_val radix acc (c # cs) = (case digit_val radix c of
     None \<Rightarrow> None
   | Some d \<Rightarrow> digits_val radix (acc * radix + d) cs)"

text \<open>
  \<open>from_str_radix\<close> and \<open>parse\<close> of an unsigned type with \<open>bound\<close> values: an optional
  \<open>+\<close> with a digit after it, then digits only, at least one, below the bound (the checked
  multiplications and additions fail exactly when the value is out of range).
\<close>

definition parse_radix :: "nat \<Rightarrow> nat \<Rightarrow> str \<Rightarrow> nat option" where
  "parse_radix radix bound s = (let ds = (case s of c # r \<Rightarrow> if c = CHR ''+'' then r else s | [] \<Rightarrow> []) in
     if ds = [] then None
     else (case digits_val radix 0 ds of
       Some v \<Rightarrow> if v < bound then Some v else None
     | None \<Rightarrow> None))"

definition parse_u16 :: "str \<Rightarrow> nat option" where
  "parse_u16 s = parse_radix 10 (2 ^ 16) s"

definition parse_usize :: "str \<Rightarrow> nat option" where
  "parse_usize s = parse_radix 10 (2 ^ 64) s"

definition usize_from_hex :: "str \<Rightarrow> nat option" where
  "usize_from_hex s = parse_radix 16 (2 ^ 64) s"

fun show_nat :: "nat \<Rightarrow> str" where
  "show_nat n = (if n < 10 then [char_of (48 + n)] else show_nat (n div 10) @ [char_of (48 + n mod 10)])"

declare show_nat.simps [simp del]

lemma parse_radix_bound: "parse_radix r b s = Some v \<Longrightarrow> v < b"
  by (auto simp: parse_radix_def Let_def split: if_splits option.splits)

lemma parse_u16_bound: "parse_u16 s = Some v \<Longrightarrow> v < 65536"
  unfolding parse_u16_def by (drule parse_radix_bound) simp

lemma digits_val_append:
  "digits_val r a (xs @ ys) = (case digits_val r a xs of None \<Rightarrow> None | Some v \<Rightarrow> digits_val r v ys)"
  by (induction xs arbitrary: a) (auto split: option.splits)

lemma digit_val_char_of: "d < 10 \<Longrightarrow> digit_val 10 (char_of (48 + d)) = Some d"
  by (simp add: digit_val_def byte_val_def)

lemma show_nat_graphic: "list_all graphic (show_nat n)"
proof (induction n rule: show_nat.induct)
  case (1 n)
  show ?case
  proof (cases "n < 10")
    case True
    then show ?thesis by (subst show_nat.simps) (simp add: graphic_def byte_val_def)
  next
    case False
    then have "list_all graphic (show_nat (n div 10))" by (rule 1)
    moreover have "graphic (char_of (48 + n mod 10))" by (simp add: graphic_def byte_val_def)
    ultimately show ?thesis using False by (subst show_nat.simps) simp
  qed
qed

text \<open>Decimal digits only: no sign, no separator of a header, URL or address.\<close>

lemma show_nat_digits: "c \<in> set (show_nat n) \<Longrightarrow> 48 \<le> byte_val c \<and> byte_val c \<le> 57"
proof (induction n rule: show_nat.induct)
  case (1 n)
  show ?case
  proof (cases "n < 10")
    case True
    then show ?thesis using 1(2) by (subst (asm) show_nat.simps) (simp add: byte_val_def)
  next
    case False
    then show ?thesis using 1
      by (subst (asm) (2) show_nat.simps) (auto simp: byte_val_def)
  qed
qed

lemma show_nat_ne [simp]: "show_nat n \<noteq> []"
  by (subst show_nat.simps) simp

lemma digits_val_show: "digits_val 10 0 (show_nat n) = Some n"
proof (induction n rule: show_nat.induct)
  case (1 n)
  show ?case
  proof (cases "n < 10")
    case True
    then show ?thesis by (subst show_nat.simps) (simp add: digit_val_char_of)
  next
    case False
    then show ?thesis using 1
      by (subst show_nat.simps) (simp add: digits_val_append digit_val_char_of)
  qed
qed

lemma show_nat_no_plus: "CHR ''+'' \<notin> set (show_nat n)"
  using show_nat_digits [of "CHR ''+''" n] by (auto simp: byte_val_def)

lemma parse_show: "n < b \<Longrightarrow> parse_radix 10 b (show_nat n) = Some n"
proof -
  assume "n < b"
  obtain c t where s: "show_nat n = c # t" by (cases "show_nat n") auto
  then have "c \<noteq> CHR ''+''" using show_nat_no_plus [of n] by auto
  with s have "(case show_nat n of c # r \<Rightarrow> if c = CHR ''+'' then r else show_nat n | [] \<Rightarrow> []) = show_nat n"
    by simp
  with \<open>n < b\<close> show ?thesis
    unfolding parse_radix_def Let_def by (simp add: digits_val_show)
qed


section \<open>UTF-8\<close>

text \<open>
  The decoder of \<open>core::str\<close>: whether a scalar value starts the slice and how many bytes it
  has; when none does, how many bytes the decoder had consumed when it found out (the part
  \<open>from_utf8_lossy\<close> replaces by one U+FFFD). A byte past the end reads as 0.
\<close>

definition byte_at :: "bytes \<Rightarrow> nat \<Rightarrow> nat" where
  "byte_at s i = (if i < length s then byte_val (s ! i) else 0)"

definition cont :: "nat \<Rightarrow> bool" where
  "cont b = (128 \<le> b \<and> b \<le> 191)"

definition utf8_step :: "bytes \<Rightarrow> bool \<times> nat" where
  "utf8_step s = (let a = byte_at s 0; b = byte_at s 1; c = byte_at s 2; d = byte_at s 3 in
     if a < 128 then (True, 1)
     else if 194 \<le> a \<and> a \<le> 223 then (if cont b then (True, 2) else (False, 1))
     else if 224 \<le> a \<and> a \<le> 239 then
       (if (a = 224 \<and> 160 \<le> b \<and> b \<le> 191) \<or> (225 \<le> a \<and> a \<le> 236 \<and> cont b)
           \<or> (a = 237 \<and> 128 \<le> b \<and> b \<le> 159) \<or> (238 \<le> a \<and> cont b)
        then (if cont c then (True, 3) else (False, 2)) else (False, 1))
     else if 240 \<le> a \<and> a \<le> 244 then
       (if (a = 240 \<and> 144 \<le> b \<and> b \<le> 191) \<or> (241 \<le> a \<and> a \<le> 243 \<and> cont b)
           \<or> (a = 244 \<and> 128 \<le> b \<and> b \<le> 143)
        then (if cont c then (if cont d then (True, 4) else (False, 3)) else (False, 2))
        else (False, 1))
     else (False, 1))"

lemma utf8_step_pos: "0 < snd (utf8_step s)"
  by (simp add: utf8_step_def Let_def)

lemma drop_utf8_shorter: "s \<noteq> [] \<Longrightarrow> length (drop (snd (utf8_step s)) s) < length s"
  using utf8_step_pos [of s] by (cases s) auto

function utf8_valid :: "bytes \<Rightarrow> bool" where
  "utf8_valid s = (if s = [] then True
     else if fst (utf8_step s) then utf8_valid (drop (snd (utf8_step s)) s) else False)"
  by pat_completeness auto
termination
  by (relation "measure length") (simp_all del: length_drop add: drop_utf8_shorter)

function utf8_lossy :: "bytes \<Rightarrow> str" where
  "utf8_lossy s = (if s = [] then []
     else (if fst (utf8_step s) then take (snd (utf8_step s)) s
           else [CHR 0xEF, CHR 0xBF, CHR 0xBD]) @ utf8_lossy (drop (snd (utf8_step s)) s))"
  by pat_completeness auto
termination
  by (relation "measure length") (simp_all del: length_drop add: drop_utf8_shorter)

declare utf8_valid.simps [simp del] utf8_lossy.simps [simp del]

lemma utf8_lossy_valid: "utf8_valid s \<Longrightarrow> utf8_lossy s = s"
proof (induction s rule: utf8_valid.induct)
  case (1 s)
  show ?case
  proof (cases "s = []")
    case True
    then show ?thesis by (simp add: utf8_lossy.simps)
  next
    case False
    with 1(2) have "fst (utf8_step s)" "utf8_valid (drop (snd (utf8_step s)) s)"
      by (subst (asm) utf8_valid.simps, simp split: if_splits)+
    with 1 False have "utf8_lossy (drop (snd (utf8_step s)) s) = drop (snd (utf8_step s)) s"
      by blast
    with \<open>fst (utf8_step s)\<close> False show ?thesis
      by (subst utf8_lossy.simps) simp
  qed
qed

text \<open>ASCII text.\<close>

definition ascii :: "byte \<Rightarrow> bool" where
  "ascii c = (byte_val c < 128)"

lemma graphic_ascii: "graphic c \<Longrightarrow> ascii c"
  by (simp add: graphic_def ascii_def)

lemma utf8_step_ascii: "ascii c \<Longrightarrow> utf8_step (c # s) = (True, 1)"
  by (simp add: utf8_step_def byte_at_def ascii_def Let_def)

lemma utf8_valid_Nil [simp]: "utf8_valid []"
  by (subst utf8_valid.simps) simp

lemma utf8_valid_ascii_Cons: "ascii c \<Longrightarrow> utf8_valid (c # s) = utf8_valid s"
  by (subst utf8_valid.simps) (simp add: utf8_step_ascii)

lemma utf8_valid_ascii_append: "list_all ascii s \<Longrightarrow> utf8_valid (s @ t) = utf8_valid t"
  by (induction s) (simp_all add: utf8_valid_ascii_Cons)

lemma utf8_valid_ascii: "list_all ascii s \<Longrightarrow> utf8_valid s"
  using utf8_valid_ascii_append [of s "[]"] by simp

section \<open>Paths\<close>

text \<open>\<open>PathBuf::join\<close>: an absolute second path replaces the first.\<close>

definition path_join :: "str \<Rightarrow> str \<Rightarrow> str" where
  "path_join home rest =
     (if starts_with ''/'' rest then rest
      else if home = [] \<or> ends_with ''/'' home then home @ rest else home @ ''/'' @ rest)"

end
