(* ===== verification/Dns.thy ===== *)
theory Dns
  imports Rust_Str
begin

text \<open>
  \<open>dns.rs\<close>: the Cloudflare client. The HTTP client and the API behind it are a parameter: a
  function from the state of the remote side and a request to a response (status and JSON body,
  or a transport error) and the new state. What the code relies on of \<open>serde_json\<close> is the
  \<open>Value\<close> type: indexing with a missing key gives \<open>null\<close>.
\<close>

datatype json = JNull | JBool bool | JNum nat | JStr str | JObj "(str \<times> json) list"

fun json_index :: "json \<Rightarrow> str \<Rightarrow> json" where
  "json_index (JObj fs) k = (case map_of fs k of Some v \<Rightarrow> v | None \<Rightarrow> JNull)"
| "json_index _ k = JNull"

fun as_str :: "json \<Rightarrow> str option" where
  "as_str (JStr s) = Some s"
| "as_str _ = None"

datatype http_method = Post | Delete

record dns_request =
  dr_method :: http_method
  dr_url :: str
  dr_bearer :: str
  dr_body :: json

record dns_response =
  ds_status :: nat
  ds_body :: "(str, json) result"

record cloudflare_client =
  api_token :: str
  zone_id :: str
  base_url :: str

definition cloudflare_new :: "str \<Rightarrow> str \<Rightarrow> cloudflare_client" where
  "cloudflare_new token zone =
     \<lparr>api_token = token, zone_id = zone, base_url = ''https://api.cloudflare.com/client/v4''\<rparr>"

type_synonym 's http_api = "dns_request \<Rightarrow> 's \<Rightarrow> (str, dns_response) result \<times> 's"

text \<open>\<open>error_for_status\<close>: a 4xx or 5xx response is an error.\<close>

definition error_for_status :: "dns_response \<Rightarrow> (str, dns_response) result" where
  "error_for_status r = (if 400 \<le> ds_status r \<and> ds_status r < 600 then Err (show_nat (ds_status r)) else Ok r)"

definition record_id_of :: "json \<Rightarrow> (str, str) result" where
  "record_id_of body = (case as_str (json_index (json_index body ''result'') ''id'') of
     Some i \<Rightarrow> Ok i | None \<Rightarrow> Err ''missing record ID in response'')"

definition records_url :: "cloudflare_client \<Rightarrow> str" where
  "records_url c = base_url c @ ''/zones/'' @ zone_id c @ ''/dns_records''"

definition create_record ::
  "'s http_api \<Rightarrow> cloudflare_client \<Rightarrow> str \<Rightarrow> str \<Rightarrow> nat \<Rightarrow> 's \<Rightarrow> (str, str) result \<times> 's" where
  "create_record api c subdomain ip ttl s =
     (case api \<lparr>dr_method = Post, dr_url = records_url c, dr_bearer = api_token c,
         dr_body = JObj [(''type'', JStr ''A''), (''name'', JStr subdomain), (''content'', JStr ip),
           (''ttl'', JNum ttl), (''proxied'', JBool False)]\<rparr> s of
        (r, s1) \<Rightarrow> (and_then r (\<lambda>resp. and_then (error_for_status resp) (\<lambda>resp.
          and_then (ds_body resp) record_id_of)), s1))"

definition delete_record ::
  "'s http_api \<Rightarrow> cloudflare_client \<Rightarrow> str \<Rightarrow> 's \<Rightarrow> (str, unit) result \<times> 's" where
  "delete_record api c record_id s =
     (case api \<lparr>dr_method = Delete, dr_url = records_url c @ ''/'' @ record_id,
         dr_bearer = api_token c, dr_body = JNull\<rparr> s of
        (r, s1) \<Rightarrow> (and_then r (\<lambda>resp. and_then (error_for_status resp) (\<lambda>_. Ok ())), s1))"

definition create_txt_record ::
  "'s http_api \<Rightarrow> cloudflare_client \<Rightarrow> str \<Rightarrow> str \<Rightarrow> 's \<Rightarrow> (str, str) result \<times> 's" where
  "create_txt_record api c name value s =
     (case api \<lparr>dr_method = Post, dr_url = records_url c, dr_bearer = api_token c,
         dr_body = JObj [(''type'', JStr ''TXT''), (''name'', JStr name), (''content'', JStr value),
           (''ttl'', JNum 120)]\<rparr> s of
        (r, s1) \<Rightarrow> (and_then r (\<lambda>resp. and_then (error_for_status resp) (\<lambda>resp.
          and_then (ds_body resp) record_id_of)), s1))"

text \<open>The loop of \<open>delete_records\<close>: it goes on after a failure and collects the messages.\<close>

fun delete_loop ::
  "'s http_api \<Rightarrow> cloudflare_client \<Rightarrow> str list \<Rightarrow> str list \<Rightarrow> 's \<Rightarrow> str list \<times> 's" where
  "delete_loop api c [] failures s = (failures, s)"
| "delete_loop api c (r # rs) failures s =
     (case delete_record api c r s of
        (Inl e, s1) \<Rightarrow> delete_loop api c rs (failures @ [r @ '': '' @ e]) s1
      | (Inr _, s1) \<Rightarrow> delete_loop api c rs failures s1)"

fun join :: "str \<Rightarrow> str list \<Rightarrow> str" where
  "join sep [] = []"
| "join sep [x] = x"
| "join sep (x # xs) = x @ sep @ join sep xs"

definition delete_records ::
  "'s http_api \<Rightarrow> cloudflare_client \<Rightarrow> str list \<Rightarrow> 's \<Rightarrow> (str, unit) result \<times> 's" where
  "delete_records api c record_ids s =
     (case delete_loop api c record_ids [] s of (failures, s1) \<Rightarrow>
        (if failures = [] then (Ok (), s1)
         else (Err (''failed to delete DNS records: '' @ join ''; '' failures), s1)))"

section \<open>Every record is attempted\<close>

text \<open>The remote side as a log: which requests were made, and the answers it chooses.\<close>

definition logged :: "(dns_request \<Rightarrow> (str, dns_response) result) \<Rightarrow> dns_request list http_api" where
  "logged answer q log = (answer q, log @ [q])"

definition delete_request :: "cloudflare_client \<Rightarrow> str \<Rightarrow> dns_request" where
  "delete_request c r = \<lparr>dr_method = Delete, dr_url = records_url c @ ''/'' @ r,
     dr_bearer = api_token c, dr_body = JNull\<rparr>"

definition deleted :: "(dns_request \<Rightarrow> (str, dns_response) result) \<Rightarrow> cloudflare_client \<Rightarrow> str \<Rightarrow> bool" where
  "deleted answer c r = is_ok (and_then (answer (delete_request c r)) error_for_status)"

lemma delete_record_logged:
  "delete_record (logged answer) c r log =
     (and_then (answer (delete_request c r)) (\<lambda>resp. and_then (error_for_status resp) (\<lambda>_. Ok ())),
      log @ [delete_request c r])"
  by (simp add: delete_record_def logged_def delete_request_def)

lemma delete_record_ok:
  "is_ok (fst (delete_record (logged answer) c r log)) = deleted answer c r"
  unfolding deleted_def delete_record_logged
  by (cases "answer (delete_request c r)") (auto simp: error_for_status_def)

lemma delete_loop_log:
  "snd (delete_loop (logged answer) c rs fs log) = log @ map (delete_request c) rs"
  by (induction rs arbitrary: fs log) (auto simp: delete_record_logged split: sum.splits)

lemma delete_loop_failures:
  "fst (delete_loop (logged answer) c rs fs log) = [] \<longleftrightarrow> fs = [] \<and> (\<forall>r\<in>set rs. deleted answer c r)"
proof (induction rs arbitrary: fs log)
  case Nil
  then show ?case by simp
next
  case (Cons r rs)
  show ?case
    using delete_record_ok [of answer c r log]
    by (cases "delete_record (logged answer) c r log"; cases "fst (delete_record (logged answer) c r log)")
      (auto simp: Cons.IH)
qed

text \<open>
  \<open>delete_records\<close> sends one DELETE for every record id, in order, whatever the earlier ones
  answered, and reports success exactly when every one of them was deleted.
\<close>

theorem delete_records_attempts_all:
  "snd (delete_records (logged answer) c rs log) = log @ map (delete_request c) rs \<and>
   (fst (delete_records (logged answer) c rs log) = Ok () \<longleftrightarrow> (\<forall>r\<in>set rs. deleted answer c r))"
proof -
  obtain fs l where d: "delete_loop (logged answer) c rs [] log = (fs, l)" by fastforce
  show ?thesis
    using delete_loop_log [of answer c rs "[]" log] delete_loop_failures [of answer c rs "[]" log]
    by (auto simp: delete_records_def d)
qed

theorem delete_records_attempts_all_witness:
  "fst (delete_records (logged (\<lambda>q. Ok \<lparr>ds_status = 200, ds_body = Ok JNull\<rparr>)) (cloudflare_new ''t'' ''z'')
     [''a'', ''b''] []) = Ok ()"
proof -
  have "\<forall>r\<in>set [''a'', ''b'']. deleted (\<lambda>q. Ok \<lparr>ds_status = 200, ds_body = Ok JNull\<rparr>) (cloudflare_new ''t'' ''z'') r"
    by (simp add: deleted_def error_for_status_def)
  then show ?thesis
    using delete_records_attempts_all [of "\<lambda>q. Ok \<lparr>ds_status = 200, ds_body = Ok JNull\<rparr>"
        "cloudflare_new ''t'' ''z''" "[''a'', ''b'']" "[]"] by blast
qed

end
