(* ===== verification/Rust_Net.thy ===== *)
theory Rust_Net
  imports Rust_Str
begin

text \<open>
  The address parser of \<open>core::net\<close> behind \<open>str::parse::<IpAddr>()\<close> and
  \<open>parse::<Ipv4Addr>()\<close>: dotted IPv4 without octal, IPv6 with one \<open>::\<close> and an optional
  trailing IPv4 part. A parser takes the input and gives the value and the rest, or \<open>None\<close>
  with nothing consumed (\<open>read_atomically\<close>). \<open>ip_is_loopback\<close> is \<open>IpAddr::is_loopback\<close>.
\<close>

datatype ip_addr = V4 nat nat nat nat | V6 "nat list"

type_synonym 'a reader = "bytes \<Rightarrow> ('a \<times> bytes) option"

text \<open>A run of digits: at most \<open>maxd\<close>, a leading zero only when allowed, below \<open>bound\<close>.\<close>

definition read_number :: "nat \<Rightarrow> nat \<Rightarrow> bool \<Rightarrow> nat \<Rightarrow> nat reader" where
  "read_number radix maxd allow_zero bound s =
     (let ds = takeWhile (\<lambda>c. digit_val radix c \<noteq> None) s in
      if ds = [] \<or> length ds > maxd \<or> (\<not> allow_zero \<and> hd ds = CHR ''0'' \<and> length ds > 1) then None
      else (case digits_val radix 0 ds of
        Some v \<Rightarrow> if v < bound then Some (v, drop (length ds) s) else None
      | None \<Rightarrow> None))"

definition read_given_char :: "byte \<Rightarrow> unit reader" where
  "read_given_char c s = (case s of x # r \<Rightarrow> if x = c then Some ((), r) else None | [] \<Rightarrow> None)"

definition read_separator :: "byte \<Rightarrow> nat \<Rightarrow> 'a reader \<Rightarrow> 'a reader" where
  "read_separator sep i inner s =
     (if i > 0 then (case read_given_char sep s of None \<Rightarrow> None | Some (_, r) \<Rightarrow> inner r) else inner s)"

definition read_octet :: "nat \<Rightarrow> nat reader" where
  "read_octet i = read_separator (CHR ''.'') i (read_number 10 3 False 256)"

definition read_ipv4 :: "(nat \<times> nat \<times> nat \<times> nat) reader" where
  "read_ipv4 s = (case read_octet 0 s of None \<Rightarrow> None | Some (a, s1) \<Rightarrow>
     (case read_octet 1 s1 of None \<Rightarrow> None | Some (b, s2) \<Rightarrow>
     (case read_octet 2 s2 of None \<Rightarrow> None | Some (c, s3) \<Rightarrow>
     (case read_octet 3 s3 of None \<Rightarrow> None | Some (d, s4) \<Rightarrow> Some ((a, b, c, d), s4)))))"

text \<open>
  \<open>read_groups n i s\<close>: the groups from index \<open>i\<close> when \<open>n\<close> slots are left, whether they end
  with an embedded IPv4 address, and the rest.
\<close>

fun read_groups :: "nat \<Rightarrow> nat \<Rightarrow> bytes \<Rightarrow> nat list \<times> bool \<times> bytes" where
  "read_groups 0 i s = ([], False, s)"
| "read_groups (Suc n) i s =
     (case (if n > 0 then read_separator (CHR '':'') i read_ipv4 s else None) of
        Some ((a, b, c, d), r) \<Rightarrow> ([a * 256 + b, c * 256 + d], True, r)
      | None \<Rightarrow>
          (case read_separator (CHR '':'') i (read_number 16 4 True 65536) s of
             None \<Rightarrow> ([], False, s)
           | Some (g, r) \<Rightarrow> (case read_groups n (Suc i) r of (gs, v4, r') \<Rightarrow> (g # gs, v4, r'))))"

definition read_ipv6 :: "nat list reader" where
  "read_ipv6 s = (case read_groups 8 0 s of (head, head_ipv4, s1) \<Rightarrow>
     if length head = 8 then Some (head, s1)
     else if head_ipv4 then None
     else (case read_given_char (CHR '':'') s1 of None \<Rightarrow> None | Some (_, s2) \<Rightarrow>
          (case read_given_char (CHR '':'') s2 of None \<Rightarrow> None | Some (_, s3) \<Rightarrow>
          (case read_groups (8 - (length head + 1)) 0 s3 of (tail, _, s4) \<Rightarrow>
             Some (head @ replicate (8 - length head - length tail) 0 @ tail, s4)))))"

definition parse_ip :: "str \<Rightarrow> ip_addr option" where
  "parse_ip s = (case read_ipv4 s of
     Some ((a, b, c, d), r) \<Rightarrow> if r = [] then Some (V4 a b c d) else None
   | None \<Rightarrow> (case read_ipv6 s of
       Some (gs, r) \<Rightarrow> if r = [] then Some (V6 gs) else None
     | None \<Rightarrow> None))"

definition parse_ipv4 :: "str \<Rightarrow> (nat \<times> nat \<times> nat \<times> nat) option" where
  "parse_ipv4 s = (if length s > 15 then None
     else (case read_ipv4 s of Some (v, r) \<Rightarrow> if r = [] then Some v else None | None \<Rightarrow> None))"

fun ip_is_loopback :: "ip_addr \<Rightarrow> bool" where
  "ip_is_loopback (V4 a b c d) = (a = 127)"
| "ip_is_loopback (V6 gs) = (gs = [0, 0, 0, 0, 0, 0, 0, 1])"

text \<open>Evaluation on literals: \<open>net_eval\<close> unfolds the parser, numerals stay numerals.\<close>

lemma read_groups_numeral [simp]:
  "read_groups (numeral k) i s =
     (case (if pred_numeral k > 0 then read_separator (CHR '':'') i read_ipv4 s else None) of
        Some ((a, b, c, d), r) \<Rightarrow> ([a * 256 + b, c * 256 + d], True, r)
      | None \<Rightarrow>
          (case read_separator (CHR '':'') i (read_number 16 4 True 65536) s of
             None \<Rightarrow> ([], False, s)
           | Some (g, r) \<Rightarrow> (case read_groups (pred_numeral k) (Suc i) r of (gs, v4, r') \<Rightarrow> (g # gs, v4, r'))))"
  by (simp add: numeral_eq_Suc)

lemma replicate_numeral_Cons: "replicate (numeral k) x = x # replicate (pred_numeral k) x"
  by (simp add: numeral_eq_Suc)

lemmas net_eval = replicate_numeral_Cons parse_ip_def parse_ipv4_def read_ipv4_def read_octet_def read_separator_def
  read_given_char_def read_number_def read_ipv6_def digit_val_def byte_val_def

end
