(* ===== verification/Proto_Inspect.thy ===== *)
theory Proto_Inspect
  imports Rust_Net
begin

text \<open>
  \<open>inspect.rs\<close> of the protocol crate: the captured request/response pair, the events of the
  inspection UI, the removal of credential headers from every capture (also around its
  serialisation) and the check that a \<open>Host\<close> authority names the loopback interface.
\<close>

type_synonym headers = "(str \<times> str) list"

record captured_request =
  cap_id :: str
  captured_at :: nat
  duration_ms :: "nat option"
  cap_tunnel_id :: str
  req_method :: str
  req_url :: str
  req_headers :: headers
  req_body :: "bytes option"
  req_body_truncated :: bool
  resp_status :: "nat option"
  resp_headers :: "headers option"
  resp_body :: "bytes option"
  resp_body_truncated :: bool
  remote_addr :: str
  tls_version :: "str option"

datatype inspect_event =
    NewRequest captured_request
  | RequestCompleted str nat nat

section \<open>Sensitive headers\<close>

definition is_sensitive_header :: "str \<Rightarrow> bool" where
  "is_sensitive_header raw = (let name = to_ascii_lowercase (trim raw) in
     name \<in> set [''authorization'', ''proxy-authorization'', ''cookie'', ''set-cookie'', ''x-api-key'',
       ''api-key'', ''x-auth-token'', ''x-csrf-token'', ''sec-websocket-key'']
     \<or> contains ''api-key'' name
     \<or> contains ''apikey'' name
     \<or> contains ''token'' name
     \<or> contains ''secret'' name
     \<or> contains ''password'' name
     \<or> contains ''credential'' name)"

definition sanitize_headers :: "headers \<Rightarrow> headers" where
  "sanitize_headers hs = filter (\<lambda>(name, _). \<not> is_sensitive_header name) hs"

text \<open>What \<open>store_capture\<close> of both sides does to a capture before it is kept.\<close>

definition sanitize_capture :: "captured_request \<Rightarrow> captured_request" where
  "sanitize_capture c = c\<lparr>req_headers := sanitize_headers (req_headers c),
     resp_headers := map_option sanitize_headers (resp_headers c)\<rparr>"

text \<open>
  The serde attributes of the header fields, over a codec of plain header lists
  (\<open>enc\<close>/\<open>dec\<close>, the crate's): sanitised on the way out and on the way in.
\<close>

definition serialize_headers :: "(headers \<Rightarrow> 'v) \<Rightarrow> headers \<Rightarrow> 'v" where
  "serialize_headers enc hs = enc (sanitize_headers hs)"

definition deserialize_headers :: "('v \<Rightarrow> ('e, headers) result) \<Rightarrow> 'v \<Rightarrow> ('e, headers) result" where
  "deserialize_headers dec v = and_then (dec v) (\<lambda>hs. Ok (sanitize_headers hs))"

definition serialize_opt_headers :: "(headers option \<Rightarrow> 'v) \<Rightarrow> headers option \<Rightarrow> 'v" where
  "serialize_opt_headers enc hs = enc (map_option sanitize_headers hs)"

definition deserialize_opt_headers ::
  "('v \<Rightarrow> ('e, headers option) result) \<Rightarrow> 'v \<Rightarrow> ('e, headers option) result" where
  "deserialize_opt_headers dec v = and_then (dec v) (\<lambda>hs. Ok (map_option sanitize_headers hs))"

text \<open>Bodies travel as base64 text (\<open>b64\<close>/\<open>unb64\<close>, the crate's engine).\<close>

definition serialize_opt_bytes :: "(bytes \<Rightarrow> str) \<Rightarrow> bytes option \<Rightarrow> str option" where
  "serialize_opt_bytes b64 v = map_option b64 v"

definition deserialize_opt_bytes :: "(str \<Rightarrow> ('e, bytes) result) \<Rightarrow> str option \<Rightarrow> ('e, bytes option) result" where
  "deserialize_opt_bytes unb64 v = (case v of
     Some s \<Rightarrow> and_then (unb64 s) (\<lambda>d. Ok (Some d))
   | None \<Rightarrow> Ok None)"

lemma sanitize_headers_set:
  "(n, v) \<in> set (sanitize_headers hs) \<longleftrightarrow> (n, v) \<in> set hs \<and> \<not> is_sensitive_header n"
  by (auto simp: sanitize_headers_def)

lemma sanitize_headers_idem [simp]: "sanitize_headers (sanitize_headers hs) = sanitize_headers hs"
  by (simp add: sanitize_headers_def)

lemma sanitize_headers_subseq: "subseq (sanitize_headers hs) hs"
  by (simp add: sanitize_headers_def subseq_filter_left)

lemma sanitize_capture_idem [simp]: "sanitize_capture (sanitize_capture c) = sanitize_capture c"
  by (simp add: sanitize_capture_def option.map_comp o_def)

lemma sanitize_capture_id [simp]: "cap_id (sanitize_capture c) = cap_id c"
  by (simp add: sanitize_capture_def)

definition clean_capture :: "captured_request \<Rightarrow> bool" where
  "clean_capture c = (sanitize_capture c = c)"

lemma clean_sanitize [simp]: "clean_capture (sanitize_capture c)"
  by (simp add: clean_capture_def)

lemma clean_capture_iff:
  "clean_capture c \<longleftrightarrow> sanitize_headers (req_headers c) = req_headers c \<and>
     map_option sanitize_headers (resp_headers c) = resp_headers c"
proof -
  have "req_headers (sanitize_capture c) = sanitize_headers (req_headers c)"
    "resp_headers (sanitize_capture c) = map_option sanitize_headers (resp_headers c)"
    by (simp_all add: sanitize_capture_def)
  then show ?thesis
    by (auto simp: clean_capture_def) (simp add: sanitize_capture_def)
qed

lemma clean_capture_req: "clean_capture c \<Longrightarrow> (n, v) \<in> set (req_headers c) \<Longrightarrow> \<not> is_sensitive_header n"
  unfolding clean_capture_iff by (metis sanitize_headers_set)

lemma clean_capture_resp:
  "clean_capture c \<Longrightarrow> resp_headers c = Some hs \<Longrightarrow> (n, v) \<in> set hs \<Longrightarrow> \<not> is_sensitive_header n"
  unfolding clean_capture_iff by (metis option.inject option.simps(9) sanitize_headers_set)

text \<open>
  Through a codec that decodes what it encoded, a header list comes back as exactly its
  headers that are not sensitive; a list written unsanitised is sanitised when it is read.
\<close>

lemma capture_headers_roundtrip:
  assumes "\<And>hs. dec (enc hs) = Ok hs"
  shows "deserialize_headers dec (serialize_headers enc hs) = Ok (sanitize_headers hs) \<and>
    deserialize_headers dec (enc hs) = Ok (sanitize_headers hs)"
  by (simp add: deserialize_headers_def serialize_headers_def assms)

lemma capture_opt_headers_roundtrip:
  assumes "\<And>hs. dec (enc hs) = Ok hs"
  shows "deserialize_opt_headers dec (serialize_opt_headers enc hs) = Ok (map_option sanitize_headers hs)"
  by (simp add: deserialize_opt_headers_def serialize_opt_headers_def assms option.map_comp o_def)

lemma capture_bytes_roundtrip:
  assumes "\<And>b. unb64 (b64 b) = Ok b"
  shows "deserialize_opt_bytes unb64 (serialize_opt_bytes b64 v) = Ok v"
  by (cases v) (simp_all add: deserialize_opt_bytes_def serialize_opt_bytes_def assms)

section \<open>Loopback authorities\<close>

definition is_loopback_authority :: "str \<Rightarrow> bool" where
  "is_loopback_authority authority =
     (let host =
        (case strip_prefix ''['' authority of
           Some bracketed \<Rightarrow>
             (case split_once '']'' bracketed of
                None \<Rightarrow> None
              | Some (host, rest) \<Rightarrow>
                  if rest \<noteq> [] \<and>
                     (case strip_prefix '':'' rest of
                        None \<Rightarrow> True
                      | Some port \<Rightarrow> parse_u16 port = None)
                  then None else Some host)
         | None \<Rightarrow>
             (case split_once '':'' authority of
                Some (host, port) \<Rightarrow> if parse_u16 port = None then None else Some host
              | None \<Rightarrow> Some authority))
      in (case host of
            None \<Rightarrow> False
          | Some h \<Rightarrow> eq_ignore_ascii_case h ''localhost''
              \<or> (case parse_ip h of Some a \<Rightarrow> ip_is_loopback a | None \<Rightarrow> False)))"

text \<open>The host part names the loopback interface.\<close>

definition loopback_host :: "str \<Rightarrow> bool" where
  "loopback_host h = (eq_ignore_ascii_case h ''localhost''
     \<or> (\<exists>a. parse_ip h = Some a \<and> ip_is_loopback a))"

lemma loopback_host_alt:
  "loopback_host h = (eq_ignore_ascii_case h ''localhost''
     \<or> (case parse_ip h of Some a \<Rightarrow> ip_is_loopback a | None \<Rightarrow> False))"
  by (auto simp: loopback_host_def split: option.splits)

text \<open>
  An authority is accepted only if it is, byte for byte, a loopback host, bare or in
  brackets, alone or followed by one colon and a \<open>u16\<close>. So a rebinding name such as
  \<open>localhost:4040:evil\<close> or \<open>[::1].attacker.example\<close> is refused.
\<close>

theorem loopback_authority_sound:
  assumes "is_loopback_authority s"
  shows "\<exists>h. loopback_host h \<and>
    (s = h \<or> s = ''['' @ h @ '']'' \<or>
     (\<exists>p n. parse_u16 p = Some n \<and> (s = h @ '':'' @ p \<or> s = ''['' @ h @ '']'' @ '':'' @ p)))"
proof (cases "strip_prefix ''['' s")
  case None
  show ?thesis
  proof (cases "split_once '':'' s")
    case none: None
    with assms None have "loopback_host s"
      by (simp add: is_loopback_authority_def loopback_host_alt)
    then show ?thesis by blast
  next
    case (Some hp)
    obtain h p where hp: "hp = (h, p)" by (cases hp)
    with assms None Some have "loopback_host h" "parse_u16 p \<noteq> None"
      by (auto simp: is_loopback_authority_def loopback_host_alt split: if_splits)
    moreover have "s = h @ '':'' @ p" using split_once_Some [OF Some [unfolded hp]] .
    ultimately show ?thesis by blast
  qed
next
  case (Some b)
  then have s: "s = ''['' @ b" by (simp only: strip_prefix_iff)
  with assms obtain h suf where hs: "split_once '']'' b = Some (h, suf)"
    by (auto simp: is_loopback_authority_def split: option.splits)
  then have b: "b = h @ '']'' @ suf" by (rule split_once_Some)
  have h: "loopback_host h"
    and suf: "suf = [] \<or> (\<exists>p. strip_prefix '':'' suf = Some p \<and> parse_u16 p \<noteq> None)"
    using assms Some hs
    by (auto simp: is_loopback_authority_def loopback_host_alt split: if_splits option.splits)
  from suf show ?thesis
  proof
    assume "suf = []"
    with s b h show ?thesis by fastforce
  next
    assume "\<exists>p. strip_prefix '':'' suf = Some p \<and> parse_u16 p \<noteq> None"
    then obtain p n where "suf = '':'' @ p" "parse_u16 p = Some n"
      by (auto simp: strip_prefix_iff)
    with s b h show ?thesis by (metis append_assoc)
  qed
qed

lemma parse_u16_4040: "parse_u16 ''4040'' = Some 4040"
  by (simp add: parse_u16_def parse_radix_def digit_val_def byte_val_def)

lemma loopback_localhost_port: "is_loopback_authority ''localhost:4040''"
  by (simp add: is_loopback_authority_def split_once_def starts_with_def parse_u16_4040)

theorem loopback_authority_sound_witness:
  "is_loopback_authority ''localhost:4040'' \<and>
   (\<exists>h. loopback_host h \<and>
    (''localhost:4040'' = h \<or> ''localhost:4040'' = ''['' @ h @ '']'' \<or>
     (\<exists>p n. parse_u16 p = Some n \<and>
       (''localhost:4040'' = h @ '':'' @ p \<or> ''localhost:4040'' = ''['' @ h @ '']'' @ '':'' @ p))))"
  using loopback_localhost_port loopback_authority_sound [OF loopback_localhost_port] by blast

lemma loopback_rejects_rebinding:
  "\<not> is_loopback_authority ''localhost:4040:evil''"
  "\<not> is_loopback_authority ''[::1].attacker.example''"
  by (simp_all add: is_loopback_authority_def split_once_def starts_with_def parse_u16_def
      parse_radix_def digit_val_def byte_val_def)

end
