(* ===== verification/Byte_Stream.thy ===== *)
theory Byte_Stream
  imports Rust_Str
begin

text \<open>
  An asynchronous byte stream as its reader sees it: the segments that arrive, and how the
  stream ends (closed by the peer, a read error, or silence). A read into a buffer of \<open>k\<close> bytes
  returns at most \<open>k\<close> bytes of the first segment, so every way of cutting the bytes into
  segments is a way the network can deliver them. A read that never returns is \<open>None\<close>.
\<close>

datatype stream_end = Eof | Fail str | Stall

type_synonym stream = "bytes list \<times> stream_end"

type_synonym 'a io = "(str, 'a) result option"

definition content :: "stream \<Rightarrow> bytes" where
  "content s = concat (fst s)"

fun s_read_segs :: "nat \<Rightarrow> bytes list \<Rightarrow> stream_end \<Rightarrow> (bytes \<times> stream) io" where
  "s_read_segs k [] Eof = Some (Ok ([], [], Eof))"
| "s_read_segs k [] (Fail e) = Some (Err e)"
| "s_read_segs k [] Stall = None"
| "s_read_segs k (seg # segs) en =
     (if seg = [] then s_read_segs k segs en
      else Some (Ok (take k seg, (if k < length seg then drop k seg # segs else segs), en)))"

definition s_read :: "nat \<Rightarrow> stream \<Rightarrow> (bytes \<times> stream) io" where
  "s_read k s = s_read_segs k (fst s) (snd s)"

text \<open>\<open>?\<close> and \<open>.await\<close> together: stop on an error, and on a read that never returns.\<close>

fun io_then :: "'a io \<Rightarrow> ('a \<Rightarrow> 'b io) \<Rightarrow> 'b io" where
  "io_then None f = None"
| "io_then (Some (Inl e)) f = Some (Inl e)"
| "io_then (Some (Inr a)) f = f a"

lemma io_then_Ok_iff: "io_then m f = Some (Ok b) \<longleftrightarrow> (\<exists>a. m = Some (Ok a) \<and> f a = Some (Ok b))"
  by (cases "(m, f)" rule: io_then.cases) auto

lemma io_then_None_iff: "io_then m f = None \<longleftrightarrow> m = None \<or> (\<exists>a. m = Some (Ok a) \<and> f a = None)"
  by (cases "(m, f)" rule: io_then.cases) auto

definition lift :: "('e, 'a) result \<Rightarrow> ('e \<Rightarrow> str) \<Rightarrow> 'a io" where
  "lift r msg = Some (case r of Inl e \<Rightarrow> Err (msg e) | Inr a \<Rightarrow> Ok a)"

section \<open>What one read does\<close>

lemma s_read_segs_Ok:
  "s_read_segs k segs en = Some (Ok (d, s')) \<Longrightarrow> 0 < k \<Longrightarrow>
   concat segs = d @ content s' \<and> snd s' = en \<and> length d \<le> k \<and> (d = [] \<longrightarrow> concat segs = [] \<and> en = Eof)"
  by (induction k segs en rule: s_read_segs.induct) (auto simp: content_def split: if_splits)

lemma s_read_Ok:
  assumes "s_read k s = Some (Ok (d, s'))" "0 < k"
  shows "content s = d @ content s'" "snd s' = snd s" "length d \<le> k" "d = [] \<Longrightarrow> content s = [] \<and> snd s = Eof"
proof -
  have "concat (fst s) = d @ content s' \<and> snd s' = snd s \<and> length d \<le> k \<and>
      (d = [] \<longrightarrow> concat (fst s) = [] \<and> snd s = Eof)"
    by (rule s_read_segs_Ok) (use assms in \<open>simp_all only: s_read_def\<close>)
  then show "content s = d @ content s'" "snd s' = snd s" "length d \<le> k" "d = [] \<Longrightarrow> content s = [] \<and> snd s = Eof"
    unfolding content_def [of s] by blast+
qed

lemma s_read_segs_more:
  "concat segs \<noteq> [] \<Longrightarrow> 0 < k \<Longrightarrow> \<exists>d s'. s_read_segs k segs en = Some (Ok (d, s')) \<and> d \<noteq> []"
  by (induction segs) auto

lemma s_read_more:
  assumes "content s \<noteq> []" "0 < k"
  obtains d s' where "s_read k s = Some (Ok (d, s'))" "d \<noteq> []" "content s = d @ content s'" "snd s' = snd s"
proof -
  obtain d s' where r: "s_read k s = Some (Ok (d, s'))" "d \<noteq> []"
    using s_read_segs_more [of "fst s" k "snd s"] assms by (auto simp: content_def s_read_def)
  with s_read_Ok [OF r(1) assms(2)] that show ?thesis by blast
qed

lemma s_read_segs_end:
  "concat segs = [] \<Longrightarrow> s_read_segs k segs en =
     (case en of Eof \<Rightarrow> Some (Ok ([], [], Eof)) | Fail e \<Rightarrow> Some (Err e) | Stall \<Rightarrow> None)"
  by (induction segs) (auto split: stream_end.splits)

lemma s_read_end:
  "content s = [] \<Longrightarrow> s_read k s =
     (case snd s of Eof \<Rightarrow> Some (Ok ([], [], Eof)) | Fail e \<Rightarrow> Some (Err e) | Stall \<Rightarrow> None)"
  by (simp add: s_read_def content_def s_read_segs_end)

lemma s_read_None: "s_read k s = None \<Longrightarrow> 0 < k \<Longrightarrow> content s = [] \<and> snd s = Stall"
  by (cases "content s = []")
    (auto simp: s_read_end split: stream_end.splits elim: s_read_more)

lemma s_read_shorter:
  assumes "s_read k s = Some (Ok (d, s'))" "0 < k" "d \<noteq> []"
  shows "length (content s') < length (content s)"
  using s_read_Ok(1) [OF assms(1,2)] assms(3) by simp

end
