(* ===== verification/Http_Proxy.thy ===== *)
theory Http_Proxy
  imports Byte_Stream Proto_Inspect
begin

text \<open>
  The HTTP/1.1 part of \<open>proxy.rs\<close>: reading one response off the raw tunnel stream (header section,
  informational responses, fixed, chunked and close-delimited bodies), the hop-by-hop fields, the
  request line and headers written into the tunnel, and the redirect of port 80. The buffered
  bytes are passed along with the stream, as in the code.
\<close>

definition MAX_RESPONSE_HEADERS :: nat where "MAX_RESPONSE_HEADERS = 65536"
definition MAX_INFORMATIONAL_RESPONSES :: nat where "MAX_INFORMATIONAL_RESPONSES = 16"
definition READ_BUFFER_SIZE :: nat where "READ_BUFFER_SIZE = 8192"
definition MAX_INSPECTION_BODY :: nat where "MAX_INSPECTION_BODY = 1048576"

definition crlf2 :: bytes where
  "crlf2 = crlf @ crlf"

section \<open>The header section\<close>

text \<open>The end of the header section, with the stream and the buffer after the reads.\<close>

function read_header_section :: "stream \<Rightarrow> bytes \<Rightarrow> (nat \<times> stream \<times> bytes) io" where
  "read_header_section s buffered =
     (case find_sub crlf2 buffered of
        Some position \<Rightarrow>
          (if position + 4 > MAX_RESPONSE_HEADERS then Some (Err ''response headers too large'')
           else Some (Ok (position + 4, s, buffered)))
      | None \<Rightarrow>
          (if length buffered \<ge> MAX_RESPONSE_HEADERS then Some (Err ''response headers too large'')
           else (case s_read READ_BUFFER_SIZE s of
               None \<Rightarrow> None
             | Some (Inl e) \<Rightarrow> Some (Err e)
             | Some (Inr (d, s1)) \<Rightarrow>
                 (if d = [] then Some (Err ''response ended before headers'')
                  else if length (buffered @ d) > MAX_RESPONSE_HEADERS \<and> find_sub crlf2 (buffered @ d) = None
                  then Some (Err ''response headers too large'')
                  else read_header_section s1 (buffered @ d)))))"
  by pat_completeness auto
termination
  by (relation "measure (length \<circ> content \<circ> fst)") (auto intro: s_read_shorter simp: READ_BUFFER_SIZE_def)

declare read_header_section.simps [simp del]

fun parse_header_lines :: "str list \<Rightarrow> headers \<Rightarrow> (str, headers) result" where
  "parse_header_lines [] hs = Ok hs"
| "parse_header_lines (l # ls) hs =
     (if l = [] then Ok hs
      else (case split_once '':'' l of
          None \<Rightarrow> Err ''invalid response header''
        | Some (name, value) \<Rightarrow>
            (if trim name = [] then Err ''empty response header name''
             else parse_header_lines ls (hs @ [(trim name, trim value)]))))"

definition parse_response_headers :: "str \<Rightarrow> (str, nat \<times> headers) result" where
  "parse_response_headers header_text =
     (case split_crlf header_text of
        [] \<Rightarrow> Err ''missing status line''
      | status_line # ls \<Rightarrow>
          (let parts = split_whitespace status_line;
               version = (case parts of [] \<Rightarrow> [] | v # _ \<Rightarrow> v)
           in if \<not> starts_with ''HTTP/'' version then Err ''invalid HTTP status line''
              else (case parts of
                  _ # code # _ \<Rightarrow>
                    (case parse_u16 code of
                       None \<Rightarrow> Err ''invalid digit found in string''
                     | Some status_code \<Rightarrow>
                         and_then (parse_header_lines ls []) (\<lambda>hs. Ok (status_code, hs)))
                | _ \<Rightarrow> Err ''missing response status'')))"

definition header_values :: "headers \<Rightarrow> str \<Rightarrow> str list" where
  "header_values hs name = map snd (filter (\<lambda>(n, _). eq_ignore_ascii_case n name) hs)"

fun content_length_items :: "str list \<Rightarrow> nat option \<Rightarrow> (str, nat option) result" where
  "content_length_items [] parsed = Ok parsed"
| "content_length_items (item # items) parsed =
     (case parse_usize (trim item) of
        None \<Rightarrow> Err ''invalid digit found in string''
      | Some len \<Rightarrow>
          (case parsed of
             Some previous \<Rightarrow>
               (if previous \<noteq> len then Err ''conflicting Content-Length values''
                else content_length_items items parsed)
           | None \<Rightarrow> content_length_items items (Some len)))"

definition parse_content_length :: "headers \<Rightarrow> (str, nat option) result" where
  "parse_content_length hs =
     content_length_items (concat (map (split_on (CHR '','')) (header_values hs ''content-length''))) None"

section \<open>The bodies\<close>

function ensure_buffered :: "stream \<Rightarrow> bytes \<Rightarrow> nat \<Rightarrow> (stream \<times> bytes) io" where
  "ensure_buffered s buffered required =
     (if length buffered \<ge> required then Some (Ok (s, buffered))
      else (case s_read READ_BUFFER_SIZE s of
          None \<Rightarrow> None
        | Some (Inl e) \<Rightarrow> Some (Err e)
        | Some (Inr (d, s1)) \<Rightarrow>
            (if d = [] then Some (Err ''response ended before body completed'')
             else ensure_buffered s1 (buffered @ d) required)))"
  by pat_completeness auto
termination
  by (relation "measure (length \<circ> content \<circ> fst)") (auto intro: s_read_shorter simp: READ_BUFFER_SIZE_def)

declare ensure_buffered.simps [simp del]

definition take_buffered :: "bytes \<Rightarrow> nat \<Rightarrow> bytes \<times> bytes" where
  "take_buffered buffered n = (let n = min n (length buffered) in (take n buffered, drop n buffered))"

function fixed_loop :: "stream \<Rightarrow> bytes \<Rightarrow> nat \<Rightarrow> (bytes \<times> stream) io" where
  "fixed_loop s body content_length =
     (if length body \<ge> content_length then Some (Ok (body, s))
      else (case s_read (min (content_length - length body) READ_BUFFER_SIZE) s of
          None \<Rightarrow> None
        | Some (Inl e) \<Rightarrow> Some (Err e)
        | Some (Inr (d, s1)) \<Rightarrow>
            (if d = [] then Some (Err ''response ended before Content-Length bytes were read'')
             else fixed_loop s1 (body @ d) content_length)))"
  by pat_completeness auto
termination
  by (relation "measure (length \<circ> content \<circ> fst)") (auto intro: s_read_shorter simp: READ_BUFFER_SIZE_def)

declare fixed_loop.simps [simp del]

definition read_fixed_body ::
  "stream \<Rightarrow> bytes \<Rightarrow> nat \<Rightarrow> nat \<Rightarrow> (bytes \<times> stream \<times> bytes) io" where
  "read_fixed_body s buffered content_length max_body_bytes =
     (if content_length > max_body_bytes then Some (Err ''response body exceeds configured limit'')
      else (case take_buffered buffered content_length of (body, rest) \<Rightarrow>
        io_then (fixed_loop s body content_length) (\<lambda>(body, s1). Some (Ok (body, s1, rest)))))"

lemma ensure_buffered_Ok:
  "ensure_buffered s buffered n = Some (Ok (s1, b1)) \<Longrightarrow>
   b1 @ content s1 = buffered @ content s \<and> snd s1 = snd s \<and> n \<le> length b1 \<and> prefix buffered b1"
proof (induction s buffered n rule: ensure_buffered.induct)
  case (1 s buffered required)
  show ?case
  proof (cases "length buffered \<ge> required")
    case True
    then show ?thesis using 1(2) by (simp add: ensure_buffered.simps)
  next
    case False
    then obtain d s2 where r: "s_read READ_BUFFER_SIZE s = Some (Ok (d, s2))" "d \<noteq> []"
        "ensure_buffered s2 (buffered @ d) required = Some (Ok (s1, b1))"
      using 1(2) by (subst (asm) ensure_buffered.simps) (auto split: option.splits sum.splits if_splits)
    have "0 < READ_BUFFER_SIZE" by (simp add: READ_BUFFER_SIZE_def)
    note c = s_read_Ok [OF r(1) this]
    have "b1 @ content s1 = (buffered @ d) @ content s2 \<and> snd s1 = snd s2 \<and> required \<le> length b1 \<and> prefix (buffered @ d) b1"
      by (rule 1(1) [OF False r(1) refl refl r(2) r(3)])
    then show ?thesis using c by (auto simp: prefix_def)
  qed
qed

lemma ensure_buffered_length:
  "ensure_buffered s b n = Some (Ok (s1, b1)) \<Longrightarrow> length b1 + length (content s1) = length b + length (content s)"
  using ensure_buffered_Ok by (metis length_append)

lemma ensure_buffered_shorter:
  assumes "ensure_buffered s buffered (Suc (length buffered)) = Some (Ok (s1, b1))"
  shows "length (content s1) < length (content s)"
  using ensure_buffered_length [OF assms] ensure_buffered_Ok [OF assms] by simp

text \<open>One line up to \<open>CRLF\<close>; a read is made when none is in the buffer yet.\<close>

function read_line_crlf :: "stream \<Rightarrow> bytes \<Rightarrow> (bytes \<times> stream \<times> bytes) io" where
  "read_line_crlf s buffered =
     (case find_sub crlf buffered of
        Some position \<Rightarrow> Some (Ok (take position buffered, s, drop (position + 2) buffered))
      | None \<Rightarrow>
          (if length buffered > MAX_RESPONSE_HEADERS then Some (Err ''response chunk line too large'')
           else (case ensure_buffered s buffered (length buffered + 1) of
               None \<Rightarrow> None
             | Some (Inl e) \<Rightarrow> Some (Err e)
             | Some (Inr (s1, b1)) \<Rightarrow> read_line_crlf s1 b1)))"
  by pat_completeness auto
termination
  by (relation "measure (\<lambda>(s, b). length (content s))") (auto dest: ensure_buffered_shorter)

declare read_line_crlf.simps [simp del]

lemma read_line_crlf_Ok:
  "read_line_crlf s buffered = Some (Ok (line, s1, b1)) \<Longrightarrow>
   buffered @ content s = line @ crlf @ b1 @ content s1 \<and> snd s1 = snd s \<and> find_sub crlf (buffered @ content s) = Some (length line)"
proof (induction s buffered rule: read_line_crlf.induct)
  case (1 s buffered)
  show ?case
  proof (cases "find_sub crlf buffered")
    case (Some i)
    then have l: "line = take i buffered" "s1 = s" "b1 = drop (i + 2) buffered"
      using 1(2) by (simp_all add: read_line_crlf.simps)
    have "buffered = take i buffered @ crlf @ drop (i + 2) buffered"
      using find_sub_split [OF Some] by simp
    then have "buffered @ content s = line @ crlf @ b1 @ content s1" using l by (metis append.assoc)
    moreover have "length line = i" using find_sub_Some [OF Some] l by simp
    ultimately show ?thesis using find_sub_append [OF Some] l by simp
  next
    case None
    then obtain s2 b2 where r: "length buffered \<le> MAX_RESPONSE_HEADERS"
        "ensure_buffered s buffered (length buffered + 1) = Some (Ok (s2, b2))"
        "read_line_crlf s2 b2 = Some (Ok (line, s1, b1))"
      using 1(2) by (subst (asm) read_line_crlf.simps) (auto split: option.splits sum.splits if_splits)
    have "\<not> MAX_RESPONSE_HEADERS < length buffered" using r(1) by simp
    from 1(1) [OF None this r(2) refl refl r(3)] ensure_buffered_Ok [OF r(2)]
    show ?thesis by metis
  qed
qed

lemma read_line_crlf_shorter:
  assumes "read_line_crlf s buffered = Some (Ok (line, s1, b1))"
  shows "length b1 + length (content s1) < length buffered + length (content s)"
proof -
  have "length (buffered @ content s) = length (line @ crlf @ b1 @ content s1)"
    using read_line_crlf_Ok [OF assms] by simp
  then show ?thesis by simp
qed

text \<open>The trailers after the last chunk, up to the empty line.\<close>

function skip_trailers :: "stream \<Rightarrow> bytes \<Rightarrow> (stream \<times> bytes) io" where
  "skip_trailers s buffered =
     (case read_line_crlf s buffered of
        None \<Rightarrow> None
      | Some (Inl e) \<Rightarrow> Some (Err e)
      | Some (Inr (line, s1, b1)) \<Rightarrow> (if line = [] then Some (Ok (s1, b1)) else skip_trailers s1 b1))"
  by pat_completeness auto
termination
  by (relation "measure (\<lambda>(s, b). length b + length (content s))") (auto dest: read_line_crlf_shorter)

declare skip_trailers.simps [simp del]

function chunked_loop :: "stream \<Rightarrow> bytes \<Rightarrow> nat \<Rightarrow> bytes \<Rightarrow> (bytes \<times> stream \<times> bytes) io" where
  "chunked_loop s buffered max_body_bytes body =
     (case read_line_crlf s buffered of
        None \<Rightarrow> None
      | Some (Inl e) \<Rightarrow> Some (Err e)
      | Some (Inr (line, s1, b1)) \<Rightarrow>
          (let size_bytes = hd (split_on (CHR '';'') line) in
           if \<not> utf8_valid size_bytes then Some (Err ''invalid utf-8 sequence'')
           else (case usize_from_hex (trim size_bytes) of
               None \<Rightarrow> Some (Err ''invalid digit found in string'')
             | Some sz \<Rightarrow>
                 (if sz = 0 then
                    io_then (skip_trailers s1 b1) (\<lambda>(s2, b2). Some (Ok (body, s2, b2)))
                  else if sz > max_body_bytes - length body then
                    Some (Err ''response body exceeds configured limit'')
                  else (case ensure_buffered s1 b1 sz of
                      None \<Rightarrow> None
                    | Some (Inl e) \<Rightarrow> Some (Err e)
                    | Some (Inr (s2, b2)) \<Rightarrow>
                        (case take_buffered b2 sz of (chunk, b3) \<Rightarrow>
                          (case ensure_buffered s2 b3 2 of
                             None \<Rightarrow> None
                           | Some (Inl e) \<Rightarrow> Some (Err e)
                           | Some (Inr (s3, b4)) \<Rightarrow>
                               (case take_buffered b4 2 of (sep, b5) \<Rightarrow>
                                 (if sep \<noteq> crlf then Some (Err ''missing CRLF after response chunk'')
                                  else chunked_loop s3 b5 max_body_bytes (body @ chunk))))))))))"
  by pat_completeness auto
termination
  by (relation "measure (\<lambda>(s, b, _, _). length b + length (content s))")
    (auto simp: take_buffered_def Let_def dest!: read_line_crlf_shorter ensure_buffered_length)

declare chunked_loop.simps [simp del]

definition read_chunked_body :: "stream \<Rightarrow> bytes \<Rightarrow> nat \<Rightarrow> (bytes \<times> stream \<times> bytes) io" where
  "read_chunked_body s buffered max_body_bytes = chunked_loop s buffered max_body_bytes []"

text \<open>Only here a silent peer is bounded: each read has a deadline of 30 seconds.\<close>

function close_loop :: "stream \<Rightarrow> bytes \<Rightarrow> nat \<Rightarrow> bytes io" where
  "close_loop s body max_body_bytes =
     (case s_read READ_BUFFER_SIZE s of
        None \<Rightarrow> Some (Err ''close-delimited response timed out'')
      | Some (Inl e) \<Rightarrow> Some (Err e)
      | Some (Inr (d, s1)) \<Rightarrow>
          (if d = [] then Some (Ok body)
           else if length d > max_body_bytes - length body then
             Some (Err ''response body exceeds configured limit'')
           else close_loop s1 (body @ d) max_body_bytes))"
  by pat_completeness auto
termination
  by (relation "measure (length \<circ> content \<circ> fst)") (auto intro: s_read_shorter simp: READ_BUFFER_SIZE_def)

declare close_loop.simps [simp del]

definition read_close_delimited_body :: "stream \<Rightarrow> bytes \<Rightarrow> nat \<Rightarrow> bytes io" where
  "read_close_delimited_body s buffered max_body_bytes =
     (if length buffered > max_body_bytes then Some (Err ''response body exceeds configured limit'')
      else close_loop s buffered max_body_bytes)"

section \<open>One response\<close>

definition response_has_no_body :: "str \<Rightarrow> nat \<Rightarrow> bool" where
  "response_has_no_body request_method status_code =
     (request_method = ''HEAD'' \<or> (100 \<le> status_code \<and> status_code < 200)
      \<or> status_code = 204 \<or> status_code = 304)"

record parsed_http_response =
  pr_status_code :: nat
  pr_headers :: headers
  pr_body :: bytes

text \<open>
  The loop over informational responses; \<open>fuel\<close> counts those still allowed, so it starts one
  above the limit and its end is the error of the code.
\<close>

fun response_head :: "nat \<Rightarrow> stream \<Rightarrow> bytes \<Rightarrow> (nat \<times> headers \<times> stream \<times> bytes) io" where
  "response_head fuel s buffered =
     io_then (read_header_section s buffered) (\<lambda>(header_end, s1, b1).
       (if \<not> utf8_valid (take header_end b1) then Some (Err ''invalid utf-8 sequence'')
        else io_then (Some (parse_response_headers (take header_end b1))) (\<lambda>(status_code, hs).
          (if 100 \<le> status_code \<and> status_code < 200 \<and> status_code \<noteq> 101 then
             (case fuel of
                0 \<Rightarrow> Some (Err ''too many informational responses'')
              | Suc n \<Rightarrow> response_head n s1 (drop header_end b1))
           else Some (Ok (status_code, hs, s1, drop header_end b1))))))"

declare response_head.simps [simp del]

definition transfer_codings :: "headers \<Rightarrow> str list" where
  "transfer_codings hs = filter (\<lambda>v. v \<noteq> [])
     (map trim (concat (map (split_on (CHR '','')) (header_values hs ''transfer-encoding''))))"

definition read_body :: "headers \<Rightarrow> stream \<Rightarrow> bytes \<Rightarrow> nat \<Rightarrow> bytes io" where
  "read_body hs s buffered max_body_bytes =
     (let codings = transfer_codings hs in
      if codings \<noteq> [] \<and> (length codings \<noteq> 1 \<or> \<not> eq_ignore_ascii_case (hd codings) ''chunked'') then
        Some (Err ''unsupported Transfer-Encoding'')
      else if codings \<noteq> [] then
        io_then (read_chunked_body s buffered max_body_bytes) (\<lambda>(body, _). Some (Ok body))
      else io_then (Some (parse_content_length hs)) (\<lambda>cl. (case cl of
          Some content_length \<Rightarrow>
            io_then (read_fixed_body s buffered content_length max_body_bytes) (\<lambda>(body, _). Some (Ok body))
        | None \<Rightarrow> read_close_delimited_body s buffered max_body_bytes)))"

definition read_http_response :: "stream \<Rightarrow> str \<Rightarrow> nat \<Rightarrow> parsed_http_response io" where
  "read_http_response s request_method max_body_bytes =
     io_then (response_head MAX_INFORMATIONAL_RESPONSES s []) (\<lambda>(status_code, hs, s1, b1).
       (if response_has_no_body request_method status_code then
          Some (Ok \<lparr>pr_status_code = status_code, pr_headers = hs, pr_body = []\<rparr>)
        else io_then (read_body hs s1 b1 max_body_bytes) (\<lambda>body.
          Some (Ok \<lparr>pr_status_code = status_code, pr_headers = hs, pr_body = body\<rparr>))))"

section \<open>Hop-by-hop fields and the request line\<close>

definition HOP_BY_HOP_HEADERS :: "str list" where
  "HOP_BY_HOP_HEADERS = [''connection'', ''keep-alive'', ''proxy-authenticate'', ''proxy-authorization'',
     ''proxy-connection'', ''te'', ''trailer'', ''transfer-encoding'', ''upgrade'']"

definition hop_by_hop_header_names :: "headers \<Rightarrow> str list" where
  "hop_by_hop_header_names hs = HOP_BY_HOP_HEADERS @
     concat (map (\<lambda>(name, value). if eq_ignore_ascii_case name ''connection''
       then map to_ascii_lowercase (filter (\<lambda>t. t \<noteq> []) (map trim (split_on (CHR '','') value)))
       else []) hs)"

definition is_hop_by_hop :: "str \<Rightarrow> str list \<Rightarrow> bool" where
  "is_hop_by_hop name hop_by_hop = (to_ascii_lowercase name \<in> set hop_by_hop)"

text \<open>
  A request the server has taken apart. Names in a \<open>HeaderMap\<close> are lower-case; \<open>to_str\<close> of a
  value fails on bytes outside visible ASCII, space and tab. The path is what the crate's
  \<open>path_and_query\<close> gives.
\<close>

record prepared_request =
  rq_method :: str
  rq_path_and_query :: "str option"
  rq_headers :: headers
  rq_body :: bytes

definition value_byte :: "byte \<Rightarrow> bool" where
  "value_byte c = (byte_val c = 9 \<or> (32 \<le> byte_val c \<and> byte_val c < 127))"

definition value_to_str :: "bytes \<Rightarrow> str option" where
  "value_to_str v = (if list_all value_byte v then Some v else None)"

definition header_line :: "str \<Rightarrow> str \<Rightarrow> str" where
  "header_line name value = name @ '': '' @ value @ crlf"

definition serialize_http_request :: "prepared_request \<Rightarrow> nat \<Rightarrow> str option \<Rightarrow> str" where
  "serialize_http_request parts body_length custom_host =
     (let path = (case rq_path_and_query parts of Some p \<Rightarrow> p | None \<Rightarrow> ''/'');
          host_line = (case custom_host of Some h \<Rightarrow> header_line ''Host'' h | None \<Rightarrow> []);
          hop_by_hop = hop_by_hop_header_names
            (map (\<lambda>(n, v). (n, case value_to_str v of Some x \<Rightarrow> x | None \<Rightarrow> [])) (rq_headers parts));
          fields = concat (map (\<lambda>(name, value).
              (if custom_host \<noteq> None \<and> name = ''host'' then []
               else if is_hop_by_hop name hop_by_hop \<or> name = ''content-length'' then []
               else (case value_to_str value of Some v \<Rightarrow> header_line name v | None \<Rightarrow> [])))
            (rq_headers parts))
      in rq_method parts @ '' '' @ path @ '' HTTP/1.1'' @ crlf @ host_line @ fields @
         header_line ''Content-Length'' (show_nat body_length) @ crlf)"

definition is_safe_replay_header :: "str \<Rightarrow> bool" where
  "is_safe_replay_header name =
     (to_ascii_lowercase name \<notin> set [''host'', ''connection'', ''keep-alive'', ''proxy-authenticate'',
        ''proxy-authorization'', ''te'', ''trailer'', ''transfer-encoding'', ''upgrade'', ''authorization'',
        ''cookie'', ''set-cookie'', ''x-api-key'', ''x-auth-token'', ''x-access-token''])"

section \<open>The redirect of port 80\<close>

text \<open>The first line that starts with one of the two spellings of the field decides.\<close>

fun host_in_lines :: "str list \<Rightarrow> str option" where
  "host_in_lines [] = None"
| "host_in_lines (l # ls) =
     (case (case strip_prefix ''Host: '' l of Some v \<Rightarrow> Some v | None \<Rightarrow> strip_prefix ''host: '' l) of
        Some value \<Rightarrow> Some (hd (split_on (CHR '':'') (trim value)))
      | None \<Rightarrow> host_in_lines ls)"

definition extract_host_header :: "str \<Rightarrow> str option" where
  "extract_host_header request = host_in_lines (lines request)"

definition extract_request_path :: "str \<Rightarrow> str" where
  "extract_request_path request =
     (case lines request of
        [] \<Rightarrow> ''/''
      | first_line # _ \<Rightarrow>
          (case split_whitespace first_line of
             _ # path # _ \<Rightarrow> path
           | _ \<Rightarrow> ''/''))"

definition missing_host_reply :: bytes where
  "missing_host_reply = ''HTTP/1.1 400 Bad Request'' @ crlf @ ''Content-Length: 16'' @ crlf2 @ ''Missing Host header''"

definition redirect_reply :: "str \<Rightarrow> bytes" where
  "redirect_reply redirect_url = ''HTTP/1.1 301 Moved Permanently'' @ crlf @ ''Location: '' @ redirect_url @ crlf @
     ''Strict-Transport-Security: max-age=31536000'' @ crlf @ ''Content-Length: 0'' @ crlf @
     ''Connection: close'' @ crlf2"

text \<open>The bytes \<open>handle_http_connection\<close> writes.\<close>

definition handle_http_connection :: "stream \<Rightarrow> bytes io" where
  "handle_http_connection incoming =
     io_then (s_read 8192 incoming) (\<lambda>(buf, _).
       (if buf = [] then Some (Ok [])
        else (let request_data = utf8_lossy buf in
          case extract_host_header request_data of
            None \<Rightarrow> Some (Ok missing_host_reply)
          | Some host \<Rightarrow>
              Some (Ok (redirect_reply (''https://'' @ host @ extract_request_path request_data))))))"

end
