(* ===== verification/Dash_Map.thy ===== *)
theory Dash_Map
  imports Prelude "HOL-Library.AList"
begin

text \<open>
  The maps of the server's shared state (\<open>DashMap\<close> and \<open>HashMap\<close>), as association lists with
  distinct keys. The interface the server relies on is the locale \<open>finite_map\<close>: what a lookup
  returns after an insert or a remove, and how the size changes. \<open>slot_maps\<close> is the pair of
  maps a slot moves between when a reservation becomes a tunnel or a closing tunnel becomes a
  reservation again: such a move never changes the number of slots in use. Iteration over a
  map follows the list; the code's maps promise no order.
\<close>

type_synonym ('k, 'v) dmap = "('k \<times> 'v) list"

definition dm_empty :: "('k, 'v) dmap" where
  "dm_empty = []"

definition dm_get :: "('k, 'v) dmap \<Rightarrow> 'k \<Rightarrow> 'v option" where
  "dm_get m k = map_of m k"

definition dm_contains :: "('k, 'v) dmap \<Rightarrow> 'k \<Rightarrow> bool" where
  "dm_contains m k = (case dm_get m k of None \<Rightarrow> False | Some _ \<Rightarrow> True)"

definition dm_insert :: "'k \<Rightarrow> 'v \<Rightarrow> ('k, 'v) dmap \<Rightarrow> ('k, 'v) dmap" where
  "dm_insert k v m = AList.update k v m"

definition dm_remove :: "'k \<Rightarrow> ('k, 'v) dmap \<Rightarrow> ('k, 'v) dmap" where
  "dm_remove k m = AList.delete k m"

definition dm_len :: "('k, 'v) dmap \<Rightarrow> nat" where
  "dm_len m = length m"

definition dm_wf :: "('k, 'v) dmap \<Rightarrow> bool" where
  "dm_wf m = distinct (map fst m)"

section \<open>The interface\<close>

locale finite_map =
  fixes get :: "'m \<Rightarrow> 'k \<Rightarrow> 'v option"
    and insert :: "'k \<Rightarrow> 'v \<Rightarrow> 'm \<Rightarrow> 'm"
    and remove :: "'k \<Rightarrow> 'm \<Rightarrow> 'm"
    and len :: "'m \<Rightarrow> nat"
    and wf :: "'m \<Rightarrow> bool"
    and empty :: "'m"
  assumes get_empty: "get empty k = None"
    and len_empty: "len empty = 0"
    and wf_empty: "wf empty"
    and get_insert: "get (insert k v m) k' = (if k' = k then Some v else get m k')"
    and get_remove: "wf m \<Longrightarrow> get (remove k m) k' = (if k' = k then None else get m k')"
    and wf_insert: "wf m \<Longrightarrow> wf (insert k v m)"
    and wf_remove: "wf m \<Longrightarrow> wf (remove k m)"
    and len_insert: "len (insert k v m) = (if get m k = None then Suc (len m) else len m)"
    and len_remove: "wf m \<Longrightarrow> len m = (if get m k = None then len (remove k m) else Suc (len (remove k m)))"
begin

lemma len_insert_fresh: "get m k = None \<Longrightarrow> len (insert k v m) = Suc (len m)"
  by (simp add: len_insert)

lemma len_remove_present: "wf m \<Longrightarrow> get m k = Some v \<Longrightarrow> Suc (len (remove k m)) = len m"
  using len_remove [of m k] by simp

lemma len_remove_absent: "wf m \<Longrightarrow> get m k = None \<Longrightarrow> len (remove k m) = len m"
  using len_remove [of m k] by simp

lemma remove_insert_get: "wf m \<Longrightarrow> get m k = None \<Longrightarrow> get (remove k (insert k v m)) = get m"
  by (auto simp: get_remove get_insert wf_insert fun_eq_iff)

end

locale slot_maps =
  a: finite_map geta inserta removea lena wfa emptya + b: finite_map getb insertb removeb lenb wfb emptyb
  for geta :: "'m \<Rightarrow> 'k \<Rightarrow> 'v option" and inserta removea lena wfa emptya
    and getb :: "'n \<Rightarrow> 'l \<Rightarrow> 'w option" and insertb removeb lenb wfb emptyb
begin

lemma move_slot:
  assumes "wfa m" "geta m k = Some v" "getb n l = None"
  shows "lena (removea k m) + lenb (insertb l w n) = lena m + lenb n"
  using a.len_remove_present [OF assms(1,2)] b.len_insert_fresh [OF assms(3)] by simp

end

section \<open>The implementation\<close>

lemma dm_get_insert [dm_simps]: "dm_get (dm_insert k v m) k' = (if k' = k then Some v else dm_get m k')"
  by (simp add: dm_get_def dm_insert_def update_conv')

lemma dm_get_remove [dm_simps]: "dm_get (dm_remove k m) k' = (if k' = k then None else dm_get m k')"
  by (simp add: dm_get_def dm_remove_def delete_conv')

lemma dm_wf_insert: "dm_wf m \<Longrightarrow> dm_wf (dm_insert k v m)"
  by (simp add: dm_wf_def dm_insert_def distinct_update)

lemma dm_wf_remove: "dm_wf m \<Longrightarrow> dm_wf (dm_remove k m)"
  by (simp add: dm_wf_def dm_remove_def distinct_delete)

lemma dm_len_insert: "dm_len (dm_insert k v m) = (if dm_get m k = None then Suc (dm_len m) else dm_len m)"
  by (induction m) (auto simp: dm_len_def dm_insert_def dm_get_def)

lemma dm_remove_absent: "dm_get m k = None \<Longrightarrow> dm_remove k m = m"
  by (simp add: dm_get_def dm_remove_def map_of_eq_None_iff delete_id)

lemma dm_len_remove:
  "dm_wf m \<Longrightarrow> dm_len m = (if dm_get m k = None then dm_len (dm_remove k m) else Suc (dm_len (dm_remove k m)))"
proof (induction m)
  case Nil
  then show ?case by (simp add: dm_get_def dm_remove_def)
next
  case (Cons p m)
  obtain a b where p: "p = (a, b)" by (cases p)
  show ?case
  proof (cases "a = k")
    case True
    then have "k \<notin> fst ` set m" using Cons.prems p by (auto simp: dm_wf_def)
    then have "AList.delete k m = m" by (rule delete_id)
    with True p show ?thesis by (simp add: dm_get_def dm_remove_def dm_len_def)
  next
    case False
    have "dm_wf m" using Cons.prems p by (simp add: dm_wf_def)
    from Cons.IH [OF this] have ih: "length m = (if map_of m k = None then length (AList.delete k m)
        else Suc (length (AList.delete k m)))"
      by (simp only: dm_get_def dm_remove_def dm_len_def)
    have "map_of ((a, b) # m) k = map_of m k" using False by simp
    with ih False show ?thesis
      unfolding p dm_get_def dm_remove_def dm_len_def by (cases "map_of m k") simp_all
  qed
qed

interpretation dm: finite_map dm_get dm_insert dm_remove dm_len dm_wf dm_empty
proof unfold_locales
  show "dm_get dm_empty k = None" for k by (simp add: dm_get_def dm_empty_def)
  show "dm_len dm_empty = 0" by (simp add: dm_len_def dm_empty_def)
  show "dm_wf dm_empty" by (simp add: dm_wf_def dm_empty_def)
qed (rule dm_get_insert dm_get_remove dm_wf_insert dm_wf_remove dm_len_insert dm_len_remove; assumption?)+

interpretation dmm: slot_maps dm_get dm_insert dm_remove dm_len dm_wf dm_empty
    dm_get dm_insert dm_remove dm_len dm_wf dm_empty
  by unfold_locales

lemma dm_contains_iff [simp]: "dm_contains m k \<longleftrightarrow> dm_get m k \<noteq> None"
  by (simp add: dm_contains_def split: option.splits)

lemma dm_get_empty [simp]: "dm_get dm_empty k = None"
  by (rule dm.get_empty)

lemma dm_keys: "dm_get m k \<noteq> None \<longleftrightarrow> k \<in> fst ` set m"
  unfolding dm_get_def map_of_eq_None_iff by simp

lemma dm_get_in: "dm_wf m \<Longrightarrow> dm_get m k = Some v \<longleftrightarrow> (k, v) \<in> set m"
  by (simp add: dm_wf_def dm_get_def)

lemma dm_wf_empty [simp]: "dm_wf dm_empty"
  by (rule dm.wf_empty)

lemma dm_len_empty [simp]: "dm_len dm_empty = 0"
  by (rule dm.len_empty)

lemmas dm_facts = dm.get_insert dm.get_remove dm.wf_insert dm.wf_remove
  dm.len_insert_fresh dm.len_remove_present dm.len_remove_absent

end
