(* ===== verification/Proto_Messages.thy ===== *)
theory Proto_Messages
  imports Rust_Str
begin

text \<open>
  The protocol vocabulary of \<open>rgrok-proto\<close>: the tunnel errors with their \<open>Display\<close> texts
  (\<open>errors.rs\<close>), the messages of the control channel and the tunnel description they carry
  (\<open>messages.rs\<close>). Ports (\<open>u16\<close>), error codes, sequence numbers and durations are \<open>nat\<close>: the
  code only compares, copies and prints them. A correlation id is a \<open>32 word\<close>, since its
  counter wraps around. The MessagePack codec is a crate and a parameter of the framing.
\<close>

type_synonym port = nat
type_synonym correlation_id = "32 word"

section \<open>Errors\<close>

datatype tunnel_error =
    AuthFailed str
  | SubdomainTaken str
  | NoPortsAvailable port port
  | TcpPortTaken port
  | TcpPortOutOfRange port port port
  | CapacityExceeded nat
  | LocalPortRefused port
  | SessionExpired
  | VersionMismatch str str
  | InvalidSubdomain str
  | TunnelNotFound str
  | StreamTimeout correlation_id
  | ProtocolError str
  | TransportError str

text \<open>\<open>to_string\<close>, from the \<open>#[error(...)]\<close> attributes.\<close>

fun show_tunnel_error :: "tunnel_error \<Rightarrow> str" where
  "show_tunnel_error (AuthFailed reason) = ''authentication failed: '' @ reason"
| "show_tunnel_error (SubdomainTaken sub) = ''subdomain '' @ [CHR 0x27] @ sub @ [CHR 0x27] @ '' is already in use''"
| "show_tunnel_error (NoPortsAvailable s e) =
     ''no TCP ports available in range '' @ show_nat s @ ''-'' @ show_nat e"
| "show_tunnel_error (TcpPortTaken p) = ''TCP port '' @ show_nat p @ '' is already in use''"
| "show_tunnel_error (TcpPortOutOfRange p s e) =
     ''TCP port '' @ show_nat p @ '' is outside configured range '' @ show_nat s @ ''-'' @ show_nat e"
| "show_tunnel_error (CapacityExceeded m) =
     ''tunnel capacity exhausted (maximum '' @ show_nat m @ '')''"
| "show_tunnel_error (LocalPortRefused p) = ''connection to local port '' @ show_nat p @ '' refused''"
| "show_tunnel_error SessionExpired = ''tunnel session expired''"
| "show_tunnel_error (VersionMismatch c s) =
     ''protocol version mismatch: client='' @ c @ '', server='' @ s"
| "show_tunnel_error (InvalidSubdomain reason) = ''invalid subdomain: '' @ reason"
| "show_tunnel_error (TunnelNotFound i) = ''tunnel not found: '' @ i"
| "show_tunnel_error (StreamTimeout c) =
     ''stream timeout: correlation '' @ show_nat (unat c) @ '' not acknowledged within deadline''"
| "show_tunnel_error (ProtocolError m) = ''protocol error: '' @ m"
| "show_tunnel_error (TransportError m) = ''transport error: '' @ m"

section \<open>Messages\<close>

text \<open>\<open>CONTROL_PROTOCOL_VERSION\<close> of \<open>lib.rs\<close> is the version of the package.\<close>

definition CONTROL_PROTOCOL_VERSION :: str where
  "CONTROL_PROTOCOL_VERSION = ''0.1.0''"

datatype tunnel_type = Http | Https | Tcp "port option"

record basic_auth_config =
  username :: str
  password :: str

record tunnel_options =
  host_header :: "str option"
  inspect_on :: bool
  response_header :: "(str \<times> str) list"

definition default_tunnel_options :: tunnel_options where
  "default_tunnel_options = \<lparr>host_header = None, inspect_on = False, response_header = []\<rparr>"

datatype client_msg =
    CAuth str str
  | CTunnelRequest str tunnel_type "str option" "basic_auth_config option" tunnel_options
  | CPing nat
  | CStreamAck correlation_id

datatype server_msg =
    SAuthOk str
  | SAuthErr str
  | STunnelAck str str tunnel_type
  | SStreamOpen correlation_id str
  | SPong nat
  | SError nat str

end
