(* ===== verification/Server_Config.thy ===== *)
theory Server_Config
  imports Proto_Inspect Proto_Messages
begin

text \<open>
  \<open>config.rs\<close> of the server: the sections of the configuration file as records, their default
  values, and \<open>Config::validate\<close>, which \<open>Config::load\<close> runs before the server starts. The file
  system and the TOML parser are parameters of \<open>load\<close>. Ports, sizes and durations are \<open>nat\<close>:
  the code only compares them.
\<close>

record server_config =
  sc_domain :: str
  public_ip :: "str option"
  control_port :: port
  https_port :: port
  http_port :: port
  tcp_port_range :: "port \<times> port"
  max_tunnels :: nat
  tunnel_idle_timeout_secs :: nat
  metrics_port :: port
  max_request_body_bytes :: nat
  max_response_body_bytes :: nat

record auth_config =
  auth_secret :: str
  auth_tokens :: "str list"
  revoked_jtis :: "str list"

record tls_config =
  acme_env :: str
  acme_email :: str
  cert_dir :: str
  cert_file :: "str option"
  key_file :: "str option"

record cloudflare_config =
  cf_api_token :: str
  cf_zone_id :: str
  dns_ttl :: nat
  per_tunnel_dns :: bool

record inspect_config =
  ui_port :: port
  ui_bind :: str
  buffer_size :: nat
  ui_auth_token :: "str option"

record logging_config =
  log_level :: str
  log_format :: str

record config =
  cfg_server :: server_config
  cfg_auth :: auth_config
  cfg_tls :: tls_config
  cfg_cloudflare :: cloudflare_config
  cfg_inspect :: inspect_config
  cfg_logging :: logging_config

section \<open>Defaults\<close>

definition default_control_port :: port where "default_control_port = 7835"
definition default_https_port :: port where "default_https_port = 443"
definition default_http_port :: port where "default_http_port = 80"
definition default_tcp_port_range :: "port \<times> port" where "default_tcp_port_range = (10000, 20000)"
definition default_max_tunnels :: nat where "default_max_tunnels = 100"
definition default_tunnel_idle_timeout :: nat where "default_tunnel_idle_timeout = 300"
definition default_metrics_port :: port where "default_metrics_port = 9090"
definition default_max_request_body_bytes :: nat where
  "default_max_request_body_bytes = 16 * 1024 * 1024"
definition default_max_response_body_bytes :: nat where
  "default_max_response_body_bytes = 16 * 1024 * 1024"
definition default_acme_env :: str where "default_acme_env = ''production''"
definition default_cert_dir :: str where "default_cert_dir = ''/var/lib/rgrok/certs''"
definition default_dns_ttl :: nat where "default_dns_ttl = 1"
definition default_ui_bind :: str where "default_ui_bind = ''127.0.0.1''"
definition default_buffer_size :: nat where "default_buffer_size = 100"
definition default_log_level :: str where "default_log_level = ''info''"
definition default_log_format :: str where "default_log_format = ''json''"

lemmas default_values = default_control_port_def default_https_port_def default_http_port_def
  default_tcp_port_range_def default_max_tunnels_def default_tunnel_idle_timeout_def
  default_metrics_port_def default_max_request_body_bytes_def default_max_response_body_bytes_def
  default_acme_env_def default_cert_dir_def default_dns_ttl_def default_ui_bind_def
  default_buffer_size_def default_log_level_def default_log_format_def

definition default_config :: config where
  "default_config =
     \<lparr>cfg_server = \<lparr>
        sc_domain = ''tunnel.example.com'',
        public_ip = None,
        control_port = default_control_port,
        https_port = default_https_port,
        http_port = default_http_port,
        tcp_port_range = default_tcp_port_range,
        max_tunnels = default_max_tunnels,
        tunnel_idle_timeout_secs = default_tunnel_idle_timeout,
        metrics_port = default_metrics_port,
        max_request_body_bytes = default_max_request_body_bytes,
        max_response_body_bytes = default_max_response_body_bytes\<rparr>,
      cfg_auth = \<lparr>auth_secret = replicate 32 (CHR ''a''), auth_tokens = [], revoked_jtis = []\<rparr>,
      cfg_tls = \<lparr>acme_env = default_acme_env, acme_email = [], cert_dir = default_cert_dir,
        cert_file = None, key_file = None\<rparr>,
      cfg_cloudflare = \<lparr>cf_api_token = [], cf_zone_id = [], dns_ttl = default_dns_ttl,
        per_tunnel_dns = False\<rparr>,
      cfg_inspect = \<lparr>ui_port = 0, ui_bind = default_ui_bind, buffer_size = default_buffer_size,
        ui_auth_token = None\<rparr>,
      cfg_logging = \<lparr>log_level = default_log_level, log_format = default_log_format\<rparr>\<rparr>"

section \<open>Validation\<close>

definition is_loopback_bind :: "str \<Rightarrow> bool" where
  "is_loopback_bind bind =
     (let bind = trim bind in
       (case parse_ip bind of Some address \<Rightarrow> ip_is_loopback address | None \<Rightarrow> False)
       \<or> is_loopback_authority bind)"

definition placeholder_markers :: "str list" where
  "placeholder_markers =
     [''changeme'', ''change_me'', ''change-me'', ''change-this-to'', ''generate_with'',
      ''replace_with'', ''your-secret'', ''your_secret'', ''<your'', ''placeholder'', ''example.com'']"

definition is_placeholder_secret :: "str \<Rightarrow> bool" where
  "is_placeholder_secret secret =
     (let normalized = to_ascii_lowercase (trim secret) in
       list_ex (\<lambda>marker. contains marker normalized) placeholder_markers)"

text \<open>The token of the inspection UI that counts: trimmed and not empty.\<close>

definition effective_ui_token :: "str option \<Rightarrow> str option" where
  "effective_ui_token t = (case t of
     None \<Rightarrow> None
   | Some token \<Rightarrow> (if trim token = [] then None else Some (trim token)))"

definition validate_config :: "config \<Rightarrow> (str, unit) result" where
  "validate_config c =
     (let srv = cfg_server c; cf = cfg_cloudflare c; ins = cfg_inspect c in
      if length (auth_secret (cfg_auth c)) < 32 then
        Err ''auth.secret must be at least 32 characters''
      else if is_placeholder_secret (auth_secret (cfg_auth c)) then
        Err ''auth.secret must not be a placeholder; replace it with a randomly generated secret (for example, `openssl rand -hex 32`)''
      else if sc_domain srv = [] then Err ''server.domain must be set''
      else if fst (tcp_port_range srv) \<ge> snd (tcp_port_range srv) then
        Err ''server.tcp_port_range start must be less than end''
      else if tunnel_idle_timeout_secs srv = 0 then
        Err ''server.tunnel_idle_timeout_secs must be greater than zero''
      else and_then
        (if per_tunnel_dns cf then
          (if cf_api_token cf = [] \<or> cf_zone_id cf = [] then
             Err ''cloudflare.api_token and cloudflare.zone_id are required when per_tunnel_dns is enabled''
           else (case public_ip srv of
               None \<Rightarrow> Err ''server.public_ip is required when cloudflare.per_tunnel_dns is enabled''
             | Some ip \<Rightarrow>
                 (if parse_ipv4 ip = None then Err ''server.public_ip must be a valid IPv4 address''
                  else Ok ())))
         else Ok ())
        (\<lambda>_.
          if max_request_body_bytes srv = 0 then
            Err ''server.max_request_body_bytes must be greater than zero''
          else if max_response_body_bytes srv = 0 then
            Err ''server.max_response_body_bytes must be greater than zero''
          else if ui_port ins \<noteq> 0 \<and> \<not> is_loopback_bind (ui_bind ins) then
            (case effective_ui_token (ui_auth_token ins) of
               None \<Rightarrow> Err ''inspect.ui_auth_token must be configured when inspect.ui_bind is non-loopback''
             | Some token \<Rightarrow>
                 (if is_placeholder_secret token then
                    Err ''inspect.ui_auth_token must not be a placeholder when inspect.ui_bind is non-loopback''
                  else Ok ()))
          else Ok ()))"

text \<open>\<open>Config::load\<close>, with the file system and the TOML parser as parameters.\<close>

definition load_config ::
  "(str \<Rightarrow> (str, str) result) \<Rightarrow> (str \<Rightarrow> (str, config) result) \<Rightarrow> str \<Rightarrow> (str, config) result" where
  "load_config read_to_string from_toml path =
     and_then (read_to_string path) (\<lambda>content.
       and_then (from_toml content) (\<lambda>c.
         and_then (validate_config c) (\<lambda>_. Ok c)))"

section \<open>What a loaded configuration guarantees\<close>

lemma effective_ui_token_Some:
  "effective_ui_token t = Some k \<longleftrightarrow> (\<exists>raw. t = Some raw \<and> k = trim raw \<and> k \<noteq> [])"
  by (auto simp: effective_ui_token_def split: option.splits)

text \<open>The requirements of the server, as the operator reads them.\<close>

definition config_ok :: "config \<Rightarrow> bool" where
  "config_ok c \<longleftrightarrow>
     32 \<le> length (auth_secret (cfg_auth c)) \<and> \<not> is_placeholder_secret (auth_secret (cfg_auth c)) \<and>
     sc_domain (cfg_server c) \<noteq> [] \<and>
     fst (tcp_port_range (cfg_server c)) < snd (tcp_port_range (cfg_server c)) \<and>
     0 < tunnel_idle_timeout_secs (cfg_server c) \<and>
     0 < max_request_body_bytes (cfg_server c) \<and> 0 < max_response_body_bytes (cfg_server c) \<and>
     (per_tunnel_dns (cfg_cloudflare c) \<longrightarrow>
        cf_api_token (cfg_cloudflare c) \<noteq> [] \<and> cf_zone_id (cfg_cloudflare c) \<noteq> [] \<and>
        (\<exists>ip q. public_ip (cfg_server c) = Some ip \<and> parse_ipv4 ip = Some q)) \<and>
     (ui_port (cfg_inspect c) \<noteq> 0 \<and> \<not> is_loopback_bind (ui_bind (cfg_inspect c)) \<longrightarrow>
        (\<exists>k. effective_ui_token (ui_auth_token (cfg_inspect c)) = Some k \<and> \<not> is_placeholder_secret k))"

lemma validate_config_ok: "validate_config c = Ok () \<longleftrightarrow> config_ok c"
  by (auto simp: validate_config_def config_ok_def Let_def and_then_Ok_iff not_less not_le
      split: if_splits option.splits)

text \<open>
  The server never runs with a configuration that fails a check. Whatever the file system
  and the TOML parser return, a configuration that \<open>load\<close> hands out is the parsed file,
  meets every requirement, and so has a secret of 32 bytes or more with no placeholder
  marker in it, a non-empty TCP port range and positive limits; and every file that meets the
  requirements is loaded.
\<close>

theorem load_config_validated:
  "load_config read_to_string from_toml path = Ok c \<longleftrightarrow>
     (\<exists>content. read_to_string path = Ok content \<and> from_toml content = Ok c \<and> config_ok c)"
  by (auto simp: load_config_def and_then_Ok_iff validate_config_ok)

lemma load_config_ok: "load_config read_to_string from_toml path = Ok c \<Longrightarrow> config_ok c"
  by (auto simp: load_config_def and_then_Ok_iff validate_config_ok)

text \<open>The built-in defaults pass their own validation.\<close>

lemma default_config_ok: "config_ok default_config"
proof -
  have g: "list_all graphic (replicate 32 (CHR ''a''))" by (simp add: list_all_iff graphic_def byte_val_def)
  have l: "to_ascii_lowercase (replicate 32 (CHR ''a'')) = replicate 32 (CHR ''a'')"
    by (simp add: to_ascii_lowercase_def lower_char_def byte_val_def)
  have "\<not> contains m (replicate 32 (CHR ''a''))" if "m \<in> set placeholder_markers" for m
  proof
    assume "contains m (replicate 32 (CHR ''a''))"
    then obtain u v where r: "replicate 32 (CHR ''a'') = u @ m @ v" by (auto simp: contains_iff)
    have "set m \<subseteq> set (replicate 32 (CHR ''a''))" by (simp only: r) auto
    then have "set m \<subseteq> {CHR ''a''}" by simp
    with that show False by (auto simp: placeholder_markers_def)
  qed
  then have "\<not> is_placeholder_secret (replicate 32 (CHR ''a''))"
    by (simp add: is_placeholder_secret_def Let_def trim_all_graphic [OF g] l list_ex_iff)
  then show ?thesis by (simp add: config_ok_def default_config_def default_values)
qed

lemma config_ok_secret: "config_ok c \<Longrightarrow> 32 \<le> length (auth_secret (cfg_auth c))"
  by (simp add: config_ok_def)

lemma config_ok_ports: "config_ok c \<Longrightarrow> fst (tcp_port_range (cfg_server c)) < snd (tcp_port_range (cfg_server c))"
  by (simp add: config_ok_def)

lemma config_ok_ui:
  "config_ok c \<Longrightarrow> ui_port (cfg_inspect c) \<noteq> 0 \<Longrightarrow> \<not> is_loopback_bind (ui_bind (cfg_inspect c)) \<Longrightarrow>
   \<exists>k. effective_ui_token (ui_auth_token (cfg_inspect c)) = Some k \<and> \<not> is_placeholder_secret k"
  by (simp add: config_ok_def)

end
