(* ===== verification/Server_Auth.thy ===== *)
theory Server_Auth
  imports Rust_Str
begin

text \<open>
  \<open>auth.rs\<close>: signed tokens, the \<open>Basic\<close> header and the verifier that bounds how many bcrypt
  checks run at once. The JWT, bcrypt, SHA-256, base64 and UUID crates, the clock and the
  number of processors are parameters. Times are \<open>u64\<close>, as in the code: adding the lifetime of
  a token wraps around in a release build.
\<close>

section \<open>Tokens\<close>

record token_claims =
  tk_sub :: str
  tk_iat :: "64 word"
  tk_exp :: "64 word option"
  tk_jti :: str
  tk_ver :: nat

definition TOKEN_PREFIX :: str where
  "TOKEN_PREFIX = ''rgrok_tok_''"

definition generate_token ::
  "(token_claims \<Rightarrow> str \<Rightarrow> (str, str) result) \<Rightarrow> (str, 64 word) result \<Rightarrow> str \<Rightarrow>
   str \<Rightarrow> str \<Rightarrow> 64 word option \<Rightarrow> (str, str) result" where
  "generate_token encode clock uuid secret lbl expires_in =
     and_then clock (\<lambda>now.
       (let claims = \<lparr>tk_sub = lbl, tk_iat = now,
            tk_exp = (case expires_in of Some d \<Rightarrow> Some (now + d) | None \<Rightarrow> None),
            tk_jti = uuid, tk_ver = 1\<rparr>
        in and_then (encode claims secret) (\<lambda>token. Ok (TOKEN_PREFIX @ token))))"

definition validate_token ::
  "(str \<Rightarrow> str \<Rightarrow> (str, token_claims) result) \<Rightarrow> (str, 64 word) result \<Rightarrow> str \<Rightarrow> str \<Rightarrow>
   (str, token_claims) result" where
  "validate_token decode clock token secret =
     (let raw_token = (case strip_prefix TOKEN_PREFIX token of Some t \<Rightarrow> t | None \<Rightarrow> token) in
      and_then (decode raw_token secret) (\<lambda>claims.
        (case tk_exp claims of
           None \<Rightarrow> Ok claims
         | Some ex \<Rightarrow> and_then clock (\<lambda>now.
             (if now > ex then Err ''token has expired'' else Ok claims)))))"

text \<open>
  C30: a token the server issues is accepted under the same secret exactly until it expires. With
  a JWT codec that decodes what it signs, a token generated at \<open>t0\<close> with lifetime \<open>d\<close> (no
  overflow) validates at \<open>t1\<close> if and only if \<open>t1\<close> is not past \<open>t0 + d\<close>, it then gives back the
  claims it was issued with, and a token with no lifetime never expires.
\<close>

theorem token_lifetime:
  assumes codec: "\<And>c t. encode c secret = Ok t \<Longrightarrow> decode t secret = Ok c"
    and gen: "generate_token encode (Ok t0) uuid secret lbl life = Ok token"
    and no_wrap: "\<And>d. life = Some d \<Longrightarrow> unat t0 + unat d < 2 ^ 64"
  shows "validate_token decode (Ok t1) token secret =
    (case life of
       Some d \<Rightarrow> (if unat t0 + unat d < unat t1 then Err ''token has expired''
         else Ok \<lparr>tk_sub = lbl, tk_iat = t0, tk_exp = Some (t0 + d), tk_jti = uuid, tk_ver = 1\<rparr>)
     | None \<Rightarrow> Ok \<lparr>tk_sub = lbl, tk_iat = t0, tk_exp = None, tk_jti = uuid, tk_ver = 1\<rparr>)"
proof -
  define c where "c = \<lparr>tk_sub = lbl, tk_iat = t0,
    tk_exp = (case life of Some d \<Rightarrow> Some (t0 + d) | None \<Rightarrow> None), tk_jti = uuid, tk_ver = (1::nat)\<rparr>"
  have "and_then (encode c secret) (\<lambda>token. Ok (TOKEN_PREFIX @ token)) = Ok token"
    using gen by (simp add: generate_token_def c_def Let_def)
  then obtain t where t: "encode c secret = Ok t" and token: "token = TOKEN_PREFIX @ t"
    by (auto simp: and_then_Ok_iff)
  have t2: "decode t secret = Ok c" by (rule codec) (rule t)
  then have v: "validate_token decode (Ok t1) token secret =
      (case tk_exp c of None \<Rightarrow> Ok c | Some ex \<Rightarrow> (if t1 > ex then Err ''token has expired'' else Ok c))"
    using t2 token by (simp add: validate_token_def split: option.splits)
  show ?thesis
  proof (cases life)
    case None
    with v show ?thesis by (simp add: c_def)
  next
    case (Some d)
    then have "unat (t0 + d) = unat t0 + unat d"
      using no_wrap [OF Some] by (simp add: unat_word_ariths)
    with v Some show ?thesis by (simp add: c_def word_less_nat_alt)
  qed
qed

text \<open>A codec for the witness: it signs one claim set and refuses every other.\<close>

theorem token_lifetime_witness:
  "\<exists>encode decode. generate_token encode (Ok 100) ''id'' ''secret'' ''ci'' (Some 60) = Ok ''rgrok_tok_jwt'' \<and>
     validate_token decode (Ok 161) ''rgrok_tok_jwt'' ''secret'' = Err ''token has expired''"
proof -
  define k where "k = \<lparr>tk_sub = ''ci'', tk_iat = 100, tk_exp = Some 160, tk_jti = ''id'', tk_ver = 1\<rparr>"
  define encode where "encode = (\<lambda>c (s::str). if c = k then Ok ''jwt'' else Err ''refused'' :: (str, str) result)"
  define decode where "decode = (\<lambda>t (s::str). if t = ''jwt'' then Ok k else Err ''bad'' :: (str, token_claims) result)"
  have codec: "encode c ''secret'' = Ok t \<Longrightarrow> decode t ''secret'' = Ok c" for c t
    by (auto simp: encode_def decode_def split: if_splits)
  have gen: "generate_token encode (Ok 100) ''id'' ''secret'' ''ci'' (Some 60) = Ok ''rgrok_tok_jwt''"
    by (simp add: generate_token_def encode_def k_def TOKEN_PREFIX_def)
  have "validate_token decode (Ok 161) ''rgrok_tok_jwt'' ''secret'' = Err ''token has expired''"
    using token_lifetime [where encode = encode and decode = decode and secret = "''secret''" and ?t1.0 = 161,
      OF codec gen] by simp
  with gen show ?thesis by blast
qed

section \<open>The Basic header\<close>

definition hash_basic_auth_password ::
  "(str \<Rightarrow> nat \<Rightarrow> (str, str) result) \<Rightarrow> str \<Rightarrow> (str, str) result" where
  "hash_basic_auth_password bcrypt_hash password = and_then (bcrypt_hash password 10) Ok"

definition verify_basic_auth_password ::
  "(str \<Rightarrow> str \<Rightarrow> (str, bool) result) \<Rightarrow> str \<Rightarrow> str \<Rightarrow> bool" where
  "verify_basic_auth_password bcrypt_verify password hash =
     (case bcrypt_verify password hash of Inr b \<Rightarrow> b | Inl _ \<Rightarrow> False)"

definition auth_header_fingerprint :: "(bytes \<Rightarrow> 'd) \<Rightarrow> str \<Rightarrow> 'd" where
  "auth_header_fingerprint sha256 header_value = sha256 header_value"

definition parse_basic_auth_header ::
  "(str \<Rightarrow> bytes option) \<Rightarrow> str \<Rightarrow> (str \<times> str) option" where
  "parse_basic_auth_header b64_decode header_value =
     (case strip_prefix ''Basic '' header_value of
        None \<Rightarrow> None
      | Some encoded \<Rightarrow> (case b64_decode encoded of
          None \<Rightarrow> None
        | Some decoded \<Rightarrow> (if utf8_valid decoded then split_once '':'' decoded else None)))"

text \<open>What the blocking task of the verifier computes.\<close>

definition check_header ::
  "(str \<Rightarrow> bytes option) \<Rightarrow> (str \<Rightarrow> str \<Rightarrow> (str, bool) result) \<Rightarrow> str \<Rightarrow> str \<Rightarrow> str \<Rightarrow> bool" where
  "check_header b64_decode bcrypt_verify header_value expected_username hash =
     (case parse_basic_auth_header b64_decode header_value of
        None \<Rightarrow> False
      | Some (user, pass) \<Rightarrow>
          user = expected_username \<and> verify_basic_auth_password bcrypt_verify pass hash)"

text \<open>
  The header a browser sends for a user name without a colon is parsed back to exactly that
  user name and password, and passes the check if and only if the user name is the tunnel's
  and bcrypt accepts the password; any character may occur in the password, a colon included.
\<close>

theorem basic_header_roundtrip:
  assumes b64: "b64_decode enc = Some (user @ '':'' @ pass)"
    and utf8: "utf8_valid (user @ '':'' @ pass)"
    and user: "CHR '':'' \<notin> set user"
  shows "parse_basic_auth_header b64_decode (''Basic '' @ enc) = Some (user, pass) \<and>
    (check_header b64_decode bcrypt_verify (''Basic '' @ enc) expected hash \<longleftrightarrow>
      user = expected \<and> bcrypt_verify pass hash = Ok True)"
proof -
  have "split_once '':'' (user @ '':'' @ pass) = Some (user, pass)"
    using split_once_char [OF user] by simp
  then have p: "parse_basic_auth_header b64_decode (''Basic '' @ enc) = Some (user, pass)"
    unfolding parse_basic_auth_header_def strip_prefix_append using b64 utf8 by simp
  show ?thesis
    unfolding check_header_def p by (auto simp: verify_basic_auth_password_def split: sum.splits)
qed

theorem basic_header_roundtrip_witness:
  "parse_basic_auth_header (\<lambda>e. if e = ''dTpwOnE='' then Some ''u:p:q'' else None) (''Basic '' @ ''dTpwOnE='')
     = Some (''u'', ''p:q'')"
proof -
  have "utf8_valid (''u'' @ '':'' @ ''p:q'')"
    by (rule utf8_valid_ascii) (simp add: ascii_def byte_val_def)
  then show ?thesis
    using basic_header_roundtrip [of "\<lambda>e. if e = ''dTpwOnE='' then Some ''u:p:q'' else None" "''dTpwOnE=''" "''u''" "''p:q''"]
    by simp
qed

section \<open>The verifier\<close>

text \<open>
  \<open>BasicAuthVerifier\<close>: a semaphore of \<open>max_concurrent.max(1)\<close> permits, FIFO waiters, one permit
  per blocking task. A check waits at most \<open>BASIC_AUTH_PERMIT_TIMEOUT\<close> for its permit. The jobs
  in progress and the verdicts returned are part of the state.
\<close>

record auth_job =
  job_header :: str
  job_username :: str
  job_hash :: str

record verifier =
  permits :: nat
  waiters :: "auth_job list"
  blocking :: "auth_job list"
  verdicts :: "(auth_job \<times> bool) list"

text \<open>The processors the system reports, if it does.\<close>

definition default_basic_auth_concurrency :: "nat option \<Rightarrow> nat" where
  "default_basic_auth_concurrency available_parallelism =
     max (case available_parallelism of Some n \<Rightarrow> n | None \<Rightarrow> 1) 1"

definition verifier_new :: "nat \<Rightarrow> verifier" where
  "verifier_new max_concurrent =
     \<lparr>permits = max max_concurrent 1, waiters = [], blocking = [], verdicts = []\<rparr>"

text \<open>\<open>verify_header\<close> asks for a permit and, once it has one, spawns the blocking task.\<close>

definition acquire_permit :: "auth_job \<Rightarrow> verifier \<Rightarrow> verifier" where
  "acquire_permit j v =
     (if permits v = 0 then v\<lparr>waiters := waiters v @ [j]\<rparr>
      else v\<lparr>permits := permits v - 1, blocking := blocking v @ [j]\<rparr>)"

text \<open>The deadline passes for the \<open>i\<close>-th waiter: no permit, so the answer is no.\<close>

definition permit_timeout :: "nat \<Rightarrow> verifier \<Rightarrow> verifier" where
  "permit_timeout i v =
     v\<lparr>waiters := take i (waiters v) @ drop (Suc i) (waiters v),
       verdicts := verdicts v @ [(waiters v ! i, False)]\<rparr>"

text \<open>
  The \<open>i\<close>-th blocking task ends, with its value or by a panic (\<open>unwrap_or(false)\<close>); dropping
  its permit wakes the first waiter.
\<close>

definition verify_done ::
  "(str \<Rightarrow> bytes option) \<Rightarrow> (str \<Rightarrow> str \<Rightarrow> (str, bool) result) \<Rightarrow> nat \<Rightarrow> bool \<Rightarrow> verifier \<Rightarrow> verifier" where
  "verify_done b64_decode bcrypt_verify i panicked v =
     (let j = blocking v ! i;
          b = (\<not> panicked \<and> check_header b64_decode bcrypt_verify (job_header j) (job_username j) (job_hash j));
          v1 = v\<lparr>blocking := take i (blocking v) @ drop (Suc i) (blocking v),
                verdicts := verdicts v @ [(j, b)]\<rparr>
      in (case waiters v1 of
            [] \<Rightarrow> v1\<lparr>permits := Suc (permits v1)\<rparr>
          | w # ws \<Rightarrow> v1\<lparr>waiters := ws, blocking := blocking v1 @ [w]\<rparr>))"

inductive verifier_reach ::
  "(str \<Rightarrow> bytes option) \<Rightarrow> (str \<Rightarrow> str \<Rightarrow> (str, bool) result) \<Rightarrow> nat \<Rightarrow> verifier \<Rightarrow> bool"
  for b64_decode and bcrypt_verify and n where
  VStart: "verifier_reach b64_decode bcrypt_verify n (verifier_new n)"
| VAsk: "verifier_reach b64_decode bcrypt_verify n v \<Longrightarrow>
    verifier_reach b64_decode bcrypt_verify n (acquire_permit j v)"
| VTimeout: "verifier_reach b64_decode bcrypt_verify n v \<Longrightarrow> i < length (waiters v) \<Longrightarrow>
    verifier_reach b64_decode bcrypt_verify n (permit_timeout i v)"
| VDone: "verifier_reach b64_decode bcrypt_verify n v \<Longrightarrow> i < length (blocking v) \<Longrightarrow>
    verifier_reach b64_decode bcrypt_verify n (verify_done b64_decode bcrypt_verify i panicked v)"

text \<open>
  C31: however requests, deadlines, panics and completions interleave, the permits and the bcrypt
  checks in progress are together always \<open>max n 1\<close>: no permit is lost or invented and never
  more than that many checks run; a request waits only while no permit is free; and a positive
  verdict is only ever given for credentials the check accepts.
\<close>

theorem verifier_bounded_and_sound:
  assumes "verifier_reach b64_decode bcrypt_verify n v"
  shows "length (blocking v) + permits v = max n 1 \<and>
    (waiters v \<noteq> [] \<longrightarrow> permits v = 0) \<and>
    (\<forall>j. (j, True) \<in> set (verdicts v) \<longrightarrow>
      check_header b64_decode bcrypt_verify (job_header j) (job_username j) (job_hash j))"
  using assms
proof (induction rule: verifier_reach.induct)
  case VStart
  then show ?case by (simp add: verifier_new_def)
next
  case (VAsk v j)
  then show ?case by (auto simp: acquire_permit_def)
next
  case (VTimeout v i)
  then show ?case by (auto simp: permit_timeout_def)
next
  case (VDone v i panicked)
  then show ?case by (auto simp: verify_done_def Let_def split: list.splits)
qed

theorem verifier_bounded_and_sound_witness:
  "verifier_reach (\<lambda>e. Some ''u:p'') (\<lambda>p h. Ok (p = h)) 0
     (verify_done (\<lambda>e. Some ''u:p'') (\<lambda>p h. Ok (p = h)) 0 False
       (acquire_permit \<lparr>job_header = ''Basic x'', job_username = ''u'', job_hash = ''p''\<rparr> (verifier_new 0)))
   \<and> permits (verify_done (\<lambda>e. Some ''u:p'') (\<lambda>p h. Ok (p = h)) 0 False
       (acquire_permit \<lparr>job_header = ''Basic x'', job_username = ''u'', job_hash = ''p''\<rparr> (verifier_new 0))) = 1"
proof -
  let ?j = "\<lparr>job_header = ''Basic x'', job_username = ''u'', job_hash = ''p''\<rparr> :: auth_job"
  let ?d = "\<lambda>e :: str. Some ''u:p''" and ?b = "\<lambda>p h :: str. Ok (p = h) :: (str, bool) result"
  let ?v = "verify_done ?d ?b 0 False (acquire_permit ?j (verifier_new 0))"
  have r: "verifier_reach ?d ?b 0 ?v"
    by (intro VDone VAsk VStart) (simp add: acquire_permit_def verifier_new_def)
  have "blocking ?v = []" by (simp add: verify_done_def acquire_permit_def verifier_new_def)
  with verifier_bounded_and_sound [OF r] r show ?thesis by simp
qed

end
