(* ===== verification/Tunnel_Manager.thy ===== *)
theory Tunnel_Manager
  imports Dash_Map Server_Config Server_Auth Dns
begin

text \<open>
  \<open>tunnel_manager.rs\<close>: the state every handler of the server shares, and each of its operations.
  An \<open>Arc<TunnelSession>\<close> is a reference into a heap of sessions, so \<open>Arc::ptr_eq\<close> is equality of
  references and a change through one clone is seen through all. An operation that holds the
  reservation mutex for its whole body is one step. Instants are milliseconds. A \<open>broadcast\<close>
  channel and the gauges are logs and counters; the Cloudflare API is a parameter, its state the
  log of the requests made.
\<close>

section \<open>State\<close>

datatype reservation_key = RHttp str | RTcp port

type_synonym session_ref = nat
type_synonym conn_ref = nat
type_synonym oneshot_id = nat

definition max_tunnels_error :: "nat \<Rightarrow> tunnel_error" where
  "max_tunnels_error m = CapacityExceeded m"

record tunnel_session =
  ts_id :: str
  ts_tunnel_type :: tunnel_type
  ts_subdomain :: str
  basic_auth_username :: "str option"
  basic_auth_hash :: "str option"
  ts_options :: tunnel_options
  created_at :: nat
  last_activity :: nat
  active_streams :: "64 word"
  dns_record_id :: "str option"
  idle_cancel :: bool
  control_tx :: conn_ref
  stream_state :: conn_ref
  ts_cancel :: bool
  listener_stopped :: "oneshot_id option"
  cached_auth_fingerprint :: "bytes option"

text \<open>The bounded queue of control messages of one connection, and whether its receiver lives.\<close>

record control_channel =
  chan_queue :: "server_msg list"
  chan_alive :: bool

definition CONTROL_CAPACITY :: nat where
  "CONTROL_CAPACITY = 64"

record server_state =
  ss_config :: config
  tunnels :: "(str, session_ref) dmap"
  tcp_tunnels :: "(port, session_ref) dmap"
  reservations :: "(reservation_key, str) dmap"
  captures :: "(str, captured_request list) dmap"
  inspect_tx :: "inspect_event list"
  ss_cancelled :: bool
  ss_revoked_jtis :: "str list"
  revocation_epoch :: nat
  active_tunnels :: int
  tcp_reservations_retained :: int
  cleanup_notify :: nat
  dns_client :: "cloudflare_client option"
  ss_heap :: "session_ref \<Rightarrow> tunnel_session"
  ss_next :: session_ref
  ss_chan :: "conn_ref \<Rightarrow> control_channel"
  ss_fired :: "oneshot_id list"
  ss_dns_log :: "dns_request list"

type_synonym dns_api = "dns_request list http_api"

definition no_session :: tunnel_session where
  "no_session = \<lparr>ts_id = [], ts_tunnel_type = Http, ts_subdomain = [], basic_auth_username = None,
     basic_auth_hash = None, ts_options = default_tunnel_options, created_at = 0, last_activity = 0,
     active_streams = 0, dns_record_id = None, idle_cancel = False, control_tx = 0, stream_state = 0,
     ts_cancel = False, listener_stopped = None, cached_auth_fingerprint = None\<rparr>"

text \<open>\<open>ServerState::new\<close>.\<close>

definition new_server_state :: "config \<Rightarrow> server_state" where
  "new_server_state c =
     \<lparr>ss_config = c,
      tunnels = dm_empty,
      tcp_tunnels = dm_empty,
      reservations = dm_empty,
      captures = dm_empty,
      inspect_tx = [],
      ss_cancelled = False,
      ss_revoked_jtis = revoked_jtis (cfg_auth c),
      revocation_epoch = 0,
      active_tunnels = 0,
      tcp_reservations_retained = 0,
      cleanup_notify = 0,
      dns_client = (if per_tunnel_dns (cfg_cloudflare c)
        then Some (cloudflare_new (cf_api_token (cfg_cloudflare c)) (cf_zone_id (cfg_cloudflare c)))
        else None),
      ss_heap = (\<lambda>_. no_session),
      ss_next = 0,
      ss_chan = (\<lambda>_. \<lparr>chan_queue = [], chan_alive = False\<rparr>),
      ss_fired = [],
      ss_dns_log = []\<rparr>"

text \<open>\<open>Arc::new(TunnelSession { .. })\<close>.\<close>

definition new_session :: "tunnel_session \<Rightarrow> server_state \<Rightarrow> session_ref \<times> server_state" where
  "new_session t s = (ss_next s, s\<lparr>ss_heap := (ss_heap s)(ss_next s := t), ss_next := Suc (ss_next s)\<rparr>)"

text \<open>A change of a session through any of its references.\<close>

definition modify_session ::
  "session_ref \<Rightarrow> (tunnel_session \<Rightarrow> tunnel_session) \<Rightarrow> server_state \<Rightarrow> server_state" where
  "modify_session r f s = s\<lparr>ss_heap := (ss_heap s)(r := f (ss_heap s r))\<rparr>"

text \<open>\<open>mpsc::Sender::try_send\<close>: nothing happens when the queue is full or the receiver is gone.\<close>

definition try_send :: "conn_ref \<Rightarrow> server_msg \<Rightarrow> server_state \<Rightarrow> server_state" where
  "try_send c m s =
     (if chan_alive (ss_chan s c) \<and> length (chan_queue (ss_chan s c)) < CONTROL_CAPACITY
      then s\<lparr>ss_chan := (ss_chan s)(c := (ss_chan s c)\<lparr>chan_queue := chan_queue (ss_chan s c) @ [m]\<rparr>)\<rparr>
      else s)"

section \<open>Operations\<close>

definition is_jti_revoked :: "str \<Rightarrow> server_state \<Rightarrow> bool" where
  "is_jti_revoked jti s = (jti \<in> set (ss_revoked_jtis s))"

definition reload_revoked_jtis :: "str list \<Rightarrow> server_state \<Rightarrow> server_state" where
  "reload_revoked_jtis jtis s =
     s\<lparr>ss_revoked_jtis := jtis, revocation_epoch := Suc (revocation_epoch s)\<rparr>"

definition slots_used :: "server_state \<Rightarrow> nat" where
  "slots_used s = dm_len (tunnels s) + dm_len (tcp_tunnels s) + dm_len (reservations s)"

definition max_slots :: "server_state \<Rightarrow> nat" where
  "max_slots s = max_tunnels (cfg_server (ss_config s))"

definition at_capacity :: "server_state \<Rightarrow> bool" where
  "at_capacity s = (slots_used s \<ge> max_slots s)"

definition owns_reservation :: "reservation_key \<Rightarrow> str \<Rightarrow> server_state \<Rightarrow> bool" where
  "owns_reservation k owner s = (case dm_get (reservations s) k of Some x \<Rightarrow> x = owner | None \<Rightarrow> False)"

definition register_tunnel :: "session_ref \<Rightarrow> server_state \<Rightarrow> (tunnel_error, unit) result \<times> server_state" where
  "register_tunnel r s =
     (let subdomain = ts_subdomain (ss_heap s r); key = RHttp subdomain;
          owns = owns_reservation key (ts_id (ss_heap s r)) s
      in if dm_contains (reservations s) key \<and> \<not> owns then (Err (SubdomainTaken subdomain), s)
         else if dm_contains (tunnels s) subdomain then (Err (SubdomainTaken subdomain), s)
         else if \<not> owns \<and> at_capacity s then (Err (max_tunnels_error (max_slots s)), s)
         else (Ok (), s\<lparr>tunnels := dm_insert subdomain r (tunnels s),
                reservations := (if owns then dm_remove key (reservations s) else reservations s),
                active_tunnels := active_tunnels s + 1,
                captures := dm_insert subdomain [] (captures s)\<rparr>))"

definition reserve_http_tunnel ::
  "str \<Rightarrow> str \<Rightarrow> server_state \<Rightarrow> (tunnel_error, unit) result \<times> server_state" where
  "reserve_http_tunnel subdomain owner s =
     (if dm_contains (tunnels s) subdomain \<or> dm_contains (reservations s) (RHttp subdomain)
      then (Err (SubdomainTaken subdomain), s)
      else if at_capacity s then (Err (max_tunnels_error (max_slots s)), s)
      else (Ok (), s\<lparr>reservations := dm_insert (RHttp subdomain) owner (reservations s)\<rparr>))"

definition release_reservation :: "reservation_key \<Rightarrow> str \<Rightarrow> server_state \<Rightarrow> server_state" where
  "release_reservation key owner s =
     (if owns_reservation key owner s then s\<lparr>reservations := dm_remove key (reservations s)\<rparr> else s)"

definition release_http_tunnel :: "str \<Rightarrow> str \<Rightarrow> server_state \<Rightarrow> server_state" where
  "release_http_tunnel subdomain owner s = release_reservation (RHttp subdomain) owner s"

definition remove_tunnel_if_owner ::
  "str \<Rightarrow> session_ref option \<Rightarrow> server_state \<Rightarrow> session_ref option \<times> server_state" where
  "remove_tunnel_if_owner subdomain owner s =
     (case dm_get (tunnels s) subdomain of
        None \<Rightarrow> (None, s)
      | Some current \<Rightarrow>
          (if (case owner of None \<Rightarrow> True | Some x \<Rightarrow> current = x) then
             (Some current,
              (modify_session current (\<lambda>t. t\<lparr>idle_cancel := True\<rparr>) s)
                \<lparr>tunnels := dm_remove subdomain (tunnels s),
                 captures := dm_remove subdomain (captures s),
                 active_tunnels := active_tunnels s - 1,
                 cleanup_notify := Suc (cleanup_notify s)\<rparr>)
           else (None, s)))"

definition unregister_tunnel :: "str \<Rightarrow> server_state \<Rightarrow> session_ref option \<times> server_state" where
  "unregister_tunnel subdomain s = remove_tunnel_if_owner subdomain None s"

definition unregister_tunnel_if_owner ::
  "str \<Rightarrow> session_ref \<Rightarrow> server_state \<Rightarrow> session_ref option \<times> server_state" where
  "unregister_tunnel_if_owner subdomain r s = remove_tunnel_if_owner subdomain (Some r) s"

definition port_start :: "server_state \<Rightarrow> port" where
  "port_start s = fst (tcp_port_range (cfg_server (ss_config s)))"

definition port_end :: "server_state \<Rightarrow> port" where
  "port_end s = snd (tcp_port_range (cfg_server (ss_config s)))"

text \<open>\<open>(start..end).contains(&port)\<close>.\<close>

definition in_range :: "server_state \<Rightarrow> port \<Rightarrow> bool" where
  "in_range s p = (port_start s \<le> p \<and> p < port_end s)"

definition port_free :: "server_state \<Rightarrow> port \<Rightarrow> bool" where
  "port_free s p = (\<not> dm_contains (tcp_tunnels s) p \<and> \<not> dm_contains (reservations s) (RTcp p))"

definition allocate_tcp_port :: "server_state \<Rightarrow> port option" where
  "allocate_tcp_port s = List.find (port_free s) [port_start s ..< port_end s]"

definition reserve_tcp_port ::
  "port option \<Rightarrow> str \<Rightarrow> server_state \<Rightarrow> (tunnel_error, port) result \<times> server_state" where
  "reserve_tcp_port requested owner s =
     (let chosen = (case requested of
          Some p \<Rightarrow> (if in_range s p then Ok p else Err (TcpPortOutOfRange p (port_start s) (port_end s)))
        | None \<Rightarrow> (case List.find (port_free s) [port_start s ..< port_end s] of
            Some p \<Rightarrow> Ok p
          | None \<Rightarrow> Err (NoPortsAvailable (port_start s) (port_end s))))
      in case chosen of
          Inl e \<Rightarrow> (Err e, s)
        | Inr p \<Rightarrow>
            (if dm_contains (tcp_tunnels s) p \<or> dm_contains (reservations s) (RTcp p)
             then (Err (TcpPortTaken p), s)
             else if at_capacity s then (Err (max_tunnels_error (max_slots s)), s)
             else (Ok p, s\<lparr>reservations := dm_insert (RTcp p) owner (reservations s)\<rparr>)))"

definition release_tcp_port_reservation :: "port \<Rightarrow> str \<Rightarrow> server_state \<Rightarrow> server_state" where
  "release_tcp_port_reservation p owner s = release_reservation (RTcp p) owner s"

definition try_register_tcp_tunnel ::
  "port \<Rightarrow> session_ref \<Rightarrow> server_state \<Rightarrow> (tunnel_error, unit) result \<times> server_state" where
  "try_register_tcp_tunnel p r s =
     (let key = RTcp p; owns = owns_reservation key (ts_id (ss_heap s r)) s
      in if \<not> in_range s p then (Err (TcpPortOutOfRange p (port_start s) (port_end s)), s)
         else if dm_contains (reservations s) key \<and> \<not> owns then (Err (TcpPortTaken p), s)
         else if dm_contains (tcp_tunnels s) p then (Err (TcpPortTaken p), s)
         else if \<not> owns \<and> at_capacity s then (Err (max_tunnels_error (max_slots s)), s)
         else (Ok (), s\<lparr>tcp_tunnels := dm_insert p r (tcp_tunnels s),
                reservations := (if owns then dm_remove key (reservations s) else reservations s),
                active_tunnels := active_tunnels s + 1\<rparr>))"

definition register_tcp_tunnel :: "port \<Rightarrow> session_ref \<Rightarrow> server_state \<Rightarrow> bool \<times> server_state" where
  "register_tcp_tunnel p r s = (case try_register_tcp_tunnel p r s of (res, s1) \<Rightarrow> (is_ok res, s1))"

definition cancel_session :: "tunnel_session \<Rightarrow> tunnel_session" where
  "cancel_session t = t\<lparr>ts_cancel := True, idle_cancel := True\<rparr>"

definition remove_tcp_tunnel :: "port \<Rightarrow> server_state \<Rightarrow> session_ref option \<times> server_state" where
  "remove_tcp_tunnel p s =
     (case dm_get (tcp_tunnels s) p of
        None \<Rightarrow> (None, s)
      | Some r \<Rightarrow> (Some r,
          (modify_session r cancel_session s)
            \<lparr>tcp_tunnels := dm_remove p (tcp_tunnels s),
             active_tunnels := active_tunnels s - 1,
             cleanup_notify := Suc (cleanup_notify s)\<rparr>))"

definition unregister_tcp_tunnel :: "port \<Rightarrow> server_state \<Rightarrow> server_state" where
  "unregister_tcp_tunnel p s = snd (remove_tcp_tunnel p s)"

definition remove_tcp_tunnel_if_owner ::
  "port \<Rightarrow> session_ref \<Rightarrow> server_state \<Rightarrow> session_ref option \<times> server_state" where
  "remove_tcp_tunnel_if_owner p r s =
     (case dm_get (tcp_tunnels s) p of
        None \<Rightarrow> (None, s)
      | Some current \<Rightarrow>
          (if current = r then
             (Some r,
              (modify_session r cancel_session s)
                \<lparr>tcp_tunnels := dm_remove p (tcp_tunnels s),
                 reservations := dm_insert (RTcp p) (ts_id (ss_heap s r)) (reservations s),
                 active_tunnels := active_tunnels s - 1,
                 cleanup_notify := Suc (cleanup_notify s)\<rparr>)
           else (None, s)))"

text \<open>
  \<open>shutdown_tcp_tunnel_if_owner\<close>. The listener's \<open>oneshot\<close> may fire within the five seconds
  (\<open>in_time\<close>); if it does not, the port stays reserved and the spawned task \<open>late_release\<close> frees
  it when it fires. \<open>interf\<close> is what the other tasks do while this one waits.
\<close>

datatype shutdown_outcome = NotOwner | Released session_ref | Retained session_ref oneshot_id

definition shutdown_tcp_tunnel_if_owner ::
  "(server_state \<Rightarrow> server_state) \<Rightarrow> bool \<Rightarrow> port \<Rightarrow> session_ref \<Rightarrow> server_state \<Rightarrow>
   shutdown_outcome \<times> server_state" where
  "shutdown_tcp_tunnel_if_owner interf in_time p r s =
     (case remove_tcp_tunnel_if_owner p r s of
        (None, s1) \<Rightarrow> (NotOwner, s1)
      | (Some removed, s1) \<Rightarrow>
          (let id = ts_id (ss_heap s1 removed) in
           case listener_stopped (ss_heap s1 removed) of
             Some rx \<Rightarrow>
               (let s2 = interf (modify_session removed (\<lambda>t. t\<lparr>listener_stopped := None\<rparr>) s1) in
                if in_time \<and> rx \<in> set (ss_fired s2)
                then (Released removed, release_tcp_port_reservation p id s2)
                else (Retained removed rx,
                      s2\<lparr>tcp_reservations_retained := tcp_reservations_retained s2 + 1\<rparr>))
           | None \<Rightarrow> (Released removed, release_tcp_port_reservation p id s1)))"

text \<open>The task spawned for a retained port, once the listener is done.\<close>

definition late_release :: "port \<Rightarrow> str \<Rightarrow> server_state \<Rightarrow> server_state" where
  "late_release p owner s =
     (let s1 = release_tcp_port_reservation p owner s
      in s1\<lparr>tcp_reservations_retained := tcp_reservations_retained s1 - 1\<rparr>)"

definition create_dns_record ::
  "dns_api \<Rightarrow> str \<Rightarrow> server_state \<Rightarrow> (str, str option) result \<times> server_state" where
  "create_dns_record api subdomain s =
     (case dns_client s of
        None \<Rightarrow> (Ok None, s)
      | Some client \<Rightarrow> (case public_ip (cfg_server (ss_config s)) of
          None \<Rightarrow> (Err ''server.public_ip is required when cloudflare.per_tunnel_dns is enabled'', s)
        | Some ip \<Rightarrow>
            (let name = subdomain @ ''.'' @ sc_domain (cfg_server (ss_config s)) in
             case create_record api client name ip (dns_ttl (cfg_cloudflare (ss_config s))) (ss_dns_log s) of
               (Inr i, log) \<Rightarrow> (Ok (Some i), s\<lparr>ss_dns_log := log\<rparr>)
             | (Inl e, log) \<Rightarrow>
                 (Err (''failed to create DNS record for '' @ name @ '': '' @ e), s\<lparr>ss_dns_log := log\<rparr>))))"

definition delete_dns_record :: "dns_api \<Rightarrow> session_ref \<Rightarrow> server_state \<Rightarrow> server_state" where
  "delete_dns_record api r s =
     (case (dns_client s, dns_record_id (ss_heap s r)) of
        (Some client, Some record_id) \<Rightarrow>
          s\<lparr>ss_dns_log := snd (delete_record api client record_id (ss_dns_log s))\<rparr>
      | _ \<Rightarrow> s)"

section \<open>Sessions\<close>

definition touch :: "nat \<Rightarrow> tunnel_session \<Rightarrow> tunnel_session" where
  "touch now t = t\<lparr>last_activity := now\<rparr>"

definition stream_started :: "nat \<Rightarrow> tunnel_session \<Rightarrow> tunnel_session" where
  "stream_started now t = touch now (t\<lparr>active_streams := active_streams t + 1\<rparr>)"

definition stream_finished :: "nat \<Rightarrow> tunnel_session \<Rightarrow> tunnel_session" where
  "stream_finished now t = touch now (t\<lparr>active_streams := active_streams t - 1\<rparr>)"

text \<open>\<open>duration_since\<close> saturates at zero, like subtraction on \<open>nat\<close>.\<close>

definition is_idle :: "nat \<Rightarrow> nat \<Rightarrow> tunnel_session \<Rightarrow> bool" where
  "is_idle now timeout t =
     (if active_streams t \<noteq> 0 then False else now - last_activity t \<ge> timeout)"

section \<open>The reaper\<close>

definition idle_timeout :: "server_state \<Rightarrow> nat" where
  "idle_timeout s = tunnel_idle_timeout_secs (cfg_server (ss_config s)) * 1000"

definition idle_candidates :: "nat \<Rightarrow> server_state \<Rightarrow> ('k, session_ref) dmap \<Rightarrow> ('k \<times> session_ref) list" where
  "idle_candidates now s m = filter (\<lambda>(_, r). is_idle now (idle_timeout s) (ss_heap s r)) m"

definition idle_notice :: server_msg where
  "idle_notice = SError 408 ''tunnel closed after idle timeout''"

text \<open>
  The two loops. Deleting a DNS record and waiting for a listener are awaits, where other tasks
  run: \<open>interf\<close> is applied there.
\<close>

fun reap_http ::
  "dns_api \<Rightarrow> (server_state \<Rightarrow> server_state) \<Rightarrow> (str \<times> session_ref) list \<Rightarrow> server_state \<Rightarrow> server_state" where
  "reap_http api interf [] s = s"
| "reap_http api interf ((k, r) # cs) s =
     reap_http api interf cs
       (case unregister_tunnel_if_owner k r s of
          (None, s1) \<Rightarrow> s1
        | (Some x, s1) \<Rightarrow>
            interf (delete_dns_record api x (try_send (control_tx (ss_heap s1 x)) idle_notice s1)))"

fun reap_tcp ::
  "dns_api \<Rightarrow> (server_state \<Rightarrow> server_state) \<Rightarrow> (port \<Rightarrow> bool) \<Rightarrow> (port \<times> session_ref) list \<Rightarrow>
   server_state \<Rightarrow> server_state" where
  "reap_tcp api interf in_time [] s = s"
| "reap_tcp api interf in_time ((p, r) # cs) s =
     reap_tcp api interf in_time cs
       (case shutdown_tcp_tunnel_if_owner interf (in_time p) p r s of
          (NotOwner, s1) \<Rightarrow> s1
        | (_, s1) \<Rightarrow>
            interf (delete_dns_record api r (try_send (control_tx (ss_heap s1 r)) idle_notice s1)))"

definition reap_idle_tunnels ::
  "dns_api \<Rightarrow> (server_state \<Rightarrow> server_state) \<Rightarrow> (port \<Rightarrow> bool) \<Rightarrow> nat \<Rightarrow> server_state \<Rightarrow> server_state" where
  "reap_idle_tunnels api interf in_time now s =
     (let s1 = reap_http api interf (idle_candidates now s (tunnels s)) s
      in reap_tcp api interf in_time (idle_candidates now s1 (tcp_tunnels s1)) s1)"

section \<open>Captures\<close>

definition store_capture :: "str \<Rightarrow> captured_request \<Rightarrow> server_state \<Rightarrow> server_state" where
  "store_capture subdomain capture s =
     (let capture = sanitize_capture capture in
      case dm_get (captures s) subdomain of
        None \<Rightarrow> s
      | Some queue \<Rightarrow>
          (let queue = (if length queue \<ge> buffer_size (cfg_inspect (ss_config s)) then tl queue else queue)
           in s\<lparr>captures := dm_insert subdomain (queue @ [capture]) (captures s),
                inspect_tx := inspect_tx s @ [NewRequest capture]\<rparr>))"

section \<open>Stream correlation\<close>

record 't stream_registry =
  next_correlation_id :: "32 word"
  pending_streams :: "(32 word, 't) dmap"

definition new_stream_registry :: "'t stream_registry" where
  "new_stream_registry = \<lparr>next_correlation_id = 1, pending_streams = dm_empty\<rparr>"

text \<open>\<open>fetch_add\<close> wraps around.\<close>

definition take_correlation_id :: "'t stream_registry \<Rightarrow> 32 word \<times> 't stream_registry" where
  "take_correlation_id g = (next_correlation_id g, g\<lparr>next_correlation_id := next_correlation_id g + 1\<rparr>)"

end
