(* ===== verification/Tunnel_Invariant.thy ===== *)
theory Tunnel_Invariant
  imports Tunnel_Manager
begin

text \<open>
  What the shared state of the server guarantees. First the invariant (well-formed maps, the
  capacity bound, reservations disjoint from tunnels, the gauge, the capture buffers, the
  references) and that every operation keeps it, then the step relation of all operations, the
  reachable states and what holds in all of them.
\<close>

section \<open>The invariant\<close>

definition capacity_inv :: "server_state \<Rightarrow> bool" where
  "capacity_inv s \<longleftrightarrow> dm_wf (tunnels s) \<and> dm_wf (tcp_tunnels s) \<and> dm_wf (reservations s) \<and>
     dm_wf (captures s) \<and> slots_used s \<le> max_slots s"

definition disjoint_inv :: "server_state \<Rightarrow> bool" where
  "disjoint_inv s \<longleftrightarrow>
     (\<forall>k. dm_get (tunnels s) k \<noteq> None \<longrightarrow> dm_get (reservations s) (RHttp k) = None) \<and>
     (\<forall>p. dm_get (tcp_tunnels s) p \<noteq> None \<longrightarrow> dm_get (reservations s) (RTcp p) = None)"

definition gauge_inv :: "server_state \<Rightarrow> bool" where
  "gauge_inv s \<longleftrightarrow> active_tunnels s = int (dm_len (tunnels s) + dm_len (tcp_tunnels s))"

definition queue_ok :: "server_state \<Rightarrow> captured_request list \<Rightarrow> bool" where
  "queue_ok s q \<longleftrightarrow> length q \<le> max 1 (buffer_size (cfg_inspect (ss_config s))) \<and> list_all clean_capture q"

definition capture_inv :: "server_state \<Rightarrow> bool" where
  "capture_inv s \<longleftrightarrow>
     (\<forall>k. dm_get (captures s) k = None \<longleftrightarrow> dm_get (tunnels s) k = None) \<and>
     (\<forall>k q. dm_get (captures s) k = Some q \<longrightarrow> queue_ok s q)"

definition ref_inv :: "server_state \<Rightarrow> bool" where
  "ref_inv s \<longleftrightarrow>
     (\<forall>k r. dm_get (tunnels s) k = Some r \<longrightarrow> r < ss_next s \<and> ts_subdomain (ss_heap s r) = k) \<and>
     (\<forall>p r. dm_get (tcp_tunnels s) p = Some r \<longrightarrow> r < ss_next s \<and> in_range s p) \<and>
     (\<forall>p. dm_get (reservations s) (RTcp p) \<noteq> None \<longrightarrow> in_range s p)"

definition server_inv :: "server_state \<Rightarrow> bool" where
  "server_inv s \<longleftrightarrow> capacity_inv s \<and> disjoint_inv s \<and> gauge_inv s \<and> capture_inv s \<and> ref_inv s"

lemma server_invI:
  "capacity_inv s \<Longrightarrow> disjoint_inv s \<Longrightarrow> gauge_inv s \<Longrightarrow> capture_inv s \<Longrightarrow> ref_inv s \<Longrightarrow> server_inv s"
  by (simp add: server_inv_def)

lemma server_invD:
  assumes "server_inv s"
  shows "capacity_inv s" "disjoint_inv s" "gauge_inv s" "capture_inv s" "ref_inv s"
  using assms by (simp_all add: server_inv_def)

lemmas inv_defs = capacity_inv_def disjoint_inv_def gauge_inv_def capture_inv_def ref_inv_def
  slots_used_def max_slots_def queue_ok_def in_range_def port_start_def port_end_def

lemma server_inv_new: "server_inv (new_server_state c)"
  by (simp add: server_inv_def inv_defs new_server_state_def)

text \<open>Updates of the components the invariant does not read.\<close>

lemma inv_frame:
  assumes "server_inv s" "tunnels s' = tunnels s" "tcp_tunnels s' = tcp_tunnels s"
    "reservations s' = reservations s" "captures s' = captures s" "ss_config s' = ss_config s"
    "active_tunnels s' = active_tunnels s" "ss_next s \<le> ss_next s'"
    "\<And>r. r < ss_next s \<Longrightarrow> ts_subdomain (ss_heap s' r) = ts_subdomain (ss_heap s r)"
  shows "server_inv s'"
  using assms unfolding server_inv_def inv_defs by fastforce

lemma inv_modify [inv_intros]:
  "server_inv s \<Longrightarrow> (\<And>t. ts_subdomain (f t) = ts_subdomain t) \<Longrightarrow> server_inv (modify_session r f s)"
  by (erule inv_frame) (auto simp: modify_session_def)

lemma inv_new_session [inv_intros]: "server_inv s \<Longrightarrow> server_inv (snd (new_session t s))"
  by (erule inv_frame) (auto simp: new_session_def)

lemma inv_try_send [inv_intros]: "server_inv s \<Longrightarrow> server_inv (try_send c m s)"
  by (erule inv_frame) (auto simp: try_send_def)

lemma inv_reload [inv_intros]: "server_inv s \<Longrightarrow> server_inv (reload_revoked_jtis js s)"
  by (erule inv_frame) (auto simp: reload_revoked_jtis_def)

lemma inv_create_dns [inv_intros]: "server_inv s \<Longrightarrow> server_inv (snd (create_dns_record api k s))"
  by (erule inv_frame) (auto simp: create_dns_record_def Let_def split: option.splits sum.splits prod.splits)

lemma inv_delete_dns [inv_intros]: "server_inv s \<Longrightarrow> server_inv (delete_dns_record api r s)"
  by (erule inv_frame) (auto simp: delete_dns_record_def split: option.splits)

section \<open>Operations on the maps\<close>

lemma owns_reservation_iff: "owns_reservation k o' s \<longleftrightarrow> dm_get (reservations s) k = Some o'"
  by (auto simp: owns_reservation_def split: option.splits)

lemma reserve_inv:
  assumes s: "server_inv s" and free: "dm_get (reservations s) key = None" and cap: "\<not> at_capacity s"
    and fresh: "case key of RHttp k \<Rightarrow> dm_get (tunnels s) k = None
      | RTcp p \<Rightarrow> dm_get (tcp_tunnels s) p = None \<and> in_range s p"
  shows "server_inv (s\<lparr>reservations := dm_insert key owner (reservations s)\<rparr>)"
proof (rule server_invI)
  note d = server_invD [OF s]
  show "capacity_inv (s\<lparr>reservations := dm_insert key owner (reservations s)\<rparr>)"
    using d(1) cap free by (simp add: at_capacity_def inv_defs dm_facts)
  show "disjoint_inv (s\<lparr>reservations := dm_insert key owner (reservations s)\<rparr>)"
    using d(2) fresh by (auto simp: disjoint_inv_def dm_simps split: reservation_key.splits)
  show "ref_inv (s\<lparr>reservations := dm_insert key owner (reservations s)\<rparr>)"
    using d(5) fresh by (auto simp: inv_defs dm_simps split: reservation_key.splits)
qed (use server_invD [OF s] in \<open>simp_all add: inv_defs\<close>)

lemma release_inv [inv_intros]:
  assumes s: "server_inv s"
  shows "server_inv (release_reservation key owner s)"
proof (cases "owns_reservation key owner s")
  case True
  note d = server_invD [OF s]
  have wf: "dm_wf (reservations s)" using d(1) by (simp add: capacity_inv_def)
  have len: "Suc (dm_len (dm_remove key (reservations s))) = dm_len (reservations s)"
    using dm.len_remove_present [OF wf] True by (simp add: owns_reservation_iff)
  have "server_inv (s\<lparr>reservations := dm_remove key (reservations s)\<rparr>)"
    using d len by (intro server_invI) (auto simp: inv_defs dm_simps dm_wf_remove)
  with True show ?thesis by (simp add: release_reservation_def)
qed (simp add: release_reservation_def s)

lemma reserve_http_inv [inv_intros]:
  "server_inv s \<Longrightarrow> server_inv (snd (reserve_http_tunnel k owner s))"
  using reserve_inv [of s "RHttp k" owner] by (simp add: reserve_http_tunnel_def)

lemma find_in_range: "List.find P [port_start s ..< port_end s] = Some p \<Longrightarrow> in_range s p \<and> P p"
  by (simp add: find_upt_least in_range_def)

lemma reserve_tcp_inv [inv_intros]:
  "server_inv s \<Longrightarrow> server_inv (snd (reserve_tcp_port req owner s))"
  using reserve_inv [of s "RTcp p" owner for p]
  by (auto simp: reserve_tcp_port_def Let_def dest: find_in_range split: option.splits)

text \<open>A reserved slot becomes a tunnel: the number of slots in use is the same.\<close>

lemma register_inv:
  assumes s: "server_inv s" and r: "r < ss_next s"
  shows "server_inv (snd (register_tunnel r s))"
proof -
  define k where "k = ts_subdomain (ss_heap s r)"
  define owns where "owns = owns_reservation (RHttp k) (ts_id (ss_heap s r)) s"
  note d = server_invD [OF s]
  have wf: "dm_wf (tunnels s)" "dm_wf (reservations s)" "dm_wf (captures s)" "dm_wf (tcp_tunnels s)"
    using d(1) by (simp_all add: capacity_inv_def)
  show ?thesis
  proof (cases "(dm_get (reservations s) (RHttp k) \<noteq> None \<longrightarrow> owns) \<and> dm_get (tunnels s) k = None \<and> (owns \<or> \<not> at_capacity s)")
    case False
    then show ?thesis using s by (auto simp: register_tunnel_def k_def [symmetric] owns_def [symmetric] Let_def)
  next
    case True
    let ?res = "if owns then dm_remove (RHttp k) (reservations s) else reservations s"
    let ?s = "s\<lparr>tunnels := dm_insert k r (tunnels s), reservations := ?res,
      active_tunnels := active_tunnels s + 1, captures := dm_insert k [] (captures s)\<rparr>"
    have eq: "snd (register_tunnel r s) = ?s"
      using True by (auto simp: register_tunnel_def k_def [symmetric] owns_def [symmetric] Let_def)
    have len: "dm_len (dm_insert k r (tunnels s)) + dm_len ?res
        \<le> (if owns then dm_len (tunnels s) + dm_len (reservations s)
           else Suc (dm_len (tunnels s) + dm_len (reservations s)))"
    proof (cases owns)
      case o: True
      then show ?thesis
        using dmm.move_slot [OF wf(2), of "RHttp k" "ts_id (ss_heap s r)" "tunnels s" k r] True
        by (simp add: owns_def owns_reservation_iff)
    next
      case False
      with True show ?thesis by (simp add: dm.len_insert_fresh)
    qed
    have "capacity_inv ?s"
      using d(1) len True wf by (auto simp: inv_defs at_capacity_def dm_facts)
    moreover have "disjoint_inv ?s"
      using d(2) True by (auto simp: disjoint_inv_def dm_simps)
    moreover have "gauge_inv ?s"
      using d(3) True by (simp add: gauge_inv_def dm_facts)
    moreover have "capture_inv ?s"
      using d(4) by (auto simp: inv_defs dm_simps)
    moreover have "ref_inv ?s"
      using d(5) r by (auto simp: inv_defs dm_simps k_def)
    ultimately show ?thesis unfolding eq by (rule server_invI)
  qed
qed

lemma register_tcp_inv:
  assumes s: "server_inv s" and r: "r < ss_next s"
  shows "server_inv (snd (try_register_tcp_tunnel p r s))"
proof -
  define owns where "owns = owns_reservation (RTcp p) (ts_id (ss_heap s r)) s"
  note d = server_invD [OF s]
  have wf: "dm_wf (tcp_tunnels s)" "dm_wf (reservations s)"
    using d(1) by (simp_all add: capacity_inv_def)
  show ?thesis
  proof (cases "in_range s p \<and> (dm_get (reservations s) (RTcp p) \<noteq> None \<longrightarrow> owns) \<and>
      dm_get (tcp_tunnels s) p = None \<and> (owns \<or> \<not> at_capacity s)")
    case False
    then show ?thesis using s by (auto simp: try_register_tcp_tunnel_def owns_def [symmetric] Let_def)
  next
    case True
    let ?res = "if owns then dm_remove (RTcp p) (reservations s) else reservations s"
    let ?s = "s\<lparr>tcp_tunnels := dm_insert p r (tcp_tunnels s), reservations := ?res,
      active_tunnels := active_tunnels s + 1\<rparr>"
    have eq: "snd (try_register_tcp_tunnel p r s) = ?s"
      using True by (auto simp: try_register_tcp_tunnel_def owns_def [symmetric] Let_def)
    have len: "dm_len (dm_insert p r (tcp_tunnels s)) + dm_len ?res
        \<le> (if owns then dm_len (tcp_tunnels s) + dm_len (reservations s)
           else Suc (dm_len (tcp_tunnels s) + dm_len (reservations s)))"
    proof (cases owns)
      case o: True
      then show ?thesis
        using dmm.move_slot [OF wf(2), of "RTcp p" "ts_id (ss_heap s r)" "tcp_tunnels s" p r] True
        by (simp add: owns_def owns_reservation_iff)
    next
      case False
      with True show ?thesis by (simp add: dm.len_insert_fresh)
    qed
    have "capacity_inv ?s"
      using d(1) len True wf by (auto simp: inv_defs at_capacity_def dm_facts)
    moreover have "disjoint_inv ?s"
      using d(2) True by (auto simp: disjoint_inv_def dm_simps)
    moreover have "gauge_inv ?s"
      using d(3) True by (simp add: gauge_inv_def dm_facts)
    moreover have "capture_inv ?s"
      using d(4) by (simp add: capture_inv_def queue_ok_def)
    moreover have "ref_inv ?s"
      using d(5) r True by (auto simp: inv_defs dm_simps)
    ultimately show ?thesis unfolding eq by (rule server_invI)
  qed
qed


lemma remove_http_inv:
  assumes s: "server_inv s" and k: "dm_get (tunnels s) k = Some r"
  shows "server_inv ((modify_session r (\<lambda>t. t\<lparr>idle_cancel := True\<rparr>) s)
      \<lparr>tunnels := dm_remove k (tunnels s), captures := dm_remove k (captures s),
       active_tunnels := active_tunnels s - 1, cleanup_notify := n\<rparr>)"
    (is "server_inv ?s")
proof (rule server_invI)
  note d = server_invD [OF s]
  have wf: "dm_wf (tunnels s)" using d(1) by (simp add: capacity_inv_def)
  have len: "Suc (dm_len (dm_remove k (tunnels s))) = dm_len (tunnels s)"
    by (rule dm.len_remove_present [OF wf k])
  show "capacity_inv ?s"
    using d(1) len by (simp add: inv_defs modify_session_def dm_wf_remove)
  show "disjoint_inv ?s" using d(2) by (simp add: disjoint_inv_def modify_session_def dm_simps)
  show "gauge_inv ?s" using d(3) len by (simp add: gauge_inv_def modify_session_def)
  show "capture_inv ?s" using d(4) by (simp add: capture_inv_def queue_ok_def modify_session_def dm_simps)
  show "ref_inv ?s" using d(5) by (auto simp: inv_defs modify_session_def dm_simps split: if_splits)
qed

lemma unregister_inv [inv_intros]: "server_inv s \<Longrightarrow> server_inv (snd (remove_tunnel_if_owner k owner s))"
  using remove_http_inv by (simp add: remove_tunnel_if_owner_def split: option.splits)

lemma remove_tcp_inv [inv_intros]:
  assumes s: "server_inv s"
  shows "server_inv (snd (remove_tcp_tunnel p s))"
proof (cases "dm_get (tcp_tunnels s) p")
  case None
  then show ?thesis using s by (simp add: remove_tcp_tunnel_def)
next
  case (Some r)
  note d = server_invD [OF s]
  have wf: "dm_wf (tcp_tunnels s)" using d(1) by (simp add: capacity_inv_def)
  have len: "Suc (dm_len (dm_remove p (tcp_tunnels s))) = dm_len (tcp_tunnels s)"
    by (rule dm.len_remove_present [OF wf Some])
  show ?thesis
    using Some d len
    by (intro server_invI)
      (auto simp: remove_tcp_tunnel_def inv_defs modify_session_def cancel_session_def dm_simps dm_wf_remove)
qed

text \<open>A tunnel that closes becomes a reservation of its port: again no slot is gained or lost.\<close>

lemma remove_tcp_owner_inv [inv_intros]:
  assumes s: "server_inv s"
  shows "server_inv (snd (remove_tcp_tunnel_if_owner p r s))"
proof (cases "dm_get (tcp_tunnels s) p = Some r")
  case False
  then show ?thesis using s by (auto simp: remove_tcp_tunnel_if_owner_def split: option.splits)
next
  case p: True
  note d = server_invD [OF s]
  have wf: "dm_wf (tcp_tunnels s)" "dm_wf (reservations s)" using d(1) by (simp_all add: capacity_inv_def)
  have free: "dm_get (reservations s) (RTcp p) = None" using d(2) p by (simp add: disjoint_inv_def)
  have mv: "dm_len (dm_remove p (tcp_tunnels s)) + dm_len (dm_insert (RTcp p) (ts_id (ss_heap s r)) (reservations s))
      = dm_len (tcp_tunnels s) + dm_len (reservations s)"
    by (rule dmm.move_slot [OF wf(1) p free])
  have len: "Suc (dm_len (dm_remove p (tcp_tunnels s))) = dm_len (tcp_tunnels s)"
    by (rule dm.len_remove_present [OF wf(1) p])
  let ?s = "(modify_session r cancel_session s)
    \<lparr>tcp_tunnels := dm_remove p (tcp_tunnels s),
     reservations := dm_insert (RTcp p) (ts_id (ss_heap s r)) (reservations s),
     active_tunnels := active_tunnels s - 1, cleanup_notify := Suc (cleanup_notify s)\<rparr>"
  have "capacity_inv ?s"
    using d(1) mv by (simp add: inv_defs modify_session_def dm_wf_remove dm_wf_insert)
  moreover have "disjoint_inv ?s" using d(2) by (auto simp: disjoint_inv_def modify_session_def dm_simps)
  moreover have "gauge_inv ?s" using d(3) len by (simp add: gauge_inv_def modify_session_def)
  moreover have "capture_inv ?s" using d(4) by (simp add: capture_inv_def queue_ok_def modify_session_def)
  moreover have "ref_inv ?s"
    using d(5) p by (auto simp: inv_defs modify_session_def cancel_session_def dm_simps split: if_splits)
  ultimately have "server_inv ?s" by (rule server_invI)
  then show ?thesis using p by (simp add: remove_tcp_tunnel_if_owner_def)
qed

lemma late_release_inv [inv_intros]: "server_inv s \<Longrightarrow> server_inv (late_release p owner s)"
  unfolding late_release_def Let_def release_tcp_port_reservation_def
  by (rule inv_frame [OF release_inv]) auto

lemma shutdown_inv:
  assumes s: "server_inv s" and interf: "\<And>s. server_inv s \<Longrightarrow> server_inv (interf s)"
  shows "server_inv (snd (shutdown_tcp_tunnel_if_owner interf in_time p r s))"
proof -
  obtain o1 s1 where r: "remove_tcp_tunnel_if_owner p r s = (o1, s1)" by fastforce
  have s1: "server_inv s1" using remove_tcp_owner_inv [OF s, of p r] by (simp add: r)
  have s2: "server_inv (interf (modify_session x (\<lambda>t. t\<lparr>listener_stopped := None\<rparr>) s1))" for x
    by (intro interf inv_modify s1) simp
  show ?thesis
  proof (cases o1)
    case None
    then show ?thesis using s1 by (simp add: shutdown_tcp_tunnel_if_owner_def r)
  next
    case (Some x)
    show ?thesis
      using inv_frame [OF s2 [of x]] release_inv [OF s2 [of x]] release_inv [OF s1]
      by (auto simp: shutdown_tcp_tunnel_if_owner_def r Some Let_def release_tcp_port_reservation_def
          split: option.splits)
  qed
qed

lemma store_inv [inv_intros]:
  assumes s: "server_inv s"
  shows "server_inv (store_capture k c s)"
proof (cases "dm_get (captures s) k")
  case None
  then show ?thesis using s by (simp add: store_capture_def Let_def)
next
  case (Some q)
  note d = server_invD [OF s]
  define b where "b = buffer_size (cfg_inspect (ss_config s))"
  define q' where "q' = (if length q \<ge> b then tl q else q) @ [sanitize_capture c]"
  have q: "queue_ok s q" using d(4) Some by (simp add: capture_inv_def)
  have "length q' \<le> max 1 b" using q by (auto simp: q'_def queue_ok_def b_def)
  moreover have "list_all clean_capture q'"
    using q by (cases q) (auto simp: q'_def queue_ok_def)
  ultimately have q': "queue_ok s q'" by (simp add: queue_ok_def b_def)
  let ?s = "s\<lparr>captures := dm_insert k q' (captures s), inspect_tx := inspect_tx s @ [NewRequest (sanitize_capture c)]\<rparr>"
  have k: "dm_get (tunnels s) k \<noteq> None" using d(4) Some by (metis capture_inv_def option.distinct(1))
  have "capture_inv ?s" using d(4) q' k by (auto simp: capture_inv_def queue_ok_def dm_simps)
  moreover have "capacity_inv ?s" using d(1) by (simp add: inv_defs dm_wf_insert)
  ultimately have "server_inv ?s"
    using d by (intro server_invI) (simp_all add: disjoint_inv_def gauge_inv_def ref_inv_def in_range_def port_start_def port_end_def)
  moreover have "store_capture k c s = ?s"
    by (simp add: store_capture_def Some Let_def q'_def b_def)
  ultimately show ?thesis by simp
qed

section \<open>All operations, and the reachable states\<close>

datatype server_op =
    OpReserveHttp str str | OpReleaseHttp str str | OpRegister session_ref
  | OpUnregister str "session_ref option" | OpReserveTcp "port option" str | OpReleaseTcp port str
  | OpRegisterTcp port session_ref | OpRemoveTcp port | OpRemoveTcpOwner port session_ref
  | OpLateRelease port str | OpNewSession tunnel_session | OpTouch nat session_ref
  | OpStreamStarted nat session_ref | OpStreamFinished nat session_ref | OpTakeListener session_ref
  | OpSetListener session_ref oneshot_id | OpFire oneshot_id | OpStore str captured_request
  | OpReload "str list" | OpCreateDns str | OpDeleteDns session_ref | OpSend conn_ref server_msg
  | OpReceive conn_ref | OpConnect conn_ref | OpDisconnect conn_ref | OpCancel | OpSetFingerprint session_ref bytes

fun apply_op :: "dns_api \<Rightarrow> server_op \<Rightarrow> server_state \<Rightarrow> server_state" where
  "apply_op api (OpReserveHttp k own) s = snd (reserve_http_tunnel k own s)"
| "apply_op api (OpReleaseHttp k own) s = release_http_tunnel k own s"
| "apply_op api (OpRegister r) s = (if r < ss_next s then snd (register_tunnel r s) else s)"
| "apply_op api (OpUnregister k own) s = snd (remove_tunnel_if_owner k own s)"
| "apply_op api (OpReserveTcp req own) s = snd (reserve_tcp_port req own s)"
| "apply_op api (OpReleaseTcp p own) s = release_tcp_port_reservation p own s"
| "apply_op api (OpRegisterTcp p r) s = (if r < ss_next s then snd (try_register_tcp_tunnel p r s) else s)"
| "apply_op api (OpRemoveTcp p) s = snd (remove_tcp_tunnel p s)"
| "apply_op api (OpRemoveTcpOwner p r) s = snd (remove_tcp_tunnel_if_owner p r s)"
| "apply_op api (OpLateRelease p own) s = late_release p own s"
| "apply_op api (OpNewSession t) s = snd (new_session t s)"
| "apply_op api (OpTouch now r) s = modify_session r (touch now) s"
| "apply_op api (OpStreamStarted now r) s = modify_session r (stream_started now) s"
| "apply_op api (OpStreamFinished now r) s = modify_session r (stream_finished now) s"
| "apply_op api (OpTakeListener r) s = modify_session r (\<lambda>t. t\<lparr>listener_stopped := None\<rparr>) s"
| "apply_op api (OpSetListener r x) s = modify_session r (\<lambda>t. t\<lparr>listener_stopped := Some x\<rparr>) s"
| "apply_op api (OpFire x) s = s\<lparr>ss_fired := x # ss_fired s\<rparr>"
| "apply_op api (OpStore k c) s = store_capture k c s"
| "apply_op api (OpReload js) s = reload_revoked_jtis js s"
| "apply_op api (OpCreateDns k) s = snd (create_dns_record api k s)"
| "apply_op api (OpDeleteDns r) s = delete_dns_record api r s"
| "apply_op api (OpSend c m) s = try_send c m s"
| "apply_op api (OpReceive c) s = s\<lparr>ss_chan := (ss_chan s)(c := (ss_chan s c)\<lparr>chan_queue := tl (chan_queue (ss_chan s c))\<rparr>)\<rparr>"
| "apply_op api (OpConnect c) s = s\<lparr>ss_chan := (ss_chan s)(c := \<lparr>chan_queue = [], chan_alive = True\<rparr>)\<rparr>"
| "apply_op api (OpDisconnect c) s = s\<lparr>ss_chan := (ss_chan s)(c := (ss_chan s c)\<lparr>chan_alive := False\<rparr>)\<rparr>"
| "apply_op api OpCancel s = s\<lparr>ss_cancelled := True\<rparr>"
| "apply_op api (OpSetFingerprint r f) s = modify_session r (\<lambda>t. t\<lparr>cached_auth_fingerprint := Some f\<rparr>) s"

lemmas op_defs = reserve_http_tunnel_def release_http_tunnel_def register_tunnel_def Let_def
  remove_tunnel_if_owner_def reserve_tcp_port_def release_tcp_port_reservation_def release_reservation_def
  try_register_tcp_tunnel_def remove_tcp_tunnel_def remove_tcp_tunnel_if_owner_def late_release_def
  new_session_def modify_session_def store_capture_def reload_revoked_jtis_def create_dns_record_def
  delete_dns_record_def try_send_def touch_def stream_started_def stream_finished_def cancel_session_def

lemma apply_op_next: "ss_next s \<le> ss_next (apply_op dns x s)"
  by (cases x) (auto simp: op_defs split: option.splits sum.splits prod.splits)

definition run_ops :: "dns_api \<Rightarrow> server_op list \<Rightarrow> server_state \<Rightarrow> server_state" where
  "run_ops api ops s = fold (apply_op api) ops s"

lemma apply_op_inv: "server_inv s \<Longrightarrow> server_inv (apply_op api x s)"
  by (cases x)
    (auto simp: touch_def stream_started_def stream_finished_def release_http_tunnel_def
      release_tcp_port_reservation_def
      intro: inv_intros register_inv register_tcp_inv, (erule inv_frame; simp)+)

interpretation server_ops: event_machine "apply_op api" server_inv for api
  by unfold_locales (rule apply_op_inv)

lemma run_ops_inv: "server_inv s \<Longrightarrow> server_inv (run_ops api ops s)"
  unfolding run_ops_def by (rule server_ops.run_keeps)

inductive server_reach :: "dns_api \<Rightarrow> config \<Rightarrow> server_state \<Rightarrow> bool" for api c where
  SStart: "server_reach api c (new_server_state c)"
| SOp: "server_reach api c s \<Longrightarrow> server_reach api c (apply_op api x s)"

lemma server_reach_inv: "server_reach api c s \<Longrightarrow> server_inv s"
  by (induction rule: server_reach.induct) (simp_all add: server_inv_new apply_op_inv)


lemma remove_reservation_config [simp]: "ss_config (release_reservation k own s) = ss_config s"
  by (simp add: release_reservation_def)

lemma apply_op_config: "ss_config (apply_op api x s) = ss_config s"
  by (cases x)
    (auto simp: reserve_http_tunnel_def release_http_tunnel_def register_tunnel_def Let_def
      remove_tunnel_if_owner_def reserve_tcp_port_def release_tcp_port_reservation_def
      try_register_tcp_tunnel_def remove_tcp_tunnel_def remove_tcp_tunnel_if_owner_def late_release_def
      new_session_def modify_session_def store_capture_def reload_revoked_jtis_def create_dns_record_def
      delete_dns_record_def try_send_def split: option.splits sum.splits prod.splits)

lemma server_reach_config: "server_reach api c s \<Longrightarrow> ss_config s = c"
  by (induction rule: server_reach.induct) (simp_all add: apply_op_config new_server_state_def)

text \<open>
  C3: the server never exceeds \<open>max_tunnels\<close>. In every state that any interleaving of the
  operations reaches, active HTTP tunnels, active TCP tunnels and reservations together are at
  most the configured maximum; a name or port is never both reserved and active; every TCP
  tunnel and reservation lies in the configured range; and the gauge of active tunnels is exact.
\<close>

theorem capacity_and_exclusion:
  assumes "server_reach api c s"
  shows "dm_len (tunnels s) + dm_len (tcp_tunnels s) + dm_len (reservations s) \<le> max_tunnels (cfg_server c) \<and>
    (\<forall>k. \<not> (dm_get (tunnels s) k \<noteq> None \<and> dm_get (reservations s) (RHttp k) \<noteq> None)) \<and>
    (\<forall>p. \<not> (dm_get (tcp_tunnels s) p \<noteq> None \<and> dm_get (reservations s) (RTcp p) \<noteq> None)) \<and>
    (\<forall>p r. dm_get (tcp_tunnels s) p = Some r \<longrightarrow> in_range s p) \<and>
    active_tunnels s = int (dm_len (tunnels s) + dm_len (tcp_tunnels s))"
proof -
  have i: "server_inv s" using assms by (rule server_reach_inv)
  have c: "ss_config s = c" using assms by (rule server_reach_config)
  note d = server_invD [OF i]
  show ?thesis
    using d(1,2,3,5) c
    by (auto simp: capacity_inv_def slots_used_def max_slots_def disjoint_inv_def gauge_inv_def ref_inv_def)
qed

text \<open>A server with one slot: the second reservation is refused.\<close>

definition tiny_config :: config where
  "tiny_config = default_config\<lparr>cfg_server := (cfg_server default_config)\<lparr>max_tunnels := 1\<rparr>\<rparr>"

definition no_dns :: dns_api where
  "no_dns q log = (Err ''offline'', log)"

theorem capacity_and_exclusion_witness:
  "server_reach no_dns tiny_config
     (apply_op no_dns (OpReserveHttp ''beta'' ''b'') (apply_op no_dns (OpReserveHttp ''alpha'' ''a'') (new_server_state tiny_config)))
   \<and> reservations (apply_op no_dns (OpReserveHttp ''beta'' ''b'')
        (apply_op no_dns (OpReserveHttp ''alpha'' ''a'') (new_server_state tiny_config))) = [(RHttp ''alpha'', ''a'')]"
proof -
  let ?s = "apply_op no_dns (OpReserveHttp ''beta'' ''b'') (apply_op no_dns (OpReserveHttp ''alpha'' ''a'') (new_server_state tiny_config))"
  have r: "server_reach no_dns tiny_config ?s" by (intro SOp SStart)
  have e: "reservations ?s = [(RHttp ''alpha'', ''a'')]"
    by (simp add: reserve_http_tunnel_def new_server_state_def tiny_config_def default_config_def
        at_capacity_def slots_used_def max_slots_def dm_empty_def dm_get_def dm_insert_def dm_len_def)
  have "dm_len (reservations ?s) \<le> 1"
    using capacity_and_exclusion [OF r] by (simp add: tiny_config_def)
  with r e show ?thesis by blast
qed

text \<open>
  What the inspector keeps. In every reachable state the capture buffers are exactly those of
  the active HTTP tunnels, no buffer holds more than the configured number of requests (one, if
  that is zero), and no sensitive header is in any of them.
\<close>

theorem captures_bounded_and_clean:
  assumes "server_reach api c s" "dm_get (captures s) k = Some q"
  shows "dm_get (tunnels s) k \<noteq> None \<and> length q \<le> max 1 (buffer_size (cfg_inspect c)) \<and>
    (\<forall>cap\<in>set q. \<forall>(n, v)\<in>set (req_headers cap). \<not> is_sensitive_header n)"
proof -
  have i: "capture_inv s" using server_invD(4) [OF server_reach_inv [OF assms(1)]] .
  have c: "ss_config s = c" using assms(1) by (rule server_reach_config)
  have q: "queue_ok s q" using i assms(2) by (simp add: capture_inv_def)
  have "dm_get (tunnels s) k \<noteq> None" using i assms(2) by (metis capture_inv_def option.distinct(1))
  with q c show ?thesis by (auto simp: queue_ok_def list_all_iff dest: clean_capture_req)
qed

definition sample_capture :: captured_request where
  "sample_capture = \<lparr>cap_id = ''1'', captured_at = 0, duration_ms = None, cap_tunnel_id = ''t'', req_method = ''GET'',
     req_url = ''/'', req_headers = [(''Cookie'', ''x''), (''Accept'', ''y'')], req_body = None,
     req_body_truncated = False, resp_status = None, resp_headers = None, resp_body = None,
     resp_body_truncated = False, remote_addr = [], tls_version = None\<rparr>"

definition sample_session :: "str \<Rightarrow> str \<Rightarrow> tunnel_session" where
  "sample_session i k = no_session\<lparr>ts_id := i, ts_subdomain := k\<rparr>"

theorem captures_bounded_and_clean_witness:
  "\<exists>s. server_reach no_dns tiny_config s \<and>
     dm_get (captures s) ''a'' = Some [sanitize_capture sample_capture] \<and>
     (\<forall>(n, v)\<in>set (req_headers (sanitize_capture sample_capture)). \<not> is_sensitive_header n)"
proof -
  let ?s = "apply_op no_dns (OpStore ''a'' sample_capture) (apply_op no_dns (OpRegister 0)
    (apply_op no_dns (OpNewSession (sample_session ''1'' ''a'')) (new_server_state tiny_config)))"
  have r: "server_reach no_dns tiny_config ?s" by (intro SOp SStart)
  have q: "dm_get (captures ?s) ''a'' = Some [sanitize_capture sample_capture]"
    by (simp add: new_session_def new_server_state_def register_tunnel_def sample_session_def Let_def
        owns_reservation_def at_capacity_def slots_used_def max_slots_def tiny_config_def default_config_def
        default_values store_capture_def dm_simps)
  show ?thesis using captures_bounded_and_clean [OF r q] r q by auto
qed



end
