(* ===== verification/Tunnel_Properties.thy ===== *)
theory Tunnel_Properties
  imports Tunnel_Invariant
begin

text \<open>
  The functional behaviour of the shared state: the contract of a registry (reserve, publish,
  release), stated once as a locale and interpreted for HTTP names and for TCP ports; the choice
  of a port; the port of a closing listener; the reaper; the ring buffer of captures.
\<close>

section \<open>The registry contract\<close>

locale registry =
  fixes inv :: "'s \<Rightarrow> bool"
    and active :: "'s \<Rightarrow> 'k \<Rightarrow> 'r option"
    and held :: "'s \<Rightarrow> 'k \<Rightarrow> 'o option"
    and reserve :: "'k \<Rightarrow> 'o \<Rightarrow> 's \<Rightarrow> ('e, 'a) result \<times> 's"
    and publish :: "'k \<Rightarrow> 'r \<Rightarrow> 's \<Rightarrow> ('e, unit) result \<times> 's"
    and release :: "'k \<Rightarrow> 'o \<Rightarrow> 's \<Rightarrow> 's"
    and names :: "'s \<Rightarrow> 'r \<Rightarrow> 'k \<Rightarrow> 'o \<Rightarrow> bool"
  assumes reserve_ok: "reserve k own s = (Inr a, s') \<Longrightarrow>
      held s k = None \<and> active s k = None \<and> held s' = (held s)(k := Some own) \<and> active s' = active s"
    and reserve_err: "reserve k own s = (Inl e, s') \<Longrightarrow> s' = s"
    and publish_held: "inv s \<Longrightarrow> held s k = Some own \<Longrightarrow> names s r k own \<Longrightarrow>
      \<exists>s'. publish k r s = (Inr (), s') \<and> active s' = (active s)(k := Some r) \<and> held s' = (held s)(k := None)"
    and publish_foreign: "held s k = Some other \<Longrightarrow> other \<noteq> own \<Longrightarrow> names s r k own \<Longrightarrow>
      \<exists>e. publish k r s = (Inl e, s)"
    and release_held: "held (release k own s) = (if held s k = Some own then (held s)(k := None) else held s)"
    and release_active: "active (release k own s) = active s"
begin

lemma reserve_excludes:
  assumes "reserve k own s = (Inr a, s1)"
  shows "\<exists>e. reserve k other s1 = (Inl e, s1)"
proof (cases "reserve k other s1")
  case (Pair res s2)
  then show ?thesis
    using reserve_ok [OF assms] reserve_ok [of k other s1 _ s2] reserve_err [of k other s1 _ s2]
    by (cases res) auto
qed

lemma reserve_release:
  assumes "reserve k own s = (Inr a, s1)"
  shows "held (release k own s1) = held s \<and> active (release k own s1) = active s"
  using reserve_ok [OF assms] by (auto simp: release_held release_active)

lemma release_foreign:
  assumes "held s k = Some own" "other \<noteq> own"
  shows "held (release k other s) = held s"
  using assms by (simp add: release_held)

end

definition http_held :: "server_state \<Rightarrow> str \<Rightarrow> str option" where
  "http_held s k = dm_get (reservations s) (RHttp k)"

definition http_active :: "server_state \<Rightarrow> str \<Rightarrow> session_ref option" where
  "http_active s k = dm_get (tunnels s) k"

definition tcp_held :: "server_state \<Rightarrow> port \<Rightarrow> str option" where
  "tcp_held s p = dm_get (reservations s) (RTcp p)"

definition tcp_active :: "server_state \<Rightarrow> port \<Rightarrow> session_ref option" where
  "tcp_active s p = dm_get (tcp_tunnels s) p"

lemmas view_defs = http_held_def http_active_def tcp_held_def tcp_active_def

definition http_names :: "server_state \<Rightarrow> session_ref \<Rightarrow> str \<Rightarrow> str \<Rightarrow> bool" where
  "http_names s r k own \<longleftrightarrow> ts_subdomain (ss_heap s r) = k \<and> ts_id (ss_heap s r) = own"

definition tcp_names :: "server_state \<Rightarrow> session_ref \<Rightarrow> port \<Rightarrow> str \<Rightarrow> bool" where
  "tcp_names s r p own \<longleftrightarrow> in_range s p \<and> ts_id (ss_heap s r) = own"

interpretation http: registry server_inv http_active http_held reserve_http_tunnel
    "\<lambda>k r s. if ts_subdomain (ss_heap s r) = k then register_tunnel r s else (Inl (TunnelNotFound k), s)"
    release_http_tunnel http_names
proof unfold_locales
  fix k own s a s'
  assume "reserve_http_tunnel k own s = (Inr a, s')"
  then show "http_held s k = None \<and> http_active s k = None \<and> http_held s' = (http_held s)(k := Some own) \<and>
      http_active s' = http_active s"
    by (auto simp: reserve_http_tunnel_def view_defs dm_simps fun_eq_iff split: if_splits)
next
  fix k own s e s'
  assume "reserve_http_tunnel k own s = (Inl e, s')"
  then show "s' = s" by (auto simp: reserve_http_tunnel_def split: if_splits)
next
  fix s k own r
  assume i: "server_inv s" and h: "http_held s k = Some own" and n: "http_names s r k own"
  have "dm_get (tunnels s) k = None"
    using server_invD(2) [OF i] h by (metis disjoint_inv_def http_held_def option.distinct(1))
  with h n show "\<exists>s'. (if ts_subdomain (ss_heap s r) = k then register_tunnel r s else (Inl (TunnelNotFound k), s)) = (Inr (), s') \<and>
      http_active s' = (http_active s)(k := Some r) \<and> http_held s' = (http_held s)(k := None)"
    by (auto simp: register_tunnel_def http_names_def view_defs owns_reservation_iff dm_simps Let_def fun_eq_iff)
next
  fix s k other own r
  assume "http_held s k = Some other" "other \<noteq> own" "http_names s r k own"
  then show "\<exists>e. (if ts_subdomain (ss_heap s r) = k then register_tunnel r s else (Inl (TunnelNotFound k), s)) = (Inl e, s)"
    by (auto simp: register_tunnel_def http_names_def view_defs owns_reservation_iff Let_def)
qed (auto simp: release_http_tunnel_def release_reservation_def view_defs owns_reservation_iff dm_simps fun_eq_iff)

interpretation tcp: registry server_inv tcp_active tcp_held "\<lambda>p. reserve_tcp_port (Some p)"
    try_register_tcp_tunnel release_tcp_port_reservation tcp_names
proof unfold_locales
  fix p own s a s'
  assume "reserve_tcp_port (Some p) own s = (Inr a, s')"
  then show "tcp_held s p = None \<and> tcp_active s p = None \<and> tcp_held s' = (tcp_held s)(p := Some own) \<and>
      tcp_active s' = tcp_active s"
    by (auto simp: reserve_tcp_port_def view_defs dm_simps fun_eq_iff split: if_splits)
next
  fix p own s e s'
  assume "reserve_tcp_port (Some p) own s = (Inl e, s')"
  then show "s' = s" by (auto simp: reserve_tcp_port_def split: if_splits)
next
  fix s p own r
  assume i: "server_inv s" and h: "tcp_held s p = Some own" and n: "tcp_names s r p own"
  have "dm_get (tcp_tunnels s) p = None"
    using server_invD(2) [OF i] h by (metis disjoint_inv_def tcp_held_def option.distinct(1))
  with h n show "\<exists>s'. try_register_tcp_tunnel p r s = (Inr (), s') \<and>
      tcp_active s' = (tcp_active s)(p := Some r) \<and> tcp_held s' = (tcp_held s)(p := None)"
    by (auto simp: try_register_tcp_tunnel_def tcp_names_def view_defs owns_reservation_iff dm_simps Let_def fun_eq_iff)
next
  fix s p other own r
  assume "tcp_held s p = Some other" "other \<noteq> own" "tcp_names s r p own"
  then show "\<exists>e. try_register_tcp_tunnel p r s = (Inl e, s)"
    by (auto simp: try_register_tcp_tunnel_def tcp_names_def view_defs owns_reservation_iff Let_def)
qed (auto simp: release_tcp_port_reservation_def release_reservation_def view_defs owns_reservation_iff dm_simps fun_eq_iff)

section \<open>The choice of a port\<close>

text \<open>
  \<open>reserve_tcp_port\<close> without a requested port gives \<open>p\<close> exactly when there is a free slot
  and \<open>p\<close> is the lowest port of the range that is neither bound nor reserved, and it then
  reserves that port and nothing else; it says \<open>NoPortsAvailable\<close> exactly when every port of
  the range is taken.
\<close>

theorem reserve_tcp_port_lowest:
  "(fst (reserve_tcp_port None own s) = Ok p \<longleftrightarrow>
      \<not> at_capacity s \<and> in_range s p \<and> port_free s p \<and> (\<forall>q<p. in_range s q \<longrightarrow> \<not> port_free s q)) \<and>
   (fst (reserve_tcp_port None own s) = Ok p \<longrightarrow>
      snd (reserve_tcp_port None own s) = s\<lparr>reservations := dm_insert (RTcp p) own (reservations s)\<rparr>) \<and>
   (fst (reserve_tcp_port None own s) = Err (NoPortsAvailable (port_start s) (port_end s)) \<longleftrightarrow>
      (\<forall>q. in_range s q \<longrightarrow> \<not> port_free s q))"
proof (cases "List.find (port_free s) [port_start s ..< port_end s]")
  case None
  then have "\<forall>q. in_range s q \<longrightarrow> \<not> port_free s q"
    by (auto simp: find_None_iff in_range_def)
  with None show ?thesis by (auto simp: reserve_tcp_port_def)
next
  case (Some x)
  then have x: "in_range s x" "port_free s x" "\<And>q. in_range s q \<Longrightarrow> q < x \<Longrightarrow> \<not> port_free s q"
    by (auto simp: find_upt_least in_range_def)
  have free: "\<not> (dm_contains (tcp_tunnels s) x \<or> dm_contains (reservations s) (RTcp x))"
    using x(2) by (simp add: port_free_def)
  have eq: "reserve_tcp_port None own s =
      (if at_capacity s then (Err (max_tunnels_error (max_slots s)), s)
       else (Ok x, s\<lparr>reservations := dm_insert (RTcp x) own (reservations s)\<rparr>))"
    using free by (simp add: reserve_tcp_port_def Some)
  have "p = x" if "in_range s p" "port_free s p" "\<forall>q<p. in_range s q \<longrightarrow> \<not> port_free s q"
    using that x by (metis linorder_neqE_nat)
  with x show ?thesis by (auto simp: eq max_tunnels_error_def)
qed

theorem reserve_tcp_port_lowest_witness:
  "fst (reserve_tcp_port None ''o'' (new_server_state default_config)) = Ok 10000"
  using reserve_tcp_port_lowest [of "''o''" "new_server_state default_config" 10000]
  by (simp add: new_server_state_def default_config_def default_values at_capacity_def slots_used_def
      max_slots_def in_range_def port_start_def port_end_def port_free_def)

section \<open>The port of a closing listener\<close>

text \<open>
  The port of a closing TCP tunnel is not given out while its listener may still hold the
  socket. When the owner shuts the tunnel down and the listener has not reported, whatever the
  other tasks do short of taking the reservation, the port is still reserved for the closed
  tunnel afterwards and a request for it is refused; the reservation goes only with the report.
\<close>

theorem closing_port_stays_reserved:
  assumes tunnel: "dm_get (tcp_tunnels s) p = Some r" "listener_stopped (ss_heap s r) = Some rx"
    and range: "in_range s p"
    and interf: "\<And>u. dm_get (reservations u) (RTcp p) = Some (ts_id (ss_heap s r)) \<Longrightarrow>
        dm_get (reservations (interf u)) (RTcp p) = Some (ts_id (ss_heap s r)) \<and> ss_config (interf u) = ss_config u"
    and out: "shutdown_tcp_tunnel_if_owner interf in_time p r s = (outcome, s')"
    and silent: "rx \<notin> set (ss_fired s')"
  shows "outcome = Retained r rx \<and> dm_get (reservations s') (RTcp p) = Some (ts_id (ss_heap s r)) \<and>
    fst (reserve_tcp_port (Some p) own s') = Err (TcpPortTaken p)"
proof -
  define s1 where "s1 = snd (remove_tcp_tunnel_if_owner p r s)"
  define s2 where "s2 = interf (modify_session r (\<lambda>t. t\<lparr>listener_stopped := None\<rparr>) s1)"
  have rem: "remove_tcp_tunnel_if_owner p r s = (Some r, s1)"
    using tunnel by (simp add: remove_tcp_tunnel_if_owner_def s1_def)
  have h: "ts_id (ss_heap s1 r) = ts_id (ss_heap s r)" "listener_stopped (ss_heap s1 r) = Some rx"
      "dm_get (reservations s1) (RTcp p) = Some (ts_id (ss_heap s r))" "ss_config s1 = ss_config s"
    using tunnel by (simp_all add: s1_def remove_tcp_tunnel_if_owner_def modify_session_def cancel_session_def dm_simps)
  have r2: "dm_get (reservations s2) (RTcp p) = Some (ts_id (ss_heap s r))" "ss_config s2 = ss_config s"
    using interf [of "modify_session r (\<lambda>t. t\<lparr>listener_stopped := None\<rparr>) s1"] h
    by (simp_all add: s2_def modify_session_def)
  have o: "shutdown_tcp_tunnel_if_owner interf in_time p r s =
      (if in_time \<and> rx \<in> set (ss_fired s2) then (Released r, release_tcp_port_reservation p (ts_id (ss_heap s r)) s2)
       else (Retained r rx, s2\<lparr>tcp_reservations_retained := tcp_reservations_retained s2 + 1\<rparr>))"
    using h by (simp add: shutdown_tcp_tunnel_if_owner_def rem s2_def Let_def)
  have "\<not> (in_time \<and> rx \<in> set (ss_fired s2))"
    using out silent by (auto simp: o release_tcp_port_reservation_def release_reservation_def split: if_splits)
  with out have e: "outcome = Retained r rx" "s' = s2\<lparr>tcp_reservations_retained := tcp_reservations_retained s2 + 1\<rparr>"
    by (auto simp: o split: if_splits)
  have "in_range s' p" using range r2(2) by (simp add: e in_range_def port_start_def port_end_def)
  with e r2 show ?thesis by (simp add: reserve_tcp_port_def)
qed

theorem closing_port_stays_reserved_witness:
  "\<exists>s s'. shutdown_tcp_tunnel_if_owner (\<lambda>u. u) True 10000 0 s = (Retained 0 7, s') \<and>
     fst (reserve_tcp_port (Some 10000) ''other'' s') = Err (TcpPortTaken 10000)"
proof -
  let ?s = "(new_server_state default_config)
    \<lparr>tcp_tunnels := [(10000, 0)], ss_heap := (\<lambda>_. no_session\<lparr>ts_id := ''x'', listener_stopped := Some 7\<rparr>)\<rparr>"
  obtain out s' where o: "shutdown_tcp_tunnel_if_owner (\<lambda>u. u) True 10000 0 ?s = (out, s')" by fastforce
  have t: "dm_get (tcp_tunnels ?s) 10000 = Some 0" "listener_stopped (ss_heap ?s 0) = Some 7" "in_range ?s 10000"
    by (simp_all add: dm_get_def new_server_state_def default_config_def default_values in_range_def
        port_start_def port_end_def)
  have f: "7 \<notin> set (ss_fired s')"
    using o t by (auto simp: shutdown_tcp_tunnel_if_owner_def remove_tcp_tunnel_if_owner_def modify_session_def
        cancel_session_def new_server_state_def Let_def)
  show ?thesis
    using closing_port_stays_reserved [where interf = "\<lambda>u. u" and own = "''other''", OF t _ o f] o by auto
qed

section \<open>The reaper\<close>

lemma idle_modify: "is_idle now t (x\<lparr>idle_cancel := a\<rparr>) = is_idle now t x"
    "is_idle now t (cancel_session x) = is_idle now t x"
    "is_idle now t (x\<lparr>listener_stopped := l\<rparr>) = is_idle now t x"
  by (simp_all add: is_idle_def cancel_session_def)

text \<open>What a task that does not touch a map leaves alone.\<close>

definition same_idle :: "server_state \<Rightarrow> server_state \<Rightarrow> bool" where
  "same_idle s s' \<longleftrightarrow> ss_config s' = ss_config s \<and>
     (\<forall>r now t. is_idle now t (ss_heap s' r) = is_idle now t (ss_heap s r))"

lemma same_idle_refl: "same_idle s s"
  by (simp add: same_idle_def)

lemma same_idle_trans: "same_idle s s' \<Longrightarrow> same_idle s' s'' \<Longrightarrow> same_idle s s''"
  by (simp add: same_idle_def)

lemma notice_frame:
  "tunnels (delete_dns_record api r (try_send c m s)) = tunnels s"
  "tcp_tunnels (delete_dns_record api r (try_send c m s)) = tcp_tunnels s"
  "ss_heap (delete_dns_record api r (try_send c m s)) = ss_heap s"
  "ss_config (delete_dns_record api r (try_send c m s)) = ss_config s"
  by (simp_all add: delete_dns_record_def try_send_def split: option.splits)

text \<open>One round of the HTTP loop, with no other task in between.\<close>

definition reap_one :: "dns_api \<Rightarrow> str \<Rightarrow> session_ref \<Rightarrow> server_state \<Rightarrow> server_state" where
  "reap_one api k r s = (case unregister_tunnel_if_owner k r s of
     (None, s1) \<Rightarrow> s1
   | (Some x, s1) \<Rightarrow> delete_dns_record api x (try_send (control_tx (ss_heap s1 x)) idle_notice s1))"

lemma reap_one_effect:
  "dm_get (tunnels (reap_one api k r s)) j =
     (if j = k \<and> dm_get (tunnels s) k = Some r then None else dm_get (tunnels s) j)"
  "tcp_tunnels (reap_one api k r s) = tcp_tunnels s"
  "same_idle s (reap_one api k r s)"
  by (auto simp: reap_one_def unregister_tunnel_if_owner_def remove_tunnel_if_owner_def notice_frame
      modify_session_def dm_simps same_idle_def idle_modify split: option.splits)

lemma reap_http_Cons: "reap_http api (\<lambda>s. s) ((k, r) # cs) s = reap_http api (\<lambda>s. s) cs (reap_one api k r s)"
  by (simp add: reap_one_def)

lemma reap_http_effect:
  "dm_get (tunnels (reap_http api (\<lambda>s. s) cs s)) j =
     (case dm_get (tunnels s) j of Some r \<Rightarrow> (if (j, r) \<in> set cs then None else Some r) | None \<Rightarrow> None) \<and>
   tcp_tunnels (reap_http api (\<lambda>s. s) cs s) = tcp_tunnels s \<and> same_idle s (reap_http api (\<lambda>s. s) cs s)"
proof (induction cs arbitrary: s)
  case Nil
  then show ?case by (simp add: same_idle_refl split: option.splits)
next
  case (Cons c cs)
  obtain k r where c: "c = (k, r)" by fastforce
  show ?case
    using Cons.IH [of "reap_one api k r s"] reap_one_effect [where api = api and k = k and r = r and s = s]
    unfolding c reap_http_Cons by (auto split: option.splits dest: same_idle_trans)
qed

definition reap_tcp_one :: "dns_api \<Rightarrow> bool \<Rightarrow> port \<Rightarrow> session_ref \<Rightarrow> server_state \<Rightarrow> server_state" where
  "reap_tcp_one api in_time p r s = (case shutdown_tcp_tunnel_if_owner (\<lambda>s. s) in_time p r s of
     (NotOwner, s1) \<Rightarrow> s1
   | (_, s1) \<Rightarrow> delete_dns_record api r (try_send (control_tx (ss_heap s1 r)) idle_notice s1))"

lemma release_frame:
  "tunnels (release_tcp_port_reservation p own s) = tunnels s"
  "tcp_tunnels (release_tcp_port_reservation p own s) = tcp_tunnels s"
  "ss_heap (release_tcp_port_reservation p own s) = ss_heap s"
  "ss_config (release_tcp_port_reservation p own s) = ss_config s"
  by (simp_all add: release_tcp_port_reservation_def release_reservation_def)

lemma shutdown_effect:
  assumes "shutdown_tcp_tunnel_if_owner (\<lambda>s. s) in_time p r s = (out, s1)"
  shows "dm_get (tcp_tunnels s1) j = (if j = p \<and> dm_get (tcp_tunnels s) p = Some r then None else dm_get (tcp_tunnels s) j)"
    "tunnels s1 = tunnels s" "same_idle s s1"
  using assms
  by (auto simp: shutdown_tcp_tunnel_if_owner_def remove_tcp_tunnel_if_owner_def Let_def release_frame
      modify_session_def dm_simps same_idle_def idle_modify split: option.splits if_splits)

lemma reap_tcp_one_effect:
  "dm_get (tcp_tunnels (reap_tcp_one api in_time p r s)) j =
     (if j = p \<and> dm_get (tcp_tunnels s) p = Some r then None else dm_get (tcp_tunnels s) j)"
  "tunnels (reap_tcp_one api in_time p r s) = tunnels s"
  "same_idle s (reap_tcp_one api in_time p r s)"
proof -
  obtain out s1 where o: "shutdown_tcp_tunnel_if_owner (\<lambda>s. s) in_time p r s = (out, s1)" by fastforce
  note e = shutdown_effect [OF o]
  show "dm_get (tcp_tunnels (reap_tcp_one api in_time p r s)) j =
     (if j = p \<and> dm_get (tcp_tunnels s) p = Some r then None else dm_get (tcp_tunnels s) j)"
    by (simp add: reap_tcp_one_def o e notice_frame split: shutdown_outcome.splits)
  show "tunnels (reap_tcp_one api in_time p r s) = tunnels s"
    by (simp add: reap_tcp_one_def o e notice_frame split: shutdown_outcome.splits)
  show "same_idle s (reap_tcp_one api in_time p r s)"
    using e(3) by (simp add: reap_tcp_one_def o same_idle_def notice_frame split: shutdown_outcome.splits)
qed

lemma reap_tcp_Cons:
  "reap_tcp api (\<lambda>s. s) in_time ((p, r) # cs) s = reap_tcp api (\<lambda>s. s) in_time cs (reap_tcp_one api (in_time p) p r s)"
  by (simp add: reap_tcp_one_def)

lemma reap_tcp_effect:
  "dm_get (tcp_tunnels (reap_tcp api (\<lambda>s. s) in_time cs s)) j =
     (case dm_get (tcp_tunnels s) j of Some r \<Rightarrow> (if (j, r) \<in> set cs then None else Some r) | None \<Rightarrow> None) \<and>
   tunnels (reap_tcp api (\<lambda>s. s) in_time cs s) = tunnels s"
proof (induction cs arbitrary: s)
  case Nil
  then show ?case by (simp split: option.splits)
next
  case (Cons c cs)
  obtain p r where c: "c = (p, r)" by fastforce
  show ?case
    using Cons.IH [of "reap_tcp_one api (in_time p) p r s"] reap_tcp_one_effect [where api = api and in_time = "in_time p" and p = p and r = r and s = s]
    unfolding c reap_tcp_Cons by (auto split: option.splits)
qed

lemma in_candidates:
  "dm_wf m \<Longrightarrow> (k, r) \<in> set (idle_candidates now s m) \<longleftrightarrow>
    dm_get m k = Some r \<and> is_idle now (idle_timeout s) (ss_heap s r)"
  by (auto simp: idle_candidates_def dm_get_in)

text \<open>A round alone closes exactly the idle tunnels of a state that satisfies the invariant.\<close>

lemma reap_round:
  fixes now :: nat
  assumes inv: "server_inv s"
  defines "gone \<equiv> \<lambda>r. is_idle now (idle_timeout s) (ss_heap s r)"
  shows "dm_get (tunnels (reap_idle_tunnels api (\<lambda>s. s) in_time now s)) k =
      (case dm_get (tunnels s) k of Some r \<Rightarrow> (if gone r then None else Some r) | None \<Rightarrow> None)"
    "dm_get (tcp_tunnels (reap_idle_tunnels api (\<lambda>s. s) in_time now s)) p =
      (case dm_get (tcp_tunnels s) p of Some r \<Rightarrow> (if gone r then None else Some r) | None \<Rightarrow> None)"
proof -
  define cs where "cs = idle_candidates now s (tunnels s)"
  define s1 where "s1 = reap_http api (\<lambda>s. s) cs s"
  define ps where "ps = idle_candidates now s1 (tcp_tunnels s1)"
  have e: "reap_idle_tunnels api (\<lambda>s. s) in_time now s = reap_tcp api (\<lambda>s. s) in_time ps s1"
    by (simp add: reap_idle_tunnels_def Let_def s1_def cs_def ps_def)
  have wf: "dm_wf (tunnels s)" "dm_wf (tcp_tunnels s)"
    using server_invD(1) [OF inv] by (simp_all add: capacity_inv_def)
  note h = reap_http_effect [of api cs s, folded s1_def]
  have si: "same_idle s s1" "tcp_tunnels s1 = tcp_tunnels s" using h by blast+
  then have t1: "idle_timeout s1 = idle_timeout s" by (simp add: same_idle_def idle_timeout_def)
  have ps: "(p, r) \<in> set ps \<longleftrightarrow> dm_get (tcp_tunnels s) p = Some r \<and> gone r" for r
    using in_candidates [of "tcp_tunnels s1" p r now s1] si wf(2) by (simp add: ps_def t1 same_idle_def gone_def)
  have cs: "(k, r) \<in> set cs \<longleftrightarrow> dm_get (tunnels s) k = Some r \<and> gone r" for r
    unfolding cs_def gone_def by (rule in_candidates [OF wf(1)])
  show "dm_get (tunnels (reap_idle_tunnels api (\<lambda>s. s) in_time now s)) k =
      (case dm_get (tunnels s) k of Some r \<Rightarrow> (if gone r then None else Some r) | None \<Rightarrow> None)"
    using h [of k] reap_tcp_effect [of api in_time ps s1 p] by (simp add: e cs split: option.splits)
  show "dm_get (tcp_tunnels (reap_idle_tunnels api (\<lambda>s. s) in_time now s)) p =
      (case dm_get (tcp_tunnels s) p of Some r \<Rightarrow> (if gone r then None else Some r) | None \<Rightarrow> None)"
    using reap_tcp_effect [of api in_time ps s1 p] by (simp add: e ps si(2) split: option.splits)
qed

text \<open>
  C28: with no other task in between, a round of the reaper closes exactly the idle tunnels: of
  HTTP and of TCP tunnels alike, those with no active stream and no activity for the
  configured time are gone afterwards, and every other tunnel is still there, unchanged.
\<close>

theorem reaper_exact:
  assumes s: "server_reach api c s"
  shows "dm_get (tunnels (reap_idle_tunnels api (\<lambda>s. s) in_time now s)) k =
      (case dm_get (tunnels s) k of
         Some r \<Rightarrow> (if is_idle now (tunnel_idle_timeout_secs (cfg_server c) * 1000) (ss_heap s r) then None else Some r)
       | None \<Rightarrow> None) \<and>
    dm_get (tcp_tunnels (reap_idle_tunnels api (\<lambda>s. s) in_time now s)) p =
      (case dm_get (tcp_tunnels s) p of
         Some r \<Rightarrow> (if is_idle now (tunnel_idle_timeout_secs (cfg_server c) * 1000) (ss_heap s r) then None else Some r)
       | None \<Rightarrow> None)"
proof -
  have t: "tunnel_idle_timeout_secs (cfg_server c) * 1000 = idle_timeout s"
    using server_reach_config [OF s] by (simp add: idle_timeout_def)
  show ?thesis unfolding t using reap_round [OF server_reach_inv [OF s]] by blast
qed

definition idle_setup :: "server_op list" where
  "idle_setup = [OpNewSession (sample_session ''1'' ''old''), OpNewSession ((sample_session ''2'' ''new'')\<lparr>last_activity := 299999\<rparr>),
     OpRegister 0, OpRegister 1]"

lemma run_ops_reach: "server_reach api c s \<Longrightarrow> server_reach api c (run_ops api ops s)"
proof (induction ops arbitrary: s)
  case (Cons x ops)
  then show ?case using SOp by (simp add: run_ops_def)
qed (simp add: run_ops_def)

lemmas setup_eval = run_ops_def idle_setup_def new_session_def new_server_state_def register_tunnel_def
  sample_session_def Let_def owns_reservation_def at_capacity_def slots_used_def max_slots_def
  default_config_def default_values dm_empty_def dm_get_def dm_insert_def dm_len_def is_idle_def no_session_def

theorem reaper_exact_witness:
  "dm_get (tunnels (reap_idle_tunnels no_dns (\<lambda>s. s) (\<lambda>_. True) 300000
     (run_ops no_dns idle_setup (new_server_state default_config)))) ''old'' = None \<and>
   dm_get (tunnels (reap_idle_tunnels no_dns (\<lambda>s. s) (\<lambda>_. True) 300000
     (run_ops no_dns idle_setup (new_server_state default_config)))) ''new'' = Some 1"
proof -
  let ?s = "run_ops no_dns idle_setup (new_server_state default_config)"
  have r: "server_reach no_dns default_config ?s" by (intro run_ops_reach SStart)
  have g: "dm_get (tunnels ?s) ''old'' = Some 0" "dm_get (tunnels ?s) ''new'' = Some 1"
    by (simp_all add: setup_eval)
  have i: "is_idle 300000 (300 * 1000) (ss_heap ?s 0)" "\<not> is_idle 300000 (300 * 1000) (ss_heap ?s 1)"
    by (simp_all add: setup_eval)
  have t: "tunnel_idle_timeout_secs (cfg_server default_config) * 1000 = 300 * 1000"
    by (simp add: default_config_def default_values)
  show ?thesis
    using reaper_exact [OF r, of "\<lambda>_. True" 300000 "''old''" 0] reaper_exact [OF r, of "\<lambda>_. True" 300000 "''new''" 0] g i
    unfolding t by simp
qed

text \<open>
  The reaper acts on the snapshot it took at the start. While it awaits the deletion of one
  tunnel's DNS record, traffic may arrive for the next candidate; that tunnel is then no longer
  idle, is still registered, and is closed all the same.
\<close>

theorem reaper_stale_snapshot:
  assumes "dm_get (tunnels s) k1 = Some r1" "dm_get (tunnels s) k2 = Some r2" "k1 \<noteq> k2"
    and "0 < tunnel_idle_timeout_secs (cfg_server (ss_config s))"
    and "s1 = reap_http api (modify_session r2 (touch later)) [(k1, r1)] s"
  shows "dm_get (tunnels s1) k2 = Some r2 \<and> \<not> is_idle later (idle_timeout s1) (ss_heap s1 r2) \<and>
    dm_get (tunnels (reap_http api (\<lambda>u. u) [(k2, r2)] s1)) k2 = None"
proof -
  have "s1 = modify_session r2 (touch later) (reap_one api k1 r1 s)"
    using assms(1,5) by (simp add: reap_one_def unregister_tunnel_if_owner_def remove_tunnel_if_owner_def)
  moreover note reap_one_effect [where api = api and k = k1 and r = r1 and s = s]
  ultimately have s1: "dm_get (tunnels s1) k2 = Some r2" "ss_config s1 = ss_config s"
      "last_activity (ss_heap s1 r2) = later"
    using assms(2,3) by (auto simp: modify_session_def touch_def same_idle_def)
  moreover have "dm_get (tunnels (reap_http api (\<lambda>u. u) [(k2, r2)] s1)) k2 = None"
    using reap_http_effect [of api "[(k2, r2)]" s1 k2] s1(1) by simp
  ultimately show ?thesis using assms(4) by (simp add: is_idle_def idle_timeout_def)
qed

theorem reaper_stale_snapshot_witness:
  "\<exists>s1. dm_get (tunnels s1) ''new'' = Some 1 \<and> \<not> is_idle 600001 (idle_timeout s1) (ss_heap s1 1) \<and>
     dm_get (tunnels (reap_http no_dns (\<lambda>u. u) [(''new'', 1)] s1)) ''new'' = None"
proof -
  let ?s = "run_ops no_dns idle_setup (new_server_state default_config)"
  have g: "dm_get (tunnels ?s) ''old'' = Some 0" "dm_get (tunnels ?s) ''new'' = Some 1"
      "0 < tunnel_idle_timeout_secs (cfg_server (ss_config ?s))"
    by (simp_all add: setup_eval)
  show ?thesis using reaper_stale_snapshot [OF g(1,2) _ g(3) refl, of no_dns 600001] by auto
qed

section \<open>The ring buffer\<close>

definition store_all :: "str \<Rightarrow> captured_request list \<Rightarrow> server_state \<Rightarrow> server_state" where
  "store_all k cs s = fold (store_capture k) cs s"

lemma ring_step:
  fixes q :: "'a list"
  assumes "length q \<le> max 1 b"
  shows "(if length q \<ge> b then tl q else q) @ [c] = drop (length q + 1 - max 1 b) (q @ [c])"
proof (cases "length q \<ge> b")
  case True
  then consider "q = []" "b = 0" | "q \<noteq> []" "length q = max 1 b"
    using assms by (cases q) (auto simp: max_def split: if_splits)
  then show ?thesis using True by cases (auto simp: drop_Suc)
next
  case False
  then show ?thesis by simp
qed

text \<open>
  The capture buffer is a ring buffer. However many requests are stored for an active
  tunnel, its buffer holds exactly the last \<open>max 1 buffer_size\<close> of them, oldest first, each
  with its sensitive headers removed, and the live viewers are sent every one, in order.
\<close>

theorem capture_ring_buffer:
  assumes "dm_get (captures s) k = Some q"
    and "length q \<le> max 1 (buffer_size (cfg_inspect (ss_config s)))"
  shows "dm_get (captures (store_all k cs s)) k =
      Some (drop (length q + length cs - max 1 (buffer_size (cfg_inspect (ss_config s)))) (q @ map sanitize_capture cs)) \<and>
    inspect_tx (store_all k cs s) = inspect_tx s @ map (\<lambda>c. NewRequest (sanitize_capture c)) cs"
  using assms
proof (induction cs arbitrary: s q)
  case Nil
  then show ?case by (simp add: store_all_def)
next
  case (Cons c cs)
  define m where "m = max 1 (buffer_size (cfg_inspect (ss_config s)))"
  define q' where "q' = drop (length q + 1 - m) (q @ [sanitize_capture c])"
  have st: "dm_get (captures (store_capture k c s)) k = Some q'" "ss_config (store_capture k c s) = ss_config s"
      "inspect_tx (store_capture k c s) = inspect_tx s @ [NewRequest (sanitize_capture c)]"
    using Cons.prems ring_step [of q "buffer_size (cfg_inspect (ss_config s))" "sanitize_capture c"]
    by (simp_all add: store_capture_def Let_def dm_simps q'_def m_def)
  have l: "length q' \<le> m" by (simp add: q'_def)
  have d: "drop (length q' + length cs - m) (q' @ map sanitize_capture cs)
      = drop (length q + length (c # cs) - m) (q @ map sanitize_capture (c # cs))"
  proof -
    have "q' @ map sanitize_capture cs = drop (length q + 1 - m) (q @ map sanitize_capture (c # cs))"
    proof -
      have "q @ map sanitize_capture (c # cs) = (q @ [sanitize_capture c]) @ map sanitize_capture cs" by simp
      then show ?thesis unfolding q'_def by (simp only: drop_append) simp
    qed
    moreover have "length q' + length cs - m + (length q + 1 - m) = length q + length (c # cs) - m"
      using Cons.prems(2) by (auto simp: q'_def m_def)
    ultimately show ?thesis by (simp only: drop_drop)
  qed
  show ?case
    using Cons.IH [of "store_capture k c s" q'] st l d
    by (simp add: store_all_def m_def)
qed

theorem capture_ring_buffer_witness:
  "\<exists>s q. dm_get (captures (store_all ''a'' [sample_capture, sample_capture\<lparr>cap_id := ''2''\<rparr>] s)) ''a'' = Some q
     \<and> map cap_id q = [''2'']"
proof -
  define s where "s = (new_server_state (default_config\<lparr>cfg_inspect := (cfg_inspect default_config)\<lparr>buffer_size := 1\<rparr>\<rparr>))
    \<lparr>captures := [(''a'', [])]\<rparr>"
  have c: "dm_get (captures s) ''a'' = Some []" by (simp add: s_def dm_get_def)
  have m: "max 1 (buffer_size (cfg_inspect (ss_config s))) = 1" by (simp add: s_def new_server_state_def)
  show ?thesis
    using capture_ring_buffer [OF c, of "[sample_capture, sample_capture\<lparr>cap_id := ''2''\<rparr>]"]
    unfolding m by (auto simp: numeral_2_eq_2 intro!: exI [of _ s])
qed

end
