(* ===== verification/Proto_Subdomain.thy ===== *)
theory Proto_Subdomain
  imports Rust_Str
begin

text \<open>
  \<open>subdomain.rs\<close>: the generator of memorable names and the validator every requested name
  passes. The random choices of the generator are its arguments: two indices into the word
  lists and four random bytes.
\<close>

definition ADJECTIVES :: "str list" where
  "ADJECTIVES = [
    ''amber'', ''brave'', ''calm'', ''dark'', ''eager'', ''fair'', ''glad'', ''hale'', ''iron'', ''just'', ''keen'',
    ''lush'', ''mild'', ''neat'', ''open'', ''pale'', ''rare'', ''sage'', ''tall'', ''vast'', ''warm'', ''bold'', ''cool'',
    ''deep'', ''easy'', ''fast'', ''gold'', ''high'', ''jade'', ''kind'', ''lean'', ''moss'', ''nova'', ''opal'', ''pure'',
    ''ruby'', ''silk'', ''teal'', ''true'', ''vivid'', ''wise'', ''airy'', ''blue'', ''crisp'', ''dusk'', ''epic'',
    ''free'', ''gray'', ''hazy'', ''iced'']"

definition NOUNS :: "str list" where
  "NOUNS = [
    ''atlas'', ''beam'', ''coast'', ''dawn'', ''echo'', ''forge'', ''glow'', ''haven'', ''inlet'', ''jewel'', ''knoll'',
    ''lake'', ''mesa'', ''north'', ''orbit'', ''pine'', ''quest'', ''ridge'', ''shore'', ''tide'', ''unity'', ''vale'',
    ''wave'', ''yield'', ''zenith'', ''arch'', ''brook'', ''cliff'', ''delta'', ''field'', ''grove'', ''hill'', ''isle'',
    ''jade'', ''keep'', ''leaf'', ''marsh'', ''nest'', ''oak'', ''peak'', ''reef'', ''storm'', ''trail'', ''umber'',
    ''vine'', ''wind'', ''apex'', ''bay'', ''cove'', ''dune'']"

text \<open>\<open>format!("{:x}", b & 0xF)\<close>: one lower-case hexadecimal digit.\<close>

definition hex_digit :: "8 word \<Rightarrow> byte" where
  "hex_digit b = (let n = unat (and b 0xF) in if n < 10 then char_of (48 + n) else char_of (87 + n))"

text \<open>
  \<open>rng.random_range(0..len)\<close> gives an index below the length: \<open>ai\<close> and \<open>ni\<close> are taken
  modulo the length, so every argument stands for a possible draw.
\<close>

definition generate_subdomain :: "nat \<Rightarrow> nat \<Rightarrow> 8 word \<times> 8 word \<times> 8 word \<times> 8 word \<Rightarrow> str" where
  "generate_subdomain ai ni bs = (case bs of (b0, b1, b2, b3) \<Rightarrow>
     (let adj = ADJECTIVES ! (ai mod length ADJECTIVES);
          noun = NOUNS ! (ni mod length NOUNS);
          suffix = map hex_digit [b0, b1, b2, b3]
      in adj @ ''-'' @ noun @ ''-'' @ suffix))"

definition is_ascii_lowercase :: "byte \<Rightarrow> bool" where
  "is_ascii_lowercase c = (97 \<le> byte_val c \<and> byte_val c \<le> 122)"

definition is_ascii_digit :: "byte \<Rightarrow> bool" where
  "is_ascii_digit c = (48 \<le> byte_val c \<and> byte_val c \<le> 57)"

definition subdomain_char :: "byte \<Rightarrow> bool" where
  "subdomain_char c = (is_ascii_lowercase c \<or> is_ascii_digit c \<or> c = CHR ''-'')"

definition RESERVED :: "str list" where
  "RESERVED = [''www'', ''api'', ''mail'', ''smtp'', ''ftp'', ''admin'', ''dashboard'', ''status'',
    ''health'', ''metrics'', ''internal'']"

definition validate_subdomain :: "str \<Rightarrow> (str, unit) result" where
  "validate_subdomain sub =
     (if length sub < 3 then Err ''subdomain must be at least 3 characters''
      else if length sub > 40 then Err ''subdomain must be at most 40 characters''
      else if \<not> list_all subdomain_char sub
        then Err ''subdomain may only contain lowercase letters, digits, and hyphens''
      else if starts_with ''-'' sub \<or> ends_with ''-'' sub
        then Err ''subdomain must not start or end with a hyphen''
      else if sub \<in> set RESERVED
        then Err (''subdomain '' @ [CHR 0x27] @ sub @ [CHR 0x27] @ '' is reserved'')
      else Ok ())"

section \<open>What a valid name is\<close>

lemma starts_with_hyphen: "starts_with [c] s \<longleftrightarrow> s \<noteq> [] \<and> hd s = c"
  by (cases s) (auto simp: starts_with_def)

lemma ends_with_hyphen: "ends_with [c] s \<longleftrightarrow> s \<noteq> [] \<and> last s = c"
  by (cases s rule: rev_cases) (auto simp: ends_with_def strip_suffix_def)

text \<open>
  A requested name is accepted exactly when it is a DNS label the proxy can route: 3 to 40
  bytes of lower-case letters, digits and hyphens, no hyphen at either end, not reserved.
\<close>

theorem validate_subdomain_iff:
  "validate_subdomain s = Ok () \<longleftrightarrow>
     3 \<le> length s \<and> length s \<le> 40 \<and> list_all subdomain_char s \<and>
     hd s \<noteq> CHR ''-'' \<and> last s \<noteq> CHR ''-'' \<and> s \<notin> set RESERVED"
  by (auto simp: validate_subdomain_def starts_with_hyphen ends_with_hyphen)

section \<open>The generator is accepted by the validator\<close>

definition word_ok :: "str \<Rightarrow> bool" where
  "word_ok w = (3 \<le> length w \<and> length w \<le> 6 \<and> list_all is_ascii_lowercase w)"

lemma adjectives_ok: "list_all word_ok ADJECTIVES"
  by (simp add: ADJECTIVES_def word_ok_def is_ascii_lowercase_def byte_val_def)

lemma nouns_ok: "list_all word_ok NOUNS"
  by (simp add: NOUNS_def word_ok_def is_ascii_lowercase_def byte_val_def)

lemma ADJECTIVES_ne: "0 < length ADJECTIVES"
  by (simp add: ADJECTIVES_def)

lemma NOUNS_ne: "0 < length NOUNS"
  by (simp add: NOUNS_def)

lemma hex_digit_ok: "is_ascii_digit (hex_digit b) \<or> is_ascii_lowercase (hex_digit b)"
proof -
  have "unat (and b 0xF) < 16"
    using word_and_le1 [of b "0xF"] by (simp add: word_le_nat_alt)
  then show ?thesis
    by (auto simp: hex_digit_def is_ascii_digit_def is_ascii_lowercase_def byte_val_def Let_def)
qed

lemma word_ok_chars: "word_ok w \<Longrightarrow> list_all subdomain_char w"
  by (auto simp: word_ok_def subdomain_char_def list_all_iff)

lemma reserved_no_hyphen: "s \<in> set RESERVED \<Longrightarrow> CHR ''-'' \<notin> set s"
  by (auto simp: RESERVED_def)

lemma hyphen_not_alnum: "\<not> is_ascii_lowercase (CHR ''-'')" "\<not> is_ascii_digit (CHR ''-'')"
  by (simp_all add: is_ascii_lowercase_def is_ascii_digit_def byte_val_def)

text \<open>
  Whatever the random generator draws, the generated name passes the validator, so the
  name the server assigns is one a client may ask for again after a reconnect.
\<close>

theorem generate_subdomain_valid: "validate_subdomain (generate_subdomain ai ni bs) = Ok ()"
proof -
  obtain b0 b1 b2 b3 where bs: "bs = (b0, b1, b2, b3)" by (cases bs)
  define adj where "adj = ADJECTIVES ! (ai mod length ADJECTIVES)"
  define noun where "noun = NOUNS ! (ni mod length NOUNS)"
  define suf where "suf = map hex_digit [b0, b1, b2, b3]"
  have gen: "generate_subdomain ai ni bs = adj @ ''-'' @ noun @ ''-'' @ suf"
    by (simp add: generate_subdomain_def bs adj_def noun_def suf_def)
  have adj: "word_ok adj"
    using adjectives_ok ADJECTIVES_ne by (simp add: adj_def list_all_length)
  have noun: "word_ok noun"
    using nouns_ok NOUNS_ne by (simp add: noun_def list_all_length)
  have suf: "list_all subdomain_char suf" "last suf \<noteq> CHR ''-''" "length suf = 4"
    using hex_digit_ok [of b0] hex_digit_ok [of b1] hex_digit_ok [of b2] hex_digit_ok [of b3] hyphen_not_alnum
    by (auto simp: suf_def subdomain_char_def)
  have "adj \<noteq> []" using adj by (auto simp: word_ok_def)
  then have "hd adj \<noteq> CHR ''-''"
    using adj hyphen_not_alnum by (cases adj) (auto simp: word_ok_def)
  moreover have "adj @ ''-'' @ noun @ ''-'' @ suf \<notin> set RESERVED"
    using reserved_no_hyphen by fastforce
  ultimately show ?thesis
    unfolding validate_subdomain_iff gen
    using adj noun suf word_ok_chars \<open>adj \<noteq> []\<close>
    by (auto simp: word_ok_def subdomain_char_def)
qed

end
