(* ===== verification/Proto_Transport.thy ===== *)
theory Proto_Transport
  imports Proto_Messages
begin

text \<open>
  \<open>transport.rs\<close>: the adapter that turns WebSocket messages into a byte stream (\<open>WsCompat\<close>),
  the driver task that shares one yamux connection between inbound streams and open requests,
  and the length-prefixed framing of control messages. What the crates deliver (the polls of
  the WebSocket and of the yamux connection, the MessagePack codec) is input of the model.
\<close>

section \<open>The WebSocket adapter\<close>

datatype ws_msg = Binary bytes | Close | Ping bytes | Pong bytes | Frame bytes | Text str

text \<open>What one poll of the WebSocket stream gives; \<open>PollPending\<close> is nothing yet.\<close>

datatype ws_poll = PollMsg ws_msg | PollErr str | PollEnd | PollPending

datatype 'a poll = Pending | Ready 'a

text \<open>The polls still to come are part of the state; an exhausted list polls \<open>Pending\<close>.\<close>

record ws_compat =
  inner :: "ws_poll list"
  read_buf :: bytes
  closed :: bool

definition ws_new :: "ws_poll list \<Rightarrow> ws_compat" where
  "ws_new s = \<lparr>inner = s, read_buf = [], closed = False\<rparr>"

text \<open>The loop of \<open>poll_read\<close>: the polls are consumed until one decides the result.\<close>

fun poll_loop :: "nat \<Rightarrow> ws_compat \<Rightarrow> ws_poll list \<Rightarrow> (str, bytes) result poll \<times> ws_compat" where
  "poll_loop k w [] = (Pending, w\<lparr>inner := []\<rparr>)"
| "poll_loop k w (PollMsg (Binary data) # ps) =
     (if data = [] then poll_loop k w ps
      else (let n = min k (length data) in
        (Ready (Ok (take n data)),
         w\<lparr>inner := ps, read_buf := read_buf w @ (if n < length data then drop n data else [])\<rparr>)))"
| "poll_loop k w (PollMsg Close # ps) = (Ready (Ok []), w\<lparr>inner := ps, closed := True\<rparr>)"
| "poll_loop k w (PollMsg _ # ps) = poll_loop k w ps"
| "poll_loop k w (PollErr e # ps) = (Ready (Err e), w\<lparr>inner := ps\<rparr>)"
| "poll_loop k w (PollEnd # ps) = (Ready (Ok []), w\<lparr>inner := ps, closed := True\<rparr>)"
| "poll_loop k w (PollPending # ps) = (Pending, w\<lparr>inner := ps\<rparr>)"

text \<open>\<open>poll_read\<close> into a buffer of \<open>k\<close> bytes: the bytes written to it.\<close>

definition poll_read :: "nat \<Rightarrow> ws_compat \<Rightarrow> (str, bytes) result poll \<times> ws_compat" where
  "poll_read k w =
     (if closed w then (Ready (Ok []), w)
      else if read_buf w \<noteq> [] then
        (let n = min k (length (read_buf w)) in
          (Ready (Ok (take n (read_buf w))), w\<lparr>read_buf := drop n (read_buf w)\<rparr>))
      else poll_loop k w (inner w))"

text \<open>
  \<open>poll_write\<close>: the sink's readiness and the result of \<open>start_send\<close> come from the WebSocket;
  the message handed over is the second component.
\<close>

definition poll_write ::
  "(str, unit) result poll \<Rightarrow> (str, unit) result \<Rightarrow> bytes \<Rightarrow> (str, nat) result poll \<times> ws_msg list" where
  "poll_write ready send buf = (case ready of
     Ready (Inr _) \<Rightarrow> (case send of
         Inr _ \<Rightarrow> (Ready (Ok (length buf)), [Binary buf])
       | Inl e \<Rightarrow> (Ready (Err e), []))
   | Ready (Inl e) \<Rightarrow> (Ready (Err e), [])
   | Pending \<Rightarrow> (Pending, []))"

text \<open>A reader's history: one read per buffer size.\<close>

fun ws_reads :: "nat list \<Rightarrow> ws_compat \<Rightarrow> (str, bytes) result poll list \<times> ws_compat" where
  "ws_reads [] w = ([], w)"
| "ws_reads (k # ks) w = (case poll_read k w of (r, w1) \<Rightarrow>
     (case ws_reads ks w1 of (rs, w2) \<Rightarrow> (r # rs, w2)))"

fun delivered :: "(str, bytes) result poll \<Rightarrow> bytes" where
  "delivered (Ready (Inr d)) = d"
| "delivered _ = []"

text \<open>The abstract view: the bytes the peer sent that the reader has not seen yet.\<close>

fun payload :: "ws_poll list \<Rightarrow> bytes" where
  "payload [] = []"
| "payload (PollMsg (Binary d) # ps) = d @ payload ps"
| "payload (PollMsg Close # ps) = []"
| "payload (PollEnd # ps) = []"
| "payload (_ # ps) = payload ps"

definition unread :: "ws_compat \<Rightarrow> bytes" where
  "unread w = (if closed w then [] else read_buf w @ payload (inner w))"

lemma poll_loop_conserves:
  "closed w = False \<Longrightarrow> read_buf w = [] \<Longrightarrow> poll_loop k w ps = (r, w') \<Longrightarrow>
   delivered r @ unread w' = payload ps"
  by (induction k w ps rule: poll_loop.induct) (auto simp: unread_def Let_def split: if_splits)

lemma poll_read_conserves: "poll_read k w = (r, w') \<Longrightarrow> delivered r @ unread w' = unread w"
  using poll_loop_conserves [of w k "inner w" r w']
  by (auto simp: poll_read_def unread_def Let_def split: if_splits)

lemma ws_reads_conserve:
  "ws_reads ks w = (rs, w') \<Longrightarrow> concat (map delivered rs) @ unread w' = unread w"
proof (induction ks arbitrary: w rs w')
  case Nil
  then show ?case by simp
next
  case (Cons k ks)
  obtain r w1 where r: "poll_read k w = (r, w1)" by (cases "poll_read k w")
  obtain qs w2 where qs: "ws_reads ks w1 = (qs, w2)" by (cases "ws_reads ks w1")
  from Cons.prems r qs have "rs = r # qs" "w' = w2" by simp_all
  then show ?case using poll_read_conserves [OF r] Cons.IH [OF qs] by simp
qed

text \<open>
  C26: the adapter is a faithful byte stream. Whatever buffer sizes the reader uses and
  wherever control frames, empty messages, errors and pending polls fall, the bytes delivered
  so far followed by the bytes still unread are the peer's payload: nothing is lost,
  duplicated or reordered, and once the adapter reports the end, all of it was delivered.
\<close>

theorem ws_stream_faithful:
  assumes "ws_reads ks (ws_new ps) = (rs, w')"
  shows "concat (map delivered rs) @ unread w' = payload ps \<and>
    (closed w' \<longrightarrow> concat (map delivered rs) = payload ps)"
proof -
  have "unread (ws_new ps) = payload ps" by (simp add: unread_def ws_new_def)
  moreover have "closed w' \<Longrightarrow> unread w' = []" by (simp add: unread_def)
  ultimately show ?thesis using ws_reads_conserve [OF assms] by auto
qed

theorem ws_stream_faithful_witness:
  "\<exists>rs w'. ws_reads [2, 2, 8, 8] (ws_new [PollMsg (Binary ''abc''), PollMsg (Ping ''x''), PollMsg (Binary ''d''), PollEnd]) = (rs, w')
     \<and> concat (map delivered rs) = ''abcd''"
proof -
  let ?ps = "[PollMsg (Binary ''abc''), PollMsg (Ping ''x''), PollMsg (Binary ''d''), PollEnd]"
  obtain rs w' where e: "ws_reads [2, 2, 8, 8] (ws_new ?ps) = (rs, w')"
    by (cases "ws_reads [2, 2, 8, 8] (ws_new ?ps)")
  then have "closed w'" by (auto simp: ws_new_def poll_read_def)
  with ws_stream_faithful [OF e] have "concat (map delivered rs) = ''abcd''" by simp
  with e show ?thesis by blast
qed

lemma poll_loop_eof:
  "closed w = False \<Longrightarrow> poll_loop k w ps = (Ready (Ok []), w') \<Longrightarrow> k > 0 \<Longrightarrow> closed w'"
  by (induction k w ps rule: poll_loop.induct) (auto simp: Let_def min_def split: if_splits)

text \<open>
  A read of zero bytes into a non-empty buffer is the end of the stream: the adapter is
  closed, nothing is unread, and every later read is the end again. An empty or control
  message is never mistaken for it.
\<close>

theorem ws_eof_is_final:
  assumes "poll_read k w = (Ready (Ok []), w')" "k > 0"
  shows "closed w' \<and> unread w' = [] \<and> poll_read j w' = (Ready (Ok []), w')"
proof -
  have "closed w'"
    using assms poll_loop_eof [of w k "inner w" w']
    by (auto simp: poll_read_def Let_def min_def split: if_splits)
  then show ?thesis by (simp add: unread_def poll_read_def)
qed

theorem ws_eof_is_final_witness:
  "poll_read 4 (ws_new [PollMsg (Ping ''x''), PollMsg Close, PollMsg (Binary ''late'')])
     = (Ready (Ok []), \<lparr>inner = [PollMsg (Binary ''late'')], read_buf = [], closed = True\<rparr>) \<and>
   poll_read 9 \<lparr>inner = [PollMsg (Binary ''late'')], read_buf = [], closed = True\<rparr>
     = (Ready (Ok []), \<lparr>inner = [PollMsg (Binary ''late'')], read_buf = [], closed = True\<rparr>)"
proof -
  let ?w = "ws_new [PollMsg (Ping ''x''), PollMsg Close, PollMsg (Binary ''late'')]"
  let ?v = "\<lparr>inner = [PollMsg (Binary ''late'')], read_buf = [], closed = True\<rparr>"
  have "poll_read 4 ?w = (Ready (Ok []), ?v)" by (simp add: poll_read_def ws_new_def)
  then show ?thesis using ws_eof_is_final [of 4 ?w ?v 9] by simp
qed

text \<open>What one side writes is what the other side's adapter has to read.\<close>

lemma poll_write_message:
  "poll_write (Ready (Ok ())) (Ok ()) buf = (Ready (Ok (length buf)), [Binary buf])"
  by (simp add: poll_write_def)

lemma payload_binaries: "payload (map (PollMsg \<circ> Binary) bufs) = concat bufs"
  by (induction bufs) auto

lemma ws_wire_roundtrip:
  assumes "ws_reads ks (ws_new (map (PollMsg \<circ> Binary) bufs @ [PollEnd])) = (rs, w')" "closed w'"
  shows "concat (map delivered rs) = concat bufs"
proof -
  have "payload (map (PollMsg \<circ> Binary) bufs @ [PollEnd]) = concat bufs"
    by (induction bufs) auto
  then show ?thesis
    using ws_reads_conserve [OF assms(1)] assms(2) by (simp add: unread_def ws_new_def)
qed

section \<open>The yamux driver\<close>

text \<open>
  \<open>spawn_yamux_driver\<close>: one task drives the connection, hands inbound streams to a channel and
  answers the open requests of \<open>YamuxControl::open_stream\<close>. A request is its \<open>oneshot\<close> sender,
  identified by a number; \<open>replies\<close> are the values sent on those senders. What one poll of the
  connection gives is input.
\<close>

datatype 's inbound = InStream 's | InErr str | InDone

record 's driver =
  pending_reply :: "nat option"
  open_rx :: "nat list"
  replies :: "(nat \<times> (str, 's) result) list"
  inbound_tx :: "'s list"
  running :: bool
  at_head :: bool

definition driver_start :: "'s driver" where
  "driver_start = \<lparr>pending_reply = None, open_rx = [], replies = [], inbound_tx = [], running = True, at_head = True\<rparr>"

text \<open>\<open>YamuxControl::open_stream\<close> puts the request on the channel.\<close>

definition open_stream :: "nat \<Rightarrow> 's driver \<Rightarrow> 's driver" where
  "open_stream r d = d\<lparr>open_rx := open_rx d @ [r]\<rparr>"

datatype 's driver_event =
    Inbound 's | InboundError | InboundDone | OutboundReady "(str, 's) result" | OpenRequest nat

text \<open>The non-blocking check at the head of the loop.\<close>

definition driver_try_recv :: "'s driver \<Rightarrow> 's driver" where
  "driver_try_recv d = (case pending_reply d of
     Some _ \<Rightarrow> d\<lparr>at_head := False\<rparr>
   | None \<Rightarrow> (case open_rx d of
        [] \<Rightarrow> d\<lparr>at_head := False\<rparr>
      | r # rs \<Rightarrow> d\<lparr>at_head := False, pending_reply := Some r, open_rx := rs\<rparr>))"

text \<open>The body of \<open>poll_fn\<close>, with the polls of the connection: inbound first, then outbound.\<close>

definition driver_poll ::
  "'s inbound poll \<Rightarrow> (str, 's) result poll \<Rightarrow> 's driver \<Rightarrow> 's driver_event poll \<times> 's driver" where
  "driver_poll inb outb d =
     (let tail = (case inb of
          Ready (InStream s) \<Rightarrow> Ready (Inbound s)
        | Ready (InErr e) \<Rightarrow> Ready InboundError
        | Ready InDone \<Rightarrow> Ready InboundDone
        | Pending \<Rightarrow> Pending)
      in case pending_reply d of
          Some _ \<Rightarrow> (case outb of Ready r \<Rightarrow> (Ready (OutboundReady r), d) | Pending \<Rightarrow> (tail, d))
        | None \<Rightarrow> (case open_rx d of
              r # rs \<Rightarrow> (Ready (OpenRequest r), d\<lparr>open_rx := rs\<rparr>)
            | [] \<Rightarrow> (tail, d)))"

text \<open>The handling of the event; \<open>gone\<close> says that the receiver of inbound streams was dropped.\<close>

fun handle_event :: "bool \<Rightarrow> 's driver_event \<Rightarrow> 's driver \<Rightarrow> 's driver" where
  "handle_event gone (Inbound s) d =
     (if gone then d\<lparr>running := False\<rparr> else d\<lparr>inbound_tx := inbound_tx d @ [s]\<rparr>)"
| "handle_event gone InboundError d = d\<lparr>running := False\<rparr>"
| "handle_event gone InboundDone d = d\<lparr>running := False\<rparr>"
| "handle_event gone (OutboundReady r) d = (case pending_reply d of
     Some q \<Rightarrow> d\<lparr>pending_reply := None, replies := replies d @ [(q, r)]\<rparr>
   | None \<Rightarrow> d)"
| "handle_event gone (OpenRequest q) d = d\<lparr>pending_reply := Some q\<rparr>"

text \<open>
  What the rest of the program and the connection do, in the order they do it: a request is
  sent, or the driver task is polled. The driver task runs the head of the loop again only
  after an event; a \<open>Pending\<close> poll leaves it in \<open>poll_fn\<close>, which is repeated as it is.
\<close>

datatype 's driver_input = Request nat | Polled "'s inbound poll" "(str, 's) result poll" bool

fun driver_step :: "'s driver_input \<Rightarrow> 's driver \<Rightarrow> 's driver" where
  "driver_step (Request q) d = (if running d then open_stream q d else d)"
| "driver_step (Polled inb outb gone) d =
     (if \<not> running d then d
      else (case driver_poll inb outb (if at_head d then driver_try_recv d else d) of
          (Pending, d1) \<Rightarrow> d1
        | (Ready ev, d1) \<Rightarrow> (handle_event gone ev d1)\<lparr>at_head := True\<rparr>))"

definition driver_run :: "'s driver_input list \<Rightarrow> 's driver \<Rightarrow> 's driver" where
  "driver_run ins d = fold driver_step ins d"

text \<open>The requests the driver has accepted, in order: answered, pending, waiting.\<close>

definition accepted :: "'s driver \<Rightarrow> nat list" where
  "accepted d = map fst (replies d) @ (case pending_reply d of Some q \<Rightarrow> [q] | None \<Rightarrow> []) @ open_rx d"

fun requested :: "'s driver_input list \<Rightarrow> nat list" where
  "requested [] = []"
| "requested (Request q # ins) = q # requested ins"
| "requested (Polled _ _ _ # ins) = requested ins"

lemma accepted_try_recv [simp]: "accepted (driver_try_recv d) = accepted d"
  by (simp add: accepted_def driver_try_recv_def split: option.splits list.splits)

lemma accepted_poll:
  assumes "driver_poll inb outb d = (Ready ev, d1)"
  shows "accepted (handle_event gone ev d1) = accepted d"
proof (cases "pending_reply d")
  case None
  with assms show ?thesis
    by (cases "open_rx d"; cases inb rule: poll.exhaust)
      (auto simp: accepted_def driver_poll_def split: inbound.splits)
next
  case (Some q)
  with assms show ?thesis
    by (cases outb; cases inb rule: poll.exhaust)
      (auto simp: accepted_def driver_poll_def split: inbound.splits)
qed

lemma accepted_poll_Pending: "driver_poll inb outb d = (Pending, d1) \<Longrightarrow> d1 = d"
  by (auto simp: driver_poll_def Let_def split: option.splits list.splits poll.splits inbound.splits)

lemma accepted_head [simp]: "accepted (d\<lparr>at_head := b\<rparr>) = accepted d"
  by (simp add: accepted_def)

lemma accepted_request: "running d \<Longrightarrow> accepted (driver_step (Request q) d) = accepted d @ [q]"
  by (simp add: accepted_def open_stream_def)

lemma accepted_polled: "accepted (driver_step (Polled inb outb gone) d) = accepted d"
proof -
  define e where "e = (if at_head d then driver_try_recv d else d)"
  have e: "accepted e = accepted d" by (simp add: e_def)
  obtain p d1 where p: "driver_poll inb outb e = (p, d1)" by (cases "driver_poll inb outb e")
  show ?thesis
    using e p accepted_poll [of inb outb e _ d1 gone] accepted_poll_Pending [of inb outb e d1]
    by (cases p) (simp_all add: e_def [symmetric])
qed

lemma driver_run_simps [simp]:
  "driver_run [] d = d" "driver_run (i # ins) d = driver_run ins (driver_step i d)"
  by (simp_all add: driver_run_def)

lemma running_step_mono: "running (driver_step i d) \<Longrightarrow> running d"
  by (cases i) (auto split: if_splits)

lemma running_run_mono: "running (driver_run ins d) \<Longrightarrow> running d"
proof (induction ins arbitrary: d)
  case (Cons i ins)
  then show ?case using running_step_mono [of i d] by simp
qed simp

lemma accepted_run:
  "running (driver_run ins d) \<Longrightarrow> accepted (driver_run ins d) = accepted d @ requested ins"
proof (induction ins arbitrary: d)
  case Nil
  then show ?case by simp
next
  case (Cons i ins)
  have d: "running d" using Cons.prems running_run_mono by blast
  show ?case
  proof (cases i)
    case (Request q)
    then show ?thesis
      using Cons.IH [of "driver_step i d"] Cons.prems accepted_request [OF d] by simp
  next
    case (Polled inb outb gone)
    then show ?thesis
      using Cons.IH [of "driver_step i d"] Cons.prems accepted_polled [of inb outb gone d]
      by (simp del: driver_step.simps)
  qed
qed

text \<open>
  While the driver runs, every request to open a stream is answered at most once and in
  the order of the requests: the answered requests, the one being opened and the waiting ones
  are together exactly the requests sent, each as often as it was sent.
\<close>

theorem driver_answers_in_order:
  assumes "running (driver_run ins driver_start)"
  shows "requested ins = map fst (replies (driver_run ins driver_start)) @
    (case pending_reply (driver_run ins driver_start) of Some q \<Rightarrow> [q] | None \<Rightarrow> []) @
    open_rx (driver_run ins driver_start)"
proof -
  have "accepted (driver_start :: 'a driver) = []" by (simp add: accepted_def driver_start_def)
  then show ?thesis using accepted_run [OF assms] by (simp add: accepted_def)
qed

lemmas driver_eval = driver_run_def driver_start_def open_stream_def driver_poll_def driver_try_recv_def

theorem driver_answers_in_order_witness:
  "map fst (replies (driver_run [Request 7, Request 8, Polled Pending Pending False,
      Polled Pending (Ready (Ok ''s'')) False] driver_start)) = [7]"
proof -
  let ?ins = "[Request 7, Request 8, Polled Pending Pending False,
      Polled Pending (Ready (Ok ''s'')) False] :: str driver_input list"
  have d: "driver_run ?ins driver_start =
    \<lparr>pending_reply = None, open_rx = [8], replies = [(7, Ok ''s'')], inbound_tx = [], running = True, at_head = True\<rparr>"
    by (simp add: driver_eval)
  have "requested ?ins = map fst (replies (driver_run ?ins driver_start)) @
    (case pending_reply (driver_run ?ins driver_start) of Some q \<Rightarrow> [q] | None \<Rightarrow> []) @
    open_rx (driver_run ?ins driver_start)"
    by (rule driver_answers_in_order) (simp only: d, simp)
  then show ?thesis by (simp only: d, simp)
qed

text \<open>
  A stream the peer opened is handed to the receiver when no open request is in progress;
  but when the same poll completes or picks up an open request, the driver forgets the stream
  it has just taken from the connection: it is never delivered.
\<close>

theorem driver_inbound_delivery:
  assumes "running d" "\<not> at_head d"
  shows "inbound_tx (driver_step (Polled (Ready (InStream s)) outb False) d) =
    (if (if pending_reply d = None then open_rx d = [] else outb = Pending)
     then inbound_tx d @ [s] else inbound_tx d)"
proof (cases "pending_reply d")
  case None
  with assms show ?thesis by (cases "open_rx d") (simp_all add: driver_poll_def)
next
  case (Some q)
  with assms show ?thesis by (cases outb) (simp_all add: driver_poll_def)
qed

theorem driver_inbound_delivery_witness:
  "inbound_tx (driver_step (Polled (Ready (InStream ''in'')) (Ready (Ok ''out'')) False)
     (driver_start\<lparr>pending_reply := Some 7, at_head := False\<rparr>)) = []"
proof -
  let ?d = "driver_start\<lparr>pending_reply := Some 7, at_head := False\<rparr> :: str driver"
  have "running ?d" "\<not> at_head ?d" by (simp_all add: driver_start_def)
  from driver_inbound_delivery [OF this, of "''in''" "Ready (Ok ''out'')"]
  show ?thesis by (simp add: driver_start_def)
qed

section \<open>Framing of control messages\<close>

definition u32_to_be :: "32 word \<Rightarrow> bytes" where
  "u32_to_be w = [char_of (unat (drop_bit 24 w)), char_of (unat (drop_bit 16 w)),
                  char_of (unat (drop_bit 8 w)), char_of (unat w)]"

fun u32_from_be :: "bytes \<Rightarrow> 32 word" where
  "u32_from_be [a, b, c, d] =
     word_of_nat (((byte_val a * 256 + byte_val b) * 256 + byte_val c) * 256 + byte_val d)"
| "u32_from_be _ = 0"

lemma length_u32_to_be [simp]: "length (u32_to_be w) = 4"
  by (simp add: u32_to_be_def)

lemma u32_be_roundtrip [simp]: "u32_from_be (u32_to_be w) = w"
proof -
  define n where "n = unat w"
  have n: "n < 2 ^ 32" using unsigned_less [where w = w] by (simp add: n_def)
  have step: "(m div 256) * 256 + m mod 256 = m" for m :: nat by simp
  have "n div 2 ^ 24 mod 256 = n div 2 ^ 16 div 256" using n by (simp add: div_mult2_eq [symmetric])
  moreover have "n div 2 ^ 16 = n div 2 ^ 8 div 256" "n div 2 ^ 8 = n div 256"
    by (simp_all add: div_mult2_eq [symmetric])
  ultimately have "(((n div 2 ^ 24 mod 256) * 256 + n div 2 ^ 16 mod 256) * 256 + n div 2 ^ 8 mod 256) * 256 + n mod 256 = n"
    by (simp only: step)
  then have "word_of_nat ((((n div 2 ^ 24 mod 256) * 256 + n div 2 ^ 16 mod 256) * 256
      + n div 2 ^ 8 mod 256) * 256 + n mod 256) = w"
    by (simp only: n_def) simp
  then show ?thesis
    unfolding u32_to_be_def u32_from_be.simps byte_val_def of_char_of
    by (simp only: unat_drop_bit_eq drop_bit_nat_def n_def)
qed

datatype frame_error = UnexpectedEof | TooLarge nat | DecodeError str | EncodeError str

definition MAX_FRAME :: nat where
  "MAX_FRAME = 1048576"

text \<open>\<open>read_exact\<close> on a stream that holds \<open>s\<close> and then ends.\<close>

definition read_exact :: "nat \<Rightarrow> bytes \<Rightarrow> (frame_error, bytes \<times> bytes) result" where
  "read_exact n s = (if length s < n then Err UnexpectedEof else Ok (take n s, drop n s))"

definition read_msg_from_stream ::
  "(bytes \<Rightarrow> (str, 'm) result) \<Rightarrow> bytes \<Rightarrow> (frame_error, 'm \<times> bytes) result" where
  "read_msg_from_stream decode s =
     and_then (read_exact 4 s) (\<lambda>(len_buf, s1).
       (let len = unat (u32_from_be len_buf) in
        if len > MAX_FRAME then Err (TooLarge len)
        else and_then (read_exact len s1) (\<lambda>(buf, s2).
          (case decode buf of Inl e \<Rightarrow> Err (DecodeError e) | Inr m \<Rightarrow> Ok (m, s2)))))"

text \<open>The bytes \<open>write_msg_to_stream\<close> writes; the length is cast with \<open>as u32\<close>.\<close>

definition write_msg_to_stream ::
  "('m \<Rightarrow> (str, bytes) result) \<Rightarrow> 'm \<Rightarrow> (frame_error, bytes) result" where
  "write_msg_to_stream encode m = (case encode m of
     Inl e \<Rightarrow> Err (EncodeError e)
   | Inr data \<Rightarrow> Ok (u32_to_be (word_of_nat (length data)) @ data))"

lemma read_exact_append: "length a = n \<Longrightarrow> read_exact n (a @ b) = Ok (a, b)"
  by (simp add: read_exact_def)

lemma unat_length_word: "length d < 2 ^ 32 \<Longrightarrow> unat (word_of_nat (length d) :: 32 word) = length d"
  by (simp add: unat_of_nat take_bit_eq_mod)

lemma read_frame:
  assumes "length d < 2 ^ 32"
  shows "read_msg_from_stream decode (u32_to_be (word_of_nat (length d)) @ d @ rest) =
    (if length d > MAX_FRAME then Err (TooLarge (length d))
     else (case decode d of Inl e \<Rightarrow> Err (DecodeError e) | Inr m \<Rightarrow> Ok (m, rest)))"
  unfolding read_msg_from_stream_def
  by (simp add: read_exact_append unat_length_word [OF assms] Let_def)

text \<open>Reading a sequence of messages off one stream.\<close>

fun read_msgs :: "(bytes \<Rightarrow> (str, 'm) result) \<Rightarrow> nat \<Rightarrow> bytes \<Rightarrow> (frame_error, 'm list \<times> bytes) result" where
  "read_msgs decode 0 s = Ok ([], s)"
| "read_msgs decode (Suc n) s = and_then (read_msg_from_stream decode s) (\<lambda>(m, s1).
     and_then (read_msgs decode n s1) (\<lambda>(ms, s2). Ok (m # ms, s2)))"

text \<open>
  C27: the framing is a round trip. Messages whose encoding fits in 1 MiB, written one after
  the other and followed by anything, are read back in order, and the rest of the stream is
  left untouched, for every codec that decodes what it encodes.
\<close>

theorem frames_roundtrip:
  assumes codec: "\<And>m. m \<in> set ms \<Longrightarrow> \<exists>d. encode m = Ok d \<and> decode d = Ok m \<and> length d \<le> MAX_FRAME"
    and frames: "list_all2 (\<lambda>m f. write_msg_to_stream encode m = Ok f) ms fs"
  shows "read_msgs decode (length ms) (concat fs @ rest) = Ok (ms, rest)"
  using frames codec
proof (induction ms fs rule: list_all2_induct)
  case Nil
  then show ?case by simp
next
  case (Cons m ms f fs)
  from Cons.prems [of m] obtain d
    where d: "encode m = Ok d" "decode d = Ok m" "length d \<le> MAX_FRAME" by auto
  then have f: "f = u32_to_be (word_of_nat (length d)) @ d"
    using Cons.hyps(1) by (simp add: write_msg_to_stream_def)
  have "length d < 2 ^ 32" using d(3) by (simp add: MAX_FRAME_def)
  then have "read_msg_from_stream decode (f @ concat fs @ rest) = Ok (m, concat fs @ rest)"
    using d read_frame [of d decode "concat fs @ rest"] by (simp add: f)
  moreover have "read_msgs decode (length ms) (concat fs @ rest) = Ok (ms, rest)"
    by (rule Cons.IH) (use Cons.prems in auto)
  ultimately show ?case by simp
qed

theorem frames_roundtrip_witness:
  "\<exists>fs. list_all2 (\<lambda>m f. write_msg_to_stream (\<lambda>m. Ok m) m = Ok f) [''ab'', ''c''] fs \<and>
    read_msgs (\<lambda>d. Ok d) (length [''ab'', ''c'']) (concat fs @ ''tail'') = Ok ([''ab'', ''c''], ''tail'')"
proof -
  let ?fs = "[u32_to_be (word_of_nat (length ''ab'')) @ ''ab'', u32_to_be (word_of_nat (length ''c'')) @ ''c'']"
  have l: "list_all2 (\<lambda>m f. write_msg_to_stream (\<lambda>m. Ok m) m = Ok f) [''ab'', ''c''] ?fs"
    by (simp add: write_msg_to_stream_def)
  have "read_msgs (\<lambda>d. Ok d) (length [''ab'', ''c'']) (concat ?fs @ ''tail'') = Ok ([''ab'', ''c''], ''tail'')"
    by (rule frames_roundtrip [OF _ l]) (auto simp: MAX_FRAME_def)
  with l show ?thesis by blast
qed

text \<open>
  The reader's limit is not the writer's. An encoding above 1 MiB (and below 4 GiB) is
  written without complaint, and the peer's reader rejects exactly that frame as too large.
\<close>

theorem oversized_frame_rejected:
  assumes "encode m = Ok d" "MAX_FRAME < length d" "length d < 2 ^ 32"
  shows "\<exists>f. write_msg_to_stream encode m = Ok f \<and>
    read_msg_from_stream decode (f @ rest) = Err (TooLarge (length d))"
  using assms read_frame [of d decode rest] by (auto simp: write_msg_to_stream_def)

theorem oversized_frame_rejected_witness:
  "\<exists>f. write_msg_to_stream (\<lambda>m. Ok m) (replicate 1048577 (CHR ''x'')) = Ok f \<and>
    read_msg_from_stream (\<lambda>d. Ok d) (f @ ''rest'') =
      (Err (TooLarge (length (replicate 1048577 (CHR ''x'')))) :: (frame_error, bytes \<times> bytes) result)"
  by (rule oversized_frame_rejected) (simp_all only: length_replicate MAX_FRAME_def, simp_all)

end
