(* ===== verification/Control.thy ===== *)
theory Control
  imports Tunnel_Properties Proto_Subdomain Proto_Transport
begin

text \<open>
  \<open>control.rs\<close>: the control plane. One connection is authenticated (\<open>authenticate\<close>), its messages
  are handled one at a time by the control loop (\<open>loop_step\<close>, \<open>handle_control_msg\<close>), and its
  tunnels are removed when the loop ends (\<open>cleanup\<close>). The handler is one task among many: at
  each of its awaits the other tasks run, which is the function \<open>during_dns\<close> or \<open>during_bind\<close> of
  its environment. Sending to the connection's bounded queue waits for room; the loop that runs
  the handler is the queue's only consumer, so a full queue blocks the handler for ever
  (\<open>Blocked\<close>); \<open>unreachable!\<close> is \<open>Panicked\<close>.
\<close>

section \<open>Authentication\<close>

text \<open>The messages written to the client and, if it is let in, its claims and session id.\<close>

record auth_outcome =
  auth_sent :: "server_msg list"
  auth_session :: "(token_claims \<times> str) option"

definition rejected :: "server_msg list \<Rightarrow> auth_outcome" where
  "rejected ms = \<lparr>auth_sent = ms, auth_session = None\<rparr>"

text \<open>
  From the accepted connection to \<open>AuthOk\<close>: whether the client opened its control stream in
  time, the first message within its deadline, the JWT codec, the clock, the new session id and
  whether writing \<open>AuthOk\<close> succeeded are inputs.
\<close>

definition authenticate ::
  "(str \<Rightarrow> str \<Rightarrow> (str, token_claims) result) \<Rightarrow> (str, 64 word) result \<Rightarrow> str \<Rightarrow> bool \<Rightarrow> bool \<Rightarrow>
   (frame_error, client_msg) result timed \<Rightarrow> server_state \<Rightarrow> auth_outcome" where
  "authenticate decode clock uuid opened write_ok first s =
     (if \<not> opened then rejected []
      else case first of
          Elapsed \<Rightarrow> rejected []
        | Completed (Inl e) \<Rightarrow> rejected []
        | Completed (Inr (CAuth token version)) \<Rightarrow>
            (if version \<noteq> CONTROL_PROTOCOL_VERSION then
               rejected [SAuthErr (''protocol version mismatch: client='' @ version @ '', server='' @ CONTROL_PROTOCOL_VERSION)]
             else if auth_tokens (cfg_auth (ss_config s)) \<noteq> [] \<and> token \<notin> set (auth_tokens (cfg_auth (ss_config s))) then
               rejected [SAuthErr ''token is not authorized'']
             else (case validate_token decode clock token (auth_secret (cfg_auth (ss_config s))) of
                 Inl e \<Rightarrow> rejected [SAuthErr ''invalid auth token'']
               | Inr claims \<Rightarrow>
                   (if is_jti_revoked (tk_jti claims) s then rejected [SAuthErr ''token has been revoked'']
                    else \<lparr>auth_sent = [SAuthOk uuid],
                      auth_session = (if write_ok then Some (claims, uuid) else None)\<rparr>)))
        | Completed (Inr _) \<Rightarrow> rejected [SError 401 ''first message must be Auth''])"

section \<open>One connection\<close>

record connection =
  conn :: conn_ref
  conn_jti :: str
  written :: "server_msg list"
  registered_subdomains :: "(str \<times> session_ref) list"
  registered_tcp_ports :: "(port \<times> session_ref) list"
  conn_open :: bool

datatype 'a run = Done 'a | Blocked | Panicked

text \<open>What the handler takes from outside: random names, bcrypt, the DNS API, the sockets, the
  clock, the id of the new \<open>oneshot\<close>, and what the other tasks do at its awaits.\<close>

record ctl_env =
  generated :: str
  env_bcrypt :: "str \<Rightarrow> nat \<Rightarrow> (str, str) result"
  env_dns :: dns_api
  env_bind :: "port \<Rightarrow> (str, unit) result"
  env_now :: nat
  env_oneshot :: oneshot_id
  during_dns :: "server_state \<Rightarrow> server_state"
  during_bind :: "server_state \<Rightarrow> server_state"

text \<open>\<open>control_tx.send(..).await\<close>; the result is ignored, so a dead receiver changes nothing.\<close>

definition chan_send :: "conn_ref \<Rightarrow> server_msg \<Rightarrow> server_state \<Rightarrow> server_state run" where
  "chan_send c m s =
     (if \<not> chan_alive (ss_chan s c) then Done s
      else if length (chan_queue (ss_chan s c)) < CONTROL_CAPACITY then
        Done (s\<lparr>ss_chan := (ss_chan s)(c := (ss_chan s c)\<lparr>chan_queue := chan_queue (ss_chan s c) @ [m]\<rparr>)\<rparr>)
      else Blocked)"

fun run_map :: "('a \<Rightarrow> 'b) \<Rightarrow> 'a run \<Rightarrow> 'b run" where
  "run_map f (Done a) = Done (f a)"
| "run_map f Blocked = Blocked"
| "run_map f Panicked = Panicked"

definition reply :: "server_msg \<Rightarrow> connection \<Rightarrow> server_state \<Rightarrow> (connection \<times> server_state) run" where
  "reply m k s = run_map (\<lambda>s. (k, s)) (chan_send (conn k) m s)"

section \<open>The tunnel request\<close>

fun reserve_code :: "tunnel_error \<Rightarrow> nat" where
  "reserve_code (TcpPortOutOfRange _ _ _) = 400"
| "reserve_code (TcpPortTaken _) = 409"
| "reserve_code (NoPortsAvailable _ _) = 503"
| "reserve_code (CapacityExceeded _) = 503"
| "reserve_code (SubdomainTaken _) = 409"
| "reserve_code _ = 500"

text \<open>The name or port is reserved before any slow step.\<close>

fun reserve_slot ::
  "tunnel_type \<Rightarrow> str \<Rightarrow> str \<Rightarrow> server_state \<Rightarrow> (tunnel_error, port option) result \<times> server_state" where
  "reserve_slot (Tcp remote_port) assigned tid s =
     (case reserve_tcp_port remote_port tid s of
        (Inl e, s1) \<Rightarrow> (Err e, s1)
      | (Inr p, s1) \<Rightarrow> (Ok (Some p), s1))"
| "reserve_slot _ assigned tid s =
     (case reserve_http_tunnel assigned tid s of
        (Inl e, s1) \<Rightarrow> (Err e, s1)
      | (Inr _, s1) \<Rightarrow> (Ok None, s1))"

fun release_slot :: "port option \<Rightarrow> str \<Rightarrow> str \<Rightarrow> server_state \<Rightarrow> server_state" where
  "release_slot (Some p) assigned tid s = release_tcp_port_reservation p tid s"
| "release_slot None assigned tid s = release_http_tunnel assigned tid s"

fun dns_for ::
  "ctl_env \<Rightarrow> tunnel_type \<Rightarrow> str \<Rightarrow> server_state \<Rightarrow> (str, str option) result \<times> server_state" where
  "dns_for env (Tcp _) assigned s = (Ok None, s)"
| "dns_for env _ assigned s =
     (case create_dns_record (env_dns env) assigned s of (r, s1) \<Rightarrow> (r, during_dns env s1))"

fun public_url :: "tunnel_type \<Rightarrow> port option \<Rightarrow> str \<Rightarrow> str \<Rightarrow> str option" where
  "public_url (Tcp _) (Some p) assigned domain = Some (''tcp://'' @ domain @ '':'' @ show_nat p)"
| "public_url (Tcp _) None assigned domain = None"
| "public_url _ None assigned domain = Some (''https://'' @ assigned @ ''.'' @ domain)"
| "public_url _ (Some p) assigned domain = None"

fun ack_type :: "tunnel_type \<Rightarrow> port option \<Rightarrow> tunnel_type" where
  "ack_type (Tcp _) p = Tcp p"
| "ack_type t p = t"

definition publish_http ::
  "ctl_env \<Rightarrow> str \<Rightarrow> tunnel_type \<Rightarrow> str \<Rightarrow> str \<Rightarrow> session_ref \<Rightarrow> connection \<Rightarrow> server_state \<Rightarrow>
   (connection \<times> server_state) run" where
  "publish_http env tid tt assigned url r k s =
     (case register_tunnel r s of
        (Inl e, s1) \<Rightarrow>
          run_map (\<lambda>(k, s). (k, delete_dns_record (env_dns env) r s))
            (reply (SError 409 (show_tunnel_error e)) k (release_http_tunnel assigned tid s1))
      | (Inr _, s1) \<Rightarrow>
          reply (STunnelAck tid url (ack_type tt None))
            (k\<lparr>registered_subdomains := registered_subdomains k @ [(assigned, r)]\<rparr>) s1)"

definition publish_tcp ::
  "ctl_env \<Rightarrow> str \<Rightarrow> tunnel_type \<Rightarrow> port \<Rightarrow> str \<Rightarrow> session_ref \<Rightarrow> connection \<Rightarrow> server_state \<Rightarrow>
   (connection \<times> server_state) run" where
  "publish_tcp env tid tt p url r k s =
     (let s1 = during_bind env s in
      case env_bind env p of
        Inl e \<Rightarrow> reply (SError 500 (''failed to bind TCP port '' @ show_nat p @ '': '' @ e)) k
            (release_tcp_port_reservation p tid s1)
      | Inr _ \<Rightarrow>
          (let s2 = modify_session r (\<lambda>t. t\<lparr>listener_stopped := Some (env_oneshot env)\<rparr>) s1 in
           case try_register_tcp_tunnel p r s2 of
             (Inl e, s3) \<Rightarrow> reply (SError 409 (show_tunnel_error e)) k (release_tcp_port_reservation p tid s3)
           | (Inr _, s3) \<Rightarrow>
               reply (STunnelAck tid url (ack_type tt (Some p)))
                 (k\<lparr>registered_tcp_ports := registered_tcp_ports k @ [(p, r)]\<rparr>) s3))"

definition session_of ::
  "ctl_env \<Rightarrow> connection \<Rightarrow> str \<Rightarrow> tunnel_type \<Rightarrow> str \<Rightarrow> str option \<Rightarrow> str option \<Rightarrow> tunnel_options \<Rightarrow>
   str option \<Rightarrow> tunnel_session" where
  "session_of env k tid tt assigned user hash options rec =
     \<lparr>ts_id = tid, ts_tunnel_type = tt, ts_subdomain = assigned, basic_auth_username = user,
      basic_auth_hash = hash, ts_options = options, created_at = env_now env, last_activity = env_now env,
      active_streams = 0, dns_record_id = rec, idle_cancel = False, control_tx = conn k,
      stream_state = conn k, ts_cancel = False, listener_stopped = None, cached_auth_fingerprint = None\<rparr>"

definition assign_subdomain :: "ctl_env \<Rightarrow> str option \<Rightarrow> (str, str) result" where
  "assign_subdomain env subdomain = (case subdomain of
     Some x \<Rightarrow> and_then (validate_subdomain x) (\<lambda>_. Ok x)
   | None \<Rightarrow> Ok (generated env))"

definition hash_of :: "ctl_env \<Rightarrow> basic_auth_config option \<Rightarrow> (str, str option) result" where
  "hash_of env basic_auth = (case basic_auth of
     Some ba \<Rightarrow> and_then (hash_basic_auth_password (env_bcrypt env) (password ba)) (\<lambda>h. Ok (Some h))
   | None \<Rightarrow> Ok None)"

definition handle_tunnel_request ::
  "ctl_env \<Rightarrow> str \<Rightarrow> tunnel_type \<Rightarrow> str option \<Rightarrow> basic_auth_config option \<Rightarrow> tunnel_options \<Rightarrow>
   connection \<Rightarrow> server_state \<Rightarrow> (connection \<times> server_state) run" where
  "handle_tunnel_request env tid tt subdomain basic_auth options k s =
     (case assign_subdomain env subdomain of
        Inl e \<Rightarrow> reply (SError 400 e) k s
      | Inr assigned \<Rightarrow>
        (case reserve_slot tt assigned tid s of
           (Inl e, s1) \<Rightarrow> reply (SError (reserve_code e) (show_tunnel_error e)) k s1
         | (Inr tcp_port, s1) \<Rightarrow>
           (case hash_of env basic_auth of
              Inl e \<Rightarrow> reply (SError 500 (''Failed to hash password: '' @ e)) k (release_slot tcp_port assigned tid s1)
            | Inr hash \<Rightarrow>
              (case dns_for env tt assigned s1 of
                 (Inl e, s2) \<Rightarrow> reply (SError 503 e) k (release_http_tunnel assigned tid s2)
               | (Inr rec, s2) \<Rightarrow>
                 (case public_url tt tcp_port assigned (sc_domain (cfg_server (ss_config s2))) of
                    None \<Rightarrow> Panicked
                  | Some url \<Rightarrow>
                    (case new_session (session_of env k tid tt assigned (map_option username basic_auth) hash options rec) s2 of
                       (r, s3) \<Rightarrow>
                         (case tcp_port of
                            None \<Rightarrow> publish_http env tid tt assigned url r k s3
                          | Some p \<Rightarrow> publish_tcp env tid tt p url r k s3)))))))"

fun handle_control_msg ::
  "ctl_env \<Rightarrow> client_msg \<Rightarrow> connection \<Rightarrow> server_state \<Rightarrow> (connection \<times> server_state) run" where
  "handle_control_msg env (CTunnelRequest tid tt subdomain basic_auth options) k s =
     handle_tunnel_request env tid tt subdomain basic_auth options k s"
| "handle_control_msg env (CPing seq) k s = reply (SPong seq) k s"
| "handle_control_msg env (CStreamAck cid) k s = Done (k, s)"
| "handle_control_msg env (CAuth token version) k s = Done (k, s)"

section \<open>The control loop\<close>

datatype loop_event =
    FromClient "(frame_error, client_msg) result" ctl_env
  | FromQueue bool
  | Cancelled
  | EpochChanged bool bool

definition revocation_notice :: server_msg where
  "revocation_notice = SError 401 ''token has been revoked''"

definition close_revoked :: "bool \<Rightarrow> connection \<Rightarrow> connection" where
  "close_revoked write_ok k =
     k\<lparr>written := written k @ (if write_ok then [revocation_notice] else []), conn_open := False\<rparr>"

text \<open>
  One round of the loop: the check at its head, then the event the \<open>select!\<close> picked. The flags
  say whether the writes succeed, and whether the epoch's sender is gone.
\<close>

fun loop_step ::
  "bool \<Rightarrow> loop_event \<Rightarrow> connection \<Rightarrow> server_state \<Rightarrow> (connection \<times> server_state) run" where
  "loop_step head_ok ev k s =
     (if is_jti_revoked (conn_jti k) s then Done (close_revoked head_ok k, s)
      else case ev of
          FromClient (Inl e) env \<Rightarrow> Done (k\<lparr>conn_open := False\<rparr>, s)
        | FromClient (Inr m) env \<Rightarrow> handle_control_msg env m k s
        | FromQueue write_ok \<Rightarrow>
            (case chan_queue (ss_chan s (conn k)) of
               [] \<Rightarrow> Done (k, s)
             | m # ms \<Rightarrow>
                 (let s1 = s\<lparr>ss_chan := (ss_chan s)(conn k := (ss_chan s (conn k))\<lparr>chan_queue := ms\<rparr>)\<rparr>
                  in if write_ok then Done (k\<lparr>written := written k @ [m]\<rparr>, s1)
                     else Done (k\<lparr>conn_open := False\<rparr>, s1)))
        | Cancelled \<Rightarrow> (if ss_cancelled s then Done (k\<lparr>conn_open := False\<rparr>, s) else Done (k, s))
        | EpochChanged gone write_ok \<Rightarrow>
            (if gone \<or> is_jti_revoked (conn_jti k) s then Done (close_revoked write_ok k, s) else Done (k, s)))"

section \<open>Cleanup\<close>

fun cleanup_http ::
  "dns_api \<Rightarrow> (server_state \<Rightarrow> server_state) \<Rightarrow> (str \<times> session_ref) list \<Rightarrow> server_state \<Rightarrow> server_state" where
  "cleanup_http api interf [] s = s"
| "cleanup_http api interf ((n, r) # ts) s =
     cleanup_http api interf ts
       (case unregister_tunnel_if_owner n r s of
          (None, s1) \<Rightarrow> s1
        | (Some x, s1) \<Rightarrow> interf (delete_dns_record api x s1))"

fun cleanup_tcp ::
  "dns_api \<Rightarrow> (server_state \<Rightarrow> server_state) \<Rightarrow> (port \<Rightarrow> bool) \<Rightarrow> (port \<times> session_ref) list \<Rightarrow>
   server_state \<Rightarrow> server_state" where
  "cleanup_tcp api interf in_time [] s = s"
| "cleanup_tcp api interf in_time ((p, r) # ts) s =
     cleanup_tcp api interf in_time ts
       (case shutdown_tcp_tunnel_if_owner interf (in_time p) p r s of
          (NotOwner, s1) \<Rightarrow> s1
        | (_, s1) \<Rightarrow> interf (delete_dns_record api r s1))"

definition cleanup ::
  "dns_api \<Rightarrow> (server_state \<Rightarrow> server_state) \<Rightarrow> (port \<Rightarrow> bool) \<Rightarrow> connection \<Rightarrow> server_state \<Rightarrow> server_state" where
  "cleanup api interf in_time k s =
     cleanup_tcp api interf in_time (registered_tcp_ports k) (cleanup_http api interf (registered_subdomains k) s)"

text \<open>The task of a TCP listener after its accept loop ended.\<close>

definition tcp_listener_done :: "dns_api \<Rightarrow> port \<Rightarrow> session_ref \<Rightarrow> oneshot_id \<Rightarrow> server_state \<Rightarrow> server_state" where
  "tcp_listener_done api p r stopped_tx s =
     (case remove_tcp_tunnel_if_owner p r (s\<lparr>ss_fired := stopped_tx # ss_fired s\<rparr>) of
        (None, s1) \<Rightarrow> s1
      | (Some x, s1) \<Rightarrow>
          delete_dns_record api x (release_tcp_port_reservation p (ts_id (ss_heap s1 x)) s1))"

section \<open>Data streams\<close>

text \<open>A pending request is the sender of a \<open>oneshot\<close>; \<open>receiver_alive\<close> says whether it is awaited.\<close>

definition resolve_pending_stream ::
  "('t \<Rightarrow> bool) \<Rightarrow> 32 word \<Rightarrow> 't stream_registry \<Rightarrow> (bool \<times> 't option) \<times> 't stream_registry" where
  "resolve_pending_stream receiver_alive correlation_id g =
     (case dm_get (pending_streams g) correlation_id of
        None \<Rightarrow> ((False, None), g)
      | Some tx \<Rightarrow>
          ((receiver_alive tx, if receiver_alive tx then Some tx else None),
           g\<lparr>pending_streams := dm_remove correlation_id (pending_streams g)\<rparr>))"

text \<open>\<open>id_bytes\<close> is what arrived within five seconds.\<close>

definition handle_proxy_data_stream ::
  "('t \<Rightarrow> bool) \<Rightarrow> bytes timed \<Rightarrow> 't stream_registry \<Rightarrow> 't option \<times> 't stream_registry" where
  "handle_proxy_data_stream receiver_alive id_bytes g =
     (case id_bytes of
        Elapsed \<Rightarrow> (None, g)
      | Completed b \<Rightarrow>
          (case read_exact 4 b of
             Inl e \<Rightarrow> (None, g)
           | Inr (id_buf, _) \<Rightarrow>
               (case resolve_pending_stream receiver_alive (u32_from_be id_buf) g of
                  ((_, tx), g1) \<Rightarrow> (tx, g1))))"

section \<open>The listener of the control plane\<close>

text \<open>The period of the reaper task, in seconds: the idle timeout clamped to a minute.\<close>

definition reaper_period :: "server_state \<Rightarrow> nat" where
  "reaper_period s = max 1 (min 60 (tunnel_idle_timeout_secs (cfg_server (ss_config s))))"

text \<open>
  One accepted connection: with TLS, the acceptor is built from the latest certificate, with the
  one of the start as a fallback. The handshake and the WebSocket upgrade are parameters; the
  result says whether \<open>handle_client\<close> runs, and over which acceptor.
\<close>

definition serve_connection ::
  "'acc option \<Rightarrow> 'acc option \<Rightarrow> ('acc \<Rightarrow> (str, 'ts) result) \<Rightarrow> ('ts \<Rightarrow> (str, 'ws) result) \<Rightarrow>
   (str, 'ws) result \<Rightarrow> ('acc option \<times> 'ws) option" where
  "serve_connection tls_acceptor latest accept upgrade plain_upgrade =
     (case tls_acceptor of
        Some initial \<Rightarrow>
          (let acceptor = (case latest of Some a \<Rightarrow> a | None \<Rightarrow> initial) in
           case accept acceptor of
             Inl e \<Rightarrow> None
           | Inr tls_stream \<Rightarrow> (case upgrade tls_stream of Inl e \<Rightarrow> None | Inr ws \<Rightarrow> Some (Some acceptor, ws)))
      | None \<Rightarrow> (case plain_upgrade of Inl e \<Rightarrow> None | Inr ws \<Rightarrow> Some (None, ws)))"

section \<open>Who is let in\<close>

text \<open>
  C4: the authentication gate. A connection becomes a session, and is told \<open>AuthOk\<close>, exactly when
  it opened its control stream in time, its first message was an \<open>Auth\<close> of the server's own
  protocol version, the token is on the allow list (if there is one), validates under the
  server's secret and is not revoked; every other connection gets at most one error message.
\<close>

theorem auth_gate:
  fixes decode clock uuid opened write_ok first s
  defines "out \<equiv> authenticate decode clock uuid opened write_ok first s"
  shows "(auth_session out = Some (claims, sid) \<longleftrightarrow>
      opened \<and> write_ok \<and> sid = uuid \<and>
      (\<exists>token. first = Completed (Ok (CAuth token CONTROL_PROTOCOL_VERSION)) \<and>
        (auth_tokens (cfg_auth (ss_config s)) = [] \<or> token \<in> set (auth_tokens (cfg_auth (ss_config s)))) \<and>
        validate_token decode clock token (auth_secret (cfg_auth (ss_config s))) = Ok claims \<and>
        \<not> is_jti_revoked (tk_jti claims) s)) \<and>
    (write_ok \<and> auth_session out = None \<longrightarrow>
      (\<forall>m\<in>set (auth_sent out). (\<exists>r. m = SAuthErr r) \<or> (\<exists>r. m = SError 401 r)) \<and> length (auth_sent out) \<le> 1)"
  unfolding out_def authenticate_def rejected_def
  by (auto split: timed.splits sum.splits client_msg.splits)

theorem auth_gate_witness:
  "auth_session (authenticate (\<lambda>t k. Ok \<lparr>tk_sub = ''ci'', tk_iat = 0, tk_exp = None, tk_jti = ''j'', tk_ver = 1\<rparr>)
     (Ok 0) ''sid'' True True (Completed (Ok (CAuth ''t'' ''9.9.9''))) (new_server_state default_config)) = None"
  using auth_gate [of "\<lambda>t k. Ok \<lparr>tk_sub = ''ci'', tk_iat = 0, tk_exp = None, tk_jti = ''j'', tk_ver = 1\<rparr>" "Ok 0" "''sid''"
      True True "Completed (Ok (CAuth ''t'' ''9.9.9''))" "new_server_state default_config"]
  by (cases "auth_session (authenticate (\<lambda>t k. Ok \<lparr>tk_sub = ''ci'', tk_iat = 0, tk_exp = None, tk_jti = ''j'', tk_ver = 1\<rparr>)
     (Ok 0) ''sid'' True True (Completed (Ok (CAuth ''t'' ''9.9.9''))) (new_server_state default_config))")
    (auto simp: CONTROL_PROTOCOL_VERSION_def)

end
