(* ===== verification/Proxy_Flow.thy ===== *)
theory Proxy_Flow
  imports Http_Proxy Control
begin

text \<open>
  The public side of \<open>proxy.rs\<close>: routing a request by its host, the Basic gate with its cache,
  the limits on request bodies, the exchange with the tunnel, the response handed to the
  visitor, the capture and replay. What the \<open>hyper\<close> and \<open>http\<close>
  crates deliver (the parsed request, the frames of its body, which header fields they accept) is
  input, and so is the local service: a function from the bytes written into the tunnel stream to
  the stream that comes back. \<open>None\<close> in place of a response is an exchange that never ends.
\<close>

record proxy_response =
  resp_code :: nat
  resp_fields :: headers
  resp_content :: bytes

definition error_response :: "nat \<Rightarrow> str \<Rightarrow> proxy_response" where
  "error_response status message =
     \<lparr>resp_code = status, resp_fields = [(''Content-Type'', ''text/plain'')], resp_content = message\<rparr>"

definition unauthorized_response :: proxy_response where
  "unauthorized_response =
     \<lparr>resp_code = 401, resp_fields = [(''WWW-Authenticate'', ''Basic realm='' @ [CHR 0x22] @ ''rgrok'' @ [CHR 0x22])],
      resp_content = ''Unauthorized''\<rparr>"

record proxy_env =
  px_b64 :: "str \<Rightarrow> bytes option"
  px_bcrypt :: "str \<Rightarrow> str \<Rightarrow> (str, bool) result"
  px_permit :: bool
  px_sha :: "bytes \<Rightarrow> bytes"
  px_now :: nat
  px_elapsed :: nat
  px_uuid :: str
  px_slots :: nat
  px_slots_closed :: bool
  px_open :: "(bytes \<Rightarrow> stream) option"
  px_write_ok :: bool
  px_valid :: "str \<Rightarrow> str \<Rightarrow> bool"
  px_waiting :: "server_state \<Rightarrow> server_state"
  px_exchange :: "server_state \<Rightarrow> server_state"

section \<open>The request body\<close>

datatype body_read_error = BodyRead | BodyTooLarge

text \<open>The frames of the body, or the error that ends it, under the limit of \<open>Limited\<close>.\<close>

fun collect_frames :: "(str, bytes) result list \<Rightarrow> nat \<Rightarrow> bytes \<Rightarrow> (body_read_error, bytes) result" where
  "collect_frames [] limit acc = Ok acc"
| "collect_frames (Inl e # fs) limit acc = Err BodyRead"
| "collect_frames (Inr d # fs) limit acc =
     (if length d > limit - length acc then Err BodyTooLarge else collect_frames fs limit (acc @ d))"

definition collect_body_limited :: "(str, bytes) result list \<Rightarrow> nat \<Rightarrow> (body_read_error, bytes) result" where
  "collect_body_limited frames limit = collect_frames frames limit []"

section \<open>Asking the client for a stream\<close>

text \<open>
  \<open>request_proxy_stream\<close>: register the request under a fresh correlation id, send \<open>StreamOpen\<close>,
  wait. During the send and during the wait the other tasks of the connection change the registry
  (\<open>sending\<close>, \<open>waiting\<close>); their flags say whether the queue took the message and whether the
  stream was delivered by the deadline.
\<close>

definition begin_stream :: "'t \<Rightarrow> 't stream_registry \<Rightarrow> 32 word \<times> 't stream_registry" where
  "begin_stream tx g = (case take_correlation_id g of (cid, g1) \<Rightarrow>
     (cid, g1\<lparr>pending_streams := dm_insert cid tx (pending_streams g1)\<rparr>))"

definition request_proxy_stream ::
  "('t stream_registry \<Rightarrow> bool \<times> 't stream_registry) \<Rightarrow> ('t stream_registry \<Rightarrow> bool \<times> 't stream_registry) \<Rightarrow>
   't \<Rightarrow> 't stream_registry \<Rightarrow> bool \<times> 't stream_registry" where
  "request_proxy_stream sending waiting tx g =
     (case begin_stream tx g of (cid, g1) \<Rightarrow>
       (case sending g1 of
          (False, g2) \<Rightarrow> (False, g2\<lparr>pending_streams := dm_remove cid (pending_streams g2)\<rparr>)
        | (True, g2) \<Rightarrow>
            (case waiting g2 of
               (True, g3) \<Rightarrow> (True, g3)
             | (False, g3) \<Rightarrow> (False, g3\<lparr>pending_streams := dm_remove cid (pending_streams g3)\<rparr>))))"

section \<open>The exchange with the tunnel\<close>

definition bounded_body :: "bytes \<Rightarrow> bytes option" where
  "bounded_body b = (if b = [] then None else Some (take (min (length b) MAX_INSPECTION_BODY) b))"

text \<open>The capture of a request when it starts.\<close>

definition request_capture ::
  "proxy_env \<Rightarrow> str \<Rightarrow> bool \<Rightarrow> prepared_request \<Rightarrow> tunnel_session \<Rightarrow> captured_request" where
  "request_capture env capture_id is_replay request t =
     \<lparr>cap_id = capture_id, captured_at = px_now env, duration_ms = None, cap_tunnel_id = ts_id t,
      req_method = rq_method request,
      req_url = (case rq_path_and_query request of Some p \<Rightarrow> p | None \<Rightarrow> ''/''),
      req_headers = concat (map (\<lambda>(n, v). case value_to_str v of Some x \<Rightarrow> [(n, x)] | None \<Rightarrow> []) (rq_headers request)),
      req_body = bounded_body (rq_body request),
      req_body_truncated = (length (rq_body request) > MAX_INSPECTION_BODY),
      resp_status = None, resp_headers = None, resp_body = None, resp_body_truncated = False,
      remote_addr = (if is_replay then ''replay'' else []), tls_version = None\<rparr>"

text \<open>The latest capture with the id gets the response; the loop walks backwards and stops.\<close>

fun update_first :: "str \<Rightarrow> (captured_request \<Rightarrow> captured_request) \<Rightarrow> captured_request list \<Rightarrow> captured_request list" where
  "update_first i f [] = []"
| "update_first i f (c # cs) = (if cap_id c = i then f c # cs else c # update_first i f cs)"

definition complete_capture ::
  "proxy_env \<Rightarrow> str \<Rightarrow> str \<Rightarrow> parsed_http_response \<Rightarrow> server_state \<Rightarrow> server_state" where
  "complete_capture env subdomain i r s =
     (let s1 = s\<lparr>inspect_tx := inspect_tx s @ [RequestCompleted i (px_elapsed env) (pr_status_code r)]\<rparr>;
          upd = (\<lambda>c. c\<lparr>duration_ms := Some (px_elapsed env), resp_status := Some (pr_status_code r),
            resp_headers := Some (sanitize_headers (pr_headers r)), resp_body := bounded_body (pr_body r),
            resp_body_truncated := (length (pr_body r) > MAX_INSPECTION_BODY)\<rparr>)
      in case dm_get (captures s1) subdomain of
           None \<Rightarrow> s1
         | Some queue \<Rightarrow>
             s1\<lparr>captures := dm_insert subdomain (rev (update_first i upd (rev queue))) (captures s1)\<rparr>)"

text \<open>The fields of the response handed to the visitor.\<close>

definition response_fields :: "str \<Rightarrow> parsed_http_response \<Rightarrow> headers \<Rightarrow> headers" where
  "response_fields request_method r extra =
     (let hop_by_hop = hop_by_hop_header_names (pr_headers r);
          kept = filter (\<lambda>(n, v). \<not> (is_hop_by_hop n hop_by_hop \<or> eq_ignore_ascii_case n ''content-length'')) (pr_headers r);
          source = header_values (pr_headers r) ''content-length'';
          len = (if request_method = ''HEAD'' then (case source of [] \<Rightarrow> [] | v # _ \<Rightarrow> [(''Content-Length'', v)])
                 else if response_has_no_body request_method (pr_status_code r) then [(''Content-Length'', ''0'')]
                 else [(''Content-Length'', show_nat (length (pr_body r)))])
      in kept @ len @ [(''Strict-Transport-Security'', ''max-age=31536000'')] @ extra)"

text \<open>
  The exchange. \<open>px_open\<close> is what the request for a stream gives; the other tasks run while it is
  awaited (\<open>px_waiting\<close>) and while the bytes are exchanged (\<open>px_exchange\<close>).
\<close>

definition proxy_request_to_tunnel ::
  "proxy_env \<Rightarrow> prepared_request \<Rightarrow> str \<Rightarrow> session_ref \<Rightarrow> str option \<Rightarrow> server_state \<Rightarrow>
   (nat, proxy_response) result option \<times> server_state" where
  "proxy_request_to_tunnel env request subdomain r capture_id s =
     (case px_open env of
        None \<Rightarrow> (Some (Err 504), px_waiting env s)
      | Some service \<Rightarrow>
          (let s0 = px_waiting env s;
               t = ss_heap s0 r;
               is_replay = (capture_id \<noteq> None);
               inspect = (inspect_on (ts_options t) \<or> is_replay);
               cid = (case capture_id of Some i \<Rightarrow> i | None \<Rightarrow> px_uuid env);
               s1 = (if inspect then store_capture subdomain (request_capture env cid is_replay request t) s0 else s0);
               host_header = (case host_header (ts_options t) of
                   Some h \<Rightarrow> Some h
                 | None \<Rightarrow> (if is_replay then Some (ts_subdomain t) else None));
               raw_request = serialize_http_request request (length (rq_body request)) host_header;
               s2 = px_exchange env s1
           in if \<not> px_write_ok env then (Some (Err 502), s2)
              else (case read_http_response (service (raw_request @ rq_body request)) (rq_method request)
                    (max_response_body_bytes (cfg_server (ss_config s))) of
                  None \<Rightarrow> (None, s2)
                | Some (Inl e) \<Rightarrow> (Some (Err 502), s2)
                | Some (Inr resp) \<Rightarrow>
                    (let fields = response_fields (rq_method request) resp (response_header (ts_options t));
                         s3 = (if inspect then complete_capture env subdomain cid resp s2 else s2)
                     in if 100 \<le> pr_status_code resp \<and> pr_status_code resp \<le> 999 \<and>
                           list_all (\<lambda>(n, v). px_valid env n v) fields
                        then (Some (Ok \<lparr>resp_code = pr_status_code resp, resp_fields = fields,
                               resp_content = pr_body resp\<rparr>), s3)
                        else (Some (Err 500), s3)))))"

section \<open>A public request\<close>

record public_request =
  pq_method :: str
  pq_path_and_query :: "str option"
  pq_headers :: headers
  pq_frames :: "(str, bytes) result list"

text \<open>The first value of a field; names in a \<open>HeaderMap\<close> are lower-case.\<close>

definition get_header :: "headers \<Rightarrow> str \<Rightarrow> str option" where
  "get_header hs name = map_of hs name"

definition host_of :: "str \<Rightarrow> str" where
  "host_of v = hd (split_on (CHR '':'') (case value_to_str v of Some x \<Rightarrow> x | None \<Rightarrow> []))"

text \<open>The Basic gate: the cached fingerprint, or the bounded verifier (\<open>px_permit\<close>: it got a permit).\<close>

definition authorize :: "proxy_env \<Rightarrow> session_ref \<Rightarrow> headers \<Rightarrow> server_state \<Rightarrow> bool \<times> server_state" where
  "authorize env r hs s =
     (case (basic_auth_username (ss_heap s r), basic_auth_hash (ss_heap s r)) of
        (Some user, Some hash) \<Rightarrow>
          (case get_header hs ''authorization'' of
             None \<Rightarrow> (False, s)
           | Some v \<Rightarrow>
               (let auth_str = (case value_to_str v of Some x \<Rightarrow> x | None \<Rightarrow> []);
                    fp = auth_header_fingerprint (px_sha env) auth_str
                in if cached_auth_fingerprint (ss_heap s r) = Some fp then (True, s)
                   else if px_permit env \<and> check_header (px_b64 env) (px_bcrypt env) auth_str user hash
                   then (True, modify_session r (\<lambda>t. t\<lparr>cached_auth_fingerprint := Some fp\<rparr>) s)
                   else (False, s)))
      | _ \<Rightarrow> (True, s))"

definition announced_length :: "headers \<Rightarrow> nat option" where
  "announced_length hs = (case get_header hs ''content-length'' of
     None \<Rightarrow> None
   | Some v \<Rightarrow> (case value_to_str v of None \<Rightarrow> None | Some x \<Rightarrow> parse_usize x))"

definition forward_public_request ::
  "proxy_env \<Rightarrow> public_request \<Rightarrow> str \<Rightarrow> session_ref \<Rightarrow> server_state \<Rightarrow> proxy_response option \<times> server_state" where
  "forward_public_request env req subdomain r s =
     (let limit = max_request_body_bytes (cfg_server (ss_config s)) in
      if (case announced_length (pq_headers req) of Some n \<Rightarrow> n > limit | None \<Rightarrow> False) then
        (Some (error_response 413 ''Request body too large''), s)
      else if px_slots_closed env then (Some (error_response 503 ''Server is shutting down''), s)
      else if px_slots env = 0 then (Some (error_response 503 ''Server is busy''), s)
      else (case collect_body_limited (pq_frames req) limit of
          Inl BodyTooLarge \<Rightarrow> (Some (error_response 413 ''Request body too large''), s)
        | Inl BodyRead \<Rightarrow> (Some (error_response 400 ''Failed to read request body''), s)
        | Inr body \<Rightarrow>
            (case proxy_request_to_tunnel env
                \<lparr>rq_method = pq_method req, rq_path_and_query = pq_path_and_query req,
                 rq_headers = pq_headers req, rq_body = body\<rparr> subdomain r None s of
               (None, s1) \<Rightarrow> (None, s1)
             | (Some (Inr response), s1) \<Rightarrow> (Some response, s1)
             | (Some (Inl status), s1) \<Rightarrow> (Some (error_response status ''Tunnel proxy request failed''), s1))))"

definition proxy_http_request ::
  "proxy_env \<Rightarrow> public_request \<Rightarrow> server_state \<Rightarrow> proxy_response option \<times> server_state" where
  "proxy_http_request env req s =
     (case get_header (pq_headers req) ''host'' of
        None \<Rightarrow> (Some (error_response 400 ''Missing Host header''), s)
      | Some v \<Rightarrow>
          (case strip_suffix (''.'' @ sc_domain (cfg_server (ss_config s))) (host_of v) of
             None \<Rightarrow> (Some (error_response 404 ''Unknown tunnel host''), s)
           | Some subdomain \<Rightarrow>
               (case dm_get (tunnels s) subdomain of
                  None \<Rightarrow> (Some (error_response 502 ''Tunnel not found or offline''), s)
                | Some r \<Rightarrow>
                    (case authorize env r (pq_headers req) s of
                       (False, s1) \<Rightarrow> (Some unauthorized_response, s1)
                     | (True, s1) \<Rightarrow>
                         forward_public_request env req subdomain r (modify_session r (touch (px_now env)) s1)))))"

text \<open>
  One HTTP/1.1 connection: \<open>hyper\<close> hands the requests to the service one after the other, each once
  the response before it is there; a request that is never answered is the last.
\<close>

fun handle_https_connection ::
  "(proxy_env \<times> public_request) list \<Rightarrow> server_state \<Rightarrow> proxy_response option list \<times> server_state" where
  "handle_https_connection [] s = ([], s)"
| "handle_https_connection ((env, req) # reqs) s =
     (case proxy_http_request env req s of
        (None, s1) \<Rightarrow> ([None], s1)
      | (Some response, s1) \<Rightarrow> (case handle_https_connection reqs s1 of (rs, s2) \<Rightarrow> (Some response # rs, s2)))"

section \<open>Replay\<close>

text \<open>The parsers of the \<open>http\<close> crate for methods, URIs, names and values are parameters.\<close>

record http_parsers =
  hp_method :: "str \<Rightarrow> str option"
  hp_path :: "str \<Rightarrow> str option option"
  hp_name :: "str \<Rightarrow> str option"
  hp_value :: "str \<Rightarrow> str option"

fun replay_headers :: "http_parsers \<Rightarrow> headers \<Rightarrow> headers \<Rightarrow> bool \<Rightarrow> (headers \<times> bool) option" where
  "replay_headers hp [] acc had = Some (acc, had)"
| "replay_headers hp ((name, value) # hs) acc had =
     (if \<not> is_safe_replay_header name then replay_headers hp hs acc had
      else case hp_name hp name of
          None \<Rightarrow> None
        | Some n \<Rightarrow> (case hp_value hp value of
            None \<Rightarrow> None
          | Some v \<Rightarrow>
              (if n = ''content-length'' then replay_headers hp hs acc True
               else replay_headers hp hs (acc @ [(n, v)]) had)))"

definition replay_http_request ::
  "proxy_env \<Rightarrow> http_parsers \<Rightarrow> str \<Rightarrow> captured_request \<Rightarrow> str \<Rightarrow> server_state \<Rightarrow>
   (nat, proxy_response) result option \<times> server_state" where
  "replay_http_request env hp subdomain capture request_id s =
     (case dm_get (tunnels s) subdomain of
        None \<Rightarrow> (Some (Err 502), s)
      | Some r \<Rightarrow>
          (if req_body_truncated capture then (Some (Err 413), s)
           else case hp_method hp (req_method capture) of
               None \<Rightarrow> (Some (Err 400), s)
             | Some m \<Rightarrow> (case hp_path hp (req_url capture) of
                 None \<Rightarrow> (Some (Err 400), s)
               | Some path \<Rightarrow>
                   (let body = (case req_body capture of Some b \<Rightarrow> b | None \<Rightarrow> []) in
                    case replay_headers hp (req_headers capture) [] False of
                      None \<Rightarrow> (Some (Err 400), s)
                    | Some (hs, had) \<Rightarrow>
                        proxy_request_to_tunnel env
                          \<lparr>rq_method = m, rq_path_and_query = path,
                           rq_headers = hs @ (if had \<or> body \<noteq> [] then [(''content-length'', show_nat (length body))] else []),
                           rq_body = body\<rparr> subdomain r (Some request_id) s))))"

end
