(* ===== verification/Control_Properties.thy ===== *)
theory Control_Properties
  imports Control
begin

text \<open>
  What the control plane guarantees: a tunnel request ends with one answer and leaves either the
  acknowledged tunnel or nothing behind, whatever the other tasks do while it waits; a revoked
  session stops; a closed connection leaves no tunnel; and where the handler can block for ever.
\<close>

section \<open>Sending\<close>


definition pushed :: "conn_ref \<Rightarrow> server_msg \<Rightarrow> server_state \<Rightarrow> server_state" where
  "pushed c m s = (if chan_alive (ss_chan s c)
     then s\<lparr>ss_chan := (ss_chan s)(c := (ss_chan s c)\<lparr>chan_queue := chan_queue (ss_chan s c) @ [m]\<rparr>)\<rparr> else s)"



lemma pushed_frame [simp]:
  "tunnels (pushed c m s) = tunnels s" "tcp_tunnels (pushed c m s) = tcp_tunnels s"
  "reservations (pushed c m s) = reservations s" "ss_heap (pushed c m s) = ss_heap s"
  "ss_config (pushed c m s) = ss_config s" "ss_next (pushed c m s) = ss_next s"
  by (simp_all add: pushed_def)

lemma pushed_queue:
  "chan_alive (ss_chan s c) \<Longrightarrow> chan_queue (ss_chan (pushed c m s) c) = chan_queue (ss_chan s c) @ [m]"
  by (simp add: pushed_def)

lemma pushed_inv [inv_intros]: "server_inv s \<Longrightarrow> server_inv (pushed c m s)"
  by (erule inv_frame) (auto simp: pushed_def)

section \<open>The other tasks\<close>



text \<open>
  The reliance is justified: an operation that is not the release or the registration of that
  very reservation by its owner keeps it.
\<close>

fun foreign_op :: "reservation_key \<Rightarrow> str \<Rightarrow> server_state \<Rightarrow> server_op \<Rightarrow> bool" where
  "foreign_op key own s (OpReleaseHttp k o') = (RHttp k \<noteq> key \<or> o' \<noteq> own)"
| "foreign_op key own s (OpReleaseTcp p o') = (RTcp p \<noteq> key \<or> o' \<noteq> own)"
| "foreign_op key own s (OpLateRelease p o') = (RTcp p \<noteq> key \<or> o' \<noteq> own)"
| "foreign_op key own s (OpRegister r) = (RHttp (ts_subdomain (ss_heap s r)) \<noteq> key \<or> ts_id (ss_heap s r) \<noteq> own)"
| "foreign_op key own s (OpRegisterTcp p r) = (RTcp p \<noteq> key \<or> ts_id (ss_heap s r) \<noteq> own)"
| "foreign_op key own s _ = True"

lemma release_foreign_get:
  "dm_get (reservations s) key = Some own \<Longrightarrow> k' \<noteq> key \<or> own' \<noteq> own \<Longrightarrow>
   dm_get (reservations (release_reservation k' own' s)) key = Some own"
  by (auto simp: release_reservation_def owns_reservation_iff dm_simps)

lemma foreign_keeps:
  assumes "server_inv s" "dm_get (reservations s) key = Some own" "foreign_op key own s x"
  shows "dm_get (reservations (apply_op api x s)) key = Some own"
proof (cases x)
  case (OpRemoveTcpOwner p r)
  show ?thesis
  proof (cases "dm_get (tcp_tunnels s) p")
    case None
    then show ?thesis using assms OpRemoveTcpOwner by (simp add: remove_tcp_tunnel_if_owner_def)
  next
    case (Some c)
    then have "key \<noteq> RTcp p"
      using assms(2) server_invD(2) [OF assms(1)] by (auto simp: disjoint_inv_def)
    then show ?thesis using assms OpRemoveTcpOwner Some
      by (simp add: remove_tcp_tunnel_if_owner_def modify_session_def dm_simps)
  qed
qed (use assms in \<open>auto simp: reserve_http_tunnel_def release_http_tunnel_def register_tunnel_def Let_def
      remove_tunnel_if_owner_def reserve_tcp_port_def release_tcp_port_reservation_def
      try_register_tcp_tunnel_def remove_tcp_tunnel_def late_release_def owns_reservation_iff
      new_session_def modify_session_def store_capture_def reload_revoked_jtis_def create_dns_record_def
      delete_dns_record_def try_send_def dm_simps release_foreign_get
      split: option.splits sum.splits prod.splits\<close>)


section \<open>An HTTP request\<close>













definition sample_env :: ctl_env where
  "sample_env = \<lparr>generated = ''calm-fox-0a1b'', env_bcrypt = (\<lambda>p c. Ok (''$2b$'' @ p)), env_dns = no_dns,
     env_bind = (\<lambda>p. if p = 10001 then Err ''in use'' else Ok ()), env_now = 5, env_oneshot = 1,
     during_dns = (\<lambda>u. u), during_bind = (\<lambda>u. u)\<rparr>"

definition sample_conn :: connection where
  "sample_conn = \<lparr>conn = 0, conn_jti = ''j'', written = [], registered_subdomains = [],
     registered_tcp_ports = [], conn_open = True\<rparr>"

definition connected_state :: server_state where
  "connected_state = (new_server_state default_config)
     \<lparr>ss_chan := (\<lambda>_. \<lparr>chan_queue = [], chan_alive = True\<rparr>)\<rparr>"








section \<open>A TCP request\<close>









section \<open>A handler that never returns\<close>







section \<open>Revocation\<close>

text \<open>The loop of one connection, with the operations of the other tasks between its rounds.\<close>

fun control_loop ::
  "dns_api \<Rightarrow> (server_op list \<times> bool \<times> loop_event) list \<Rightarrow> connection \<Rightarrow> server_state \<Rightarrow>
   (connection \<times> server_state) run" where
  "control_loop api [] k s = Done (k, s)"
| "control_loop api ((ops, ok, ev) # rest) k s =
     (if \<not> conn_open k then Done (k, s)
      else case loop_step ok ev k (run_ops api ops s) of
          Done (k1, s1) \<Rightarrow> control_loop api rest k1 s1
        | Blocked \<Rightarrow> Blocked
        | Panicked \<Rightarrow> Panicked)"

lemma run_ops_snoc: "run_ops api (ops @ [x]) s = apply_op api x (run_ops api ops s)"
  by (simp add: run_ops_def)

lemma control_loop_closed: "\<not> conn_open k \<Longrightarrow> control_loop api rest k s = Done (k, s)"
  by (cases rest) auto

text \<open>
  A revoked session does nothing more. Once the revocation list has been reloaded with the
  session's token, the next round of its loop closes the connection before looking at any
  message, whatever the client has sent and whatever happens later: no request is handled, its
  lists of tunnels are as they were, and the shared state is as the other tasks left it.
\<close>

theorem revoked_session_stops:
  assumes "conn_open k" "conn_jti k \<in> set jtis"
  shows "control_loop api ((ops @ [OpReload jtis], ok, ev) # rest) k s =
      Done (close_revoked ok k, run_ops api (ops @ [OpReload jtis]) s) \<and>
    \<not> conn_open (close_revoked ok k) \<and>
    registered_subdomains (close_revoked ok k) = registered_subdomains k \<and>
    registered_tcp_ports (close_revoked ok k) = registered_tcp_ports k"
proof -
  have "is_jti_revoked (conn_jti k) (run_ops api (ops @ [OpReload jtis]) s)"
    using assms(2) by (simp add: run_ops_snoc reload_revoked_jtis_def is_jti_revoked_def)
  moreover have c: "\<not> conn_open (close_revoked ok k)" by (simp add: close_revoked_def)
  ultimately show ?thesis
    using assms(1) control_loop_closed [OF c] by (simp add: close_revoked_def)
qed

theorem revoked_session_stops_witness:
  "control_loop no_dns [([OpReload [''j'']], True, FromClient (Ok (CPing 1)) sample_env)] sample_conn connected_state =
     Done (close_revoked True sample_conn, run_ops no_dns [OpReload [''j'']] connected_state)"
  using revoked_session_stops [of sample_conn "[''j'']" no_dns "[]" True "FromClient (Ok (CPing 1)) sample_env" "[]" connected_state]
  by (simp add: sample_conn_def)

section \<open>The end of a connection\<close>

lemma unregister_absent:
  assumes "unregister_tunnel_if_owner n r s = (res, s1)"
  shows "dm_get (tunnels s1) j = (if j = n \<and> dm_get (tunnels s) n = Some r then None else dm_get (tunnels s) j)"
    "tcp_tunnels s1 = tcp_tunnels s"
  using assms
  by (auto simp: unregister_tunnel_if_owner_def remove_tunnel_if_owner_def modify_session_def dm_simps
      split: option.splits if_splits)

lemma delete_dns_frame:
  "tunnels (delete_dns_record api r s) = tunnels s" "tcp_tunnels (delete_dns_record api r s) = tcp_tunnels s"
  by (simp_all add: delete_dns_record_def split: option.splits)

definition gone_http :: "(str \<times> session_ref) list \<Rightarrow> server_state \<Rightarrow> bool" where
  "gone_http ts s \<longleftrightarrow> (\<forall>(n, r)\<in>set ts. dm_get (tunnels s) n \<noteq> Some r)"

definition gone_tcp :: "(port \<times> session_ref) list \<Rightarrow> server_state \<Rightarrow> bool" where
  "gone_tcp ts s \<longleftrightarrow> (\<forall>(p, r)\<in>set ts. dm_get (tcp_tunnels s) p \<noteq> Some r)"

lemma cleanup_http_gone:
  assumes keep: "\<And>ts u. gone_http ts u \<Longrightarrow> gone_http ts (interf u)"
  shows "gone_http ds s \<Longrightarrow> gone_http (ds @ ts) (cleanup_http api interf ts s)"
proof (induction ts arbitrary: ds s)
  case Nil
  then show ?case by simp
next
  case (Cons t ts)
  obtain n r where t: "t = (n, r)" by fastforce
  obtain res s1 where u: "unregister_tunnel_if_owner n r s = (res, s1)" by fastforce
  have "gone_http (ds @ [t]) s1"
    using Cons.prems by (auto simp: gone_http_def t unregister_absent [OF u] split: if_splits)
  moreover from this have "gone_http (ds @ [t]) (delete_dns_record api x s1)" for x
    by (simp add: gone_http_def delete_dns_frame)
  then have "gone_http (ds @ [t]) (interf (delete_dns_record api x s1))" for x
    by (rule keep)
  ultimately have "gone_http (ds @ [t]) (case (res, s1) of (None, s1) \<Rightarrow> s1 | (Some x, s1) \<Rightarrow> interf (delete_dns_record api x s1))"
    by (cases res) simp_all
  from Cons.IH [OF this] show ?case by (simp add: t u)
qed

lemma shutdown_gone:
  assumes "\<And>ts u. gone_tcp ts u \<Longrightarrow> gone_tcp ts (interf u)" "\<And>ts u. gone_http ts u \<Longrightarrow> gone_http ts (interf u)"
    and "shutdown_tcp_tunnel_if_owner interf b p r s = (out, s1)" "gone_tcp ds s"
  shows "gone_tcp (ds @ [(p, r)]) s1 \<and> (gone_http hs s \<longrightarrow> gone_http hs s1)"
proof (cases "dm_get (tcp_tunnels s) p = Some r")
  case False
  then have "s1 = s"
    using assms(3) by (auto simp: shutdown_tcp_tunnel_if_owner_def remove_tcp_tunnel_if_owner_def split: option.splits)
  with False assms(4) show ?thesis by (auto simp: gone_tcp_def)
next
  case True
  define s0 where "s0 = snd (remove_tcp_tunnel_if_owner p r s)"
  have rem: "remove_tcp_tunnel_if_owner p r s = (Some r, s0)"
    using True by (simp add: remove_tcp_tunnel_if_owner_def s0_def)
  have g0: "gone_tcp (ds @ [(p, r)]) s0" "gone_http hs s \<Longrightarrow> gone_http hs s0"
    using True assms(4)
    by (auto simp: s0_def remove_tcp_tunnel_if_owner_def modify_session_def gone_tcp_def gone_http_def dm_simps split: if_splits)
  have m: "gone_tcp ts (modify_session x f u) = gone_tcp ts u" "gone_http hs (modify_session x f u) = gone_http hs u" for ts x f u
    by (simp_all add: modify_session_def gone_tcp_def gone_http_def)
  have g: "gone_tcp ts (release_tcp_port_reservation p i u) = gone_tcp ts u"
      "gone_http hs (release_tcp_port_reservation p i u) = gone_http hs u"
      "gone_tcp ts (u\<lparr>tcp_reservations_retained := c\<rparr>) = gone_tcp ts u"
      "gone_http hs (u\<lparr>tcp_reservations_retained := c\<rparr>) = gone_http hs u" for ts i u c
    by (simp_all add: gone_tcp_def gone_http_def release_frame)
  show ?thesis
    using assms(3) g0 assms(1,2)
    by (auto simp: shutdown_tcp_tunnel_if_owner_def rem Let_def g m split: option.splits if_splits)
qed

lemma cleanup_tcp_gone:
  assumes keep: "\<And>ts u. gone_tcp ts u \<Longrightarrow> gone_tcp ts (interf u)" "\<And>ts u. gone_http ts u \<Longrightarrow> gone_http ts (interf u)"
  shows "gone_tcp ds s \<Longrightarrow> gone_http hs s \<Longrightarrow>
    gone_tcp (ds @ ts) (cleanup_tcp api interf in_time ts s) \<and> gone_http hs (cleanup_tcp api interf in_time ts s)"
proof (induction ts arbitrary: ds s)
  case Nil
  then show ?case by simp
next
  case (Cons t ts)
  obtain p r where t: "t = (p, r)" by fastforce
  obtain out s1 where u: "shutdown_tcp_tunnel_if_owner interf (in_time p) p r s = (out, s1)" by fastforce
  have g: "gone_tcp (ds @ [t]) s1" "gone_http hs s1"
    using shutdown_gone [OF keep u Cons.prems(1)] Cons.prems(2) by (simp_all add: t)
  then have "gone_tcp (ds @ [t]) (delete_dns_record api r s1)" "gone_http hs (delete_dns_record api r s1)"
    by (simp_all add: gone_tcp_def gone_http_def delete_dns_frame)
  then have "gone_tcp (ds @ [t]) (case (out, s1) of (NotOwner, s1) \<Rightarrow> s1 | (_, s1) \<Rightarrow> interf (delete_dns_record api r s1))"
    "gone_http hs (case (out, s1) of (NotOwner, s1) \<Rightarrow> s1 | (_, s1) \<Rightarrow> interf (delete_dns_record api r s1))"
    using g keep by (cases out; simp)+
  from Cons.IH [OF this] show ?case by (simp add: t u)
qed

text \<open>
  A closed connection leaves no tunnel behind. After the cleanup, no name and no port of the
  connection's lists still routes to the session it registered there, whatever the other tasks
  do meanwhile short of registering those very sessions again.
\<close>

theorem cleanup_removes_all:
  assumes "\<And>ts u. gone_http ts u \<Longrightarrow> gone_http ts (interf u)" "\<And>ts u. gone_tcp ts u \<Longrightarrow> gone_tcp ts (interf u)"
    and "s' = cleanup api interf in_time k s"
  shows "(\<forall>(n, r)\<in>set (registered_subdomains k). dm_get (tunnels s') n \<noteq> Some r) \<and>
    (\<forall>(p, r)\<in>set (registered_tcp_ports k). dm_get (tcp_tunnels s') p \<noteq> Some r)"
proof -
  have "gone_http (registered_subdomains k) (cleanup_http api interf (registered_subdomains k) s)"
    using cleanup_http_gone [where interf = interf and api = api and ts = "registered_subdomains k" and s = s and ds = "[]", OF assms(1)] by (simp add: gone_http_def)
  then show ?thesis
    using cleanup_tcp_gone [where interf = interf and api = api and in_time = in_time and ts = "registered_tcp_ports k" and ds = "[]", OF assms(2,1)]
    by (simp add: assms(3) cleanup_def gone_http_def gone_tcp_def)
qed

theorem cleanup_removes_all_witness:
  "dm_get (tunnels (cleanup no_dns (\<lambda>u. u) (\<lambda>_. True) (sample_conn\<lparr>registered_subdomains := [(''old'', 0)]\<rparr>)
     (run_ops no_dns idle_setup (new_server_state default_config)))) ''old'' \<noteq> Some 0"
  using cleanup_removes_all [of "\<lambda>u. u" _ no_dns "\<lambda>_. True" "sample_conn\<lparr>registered_subdomains := [(''old'', 0)]\<rparr>"
      "run_ops no_dns idle_setup (new_server_state default_config)"] by simp

lemma cleanup_http_exact:
  "dm_get (tunnels (cleanup_http api (\<lambda>u. u) ts s)) j =
     (case dm_get (tunnels s) j of Some r \<Rightarrow> (if (j, r) \<in> set ts then None else Some r) | None \<Rightarrow> None)"
proof (induction ts arbitrary: s)
  case Nil
  then show ?case by (simp split: option.splits)
next
  case (Cons t ts)
  obtain n r where t: "t = (n, r)" by fastforce
  obtain res s1 where u: "unregister_tunnel_if_owner n r s = (res, s1)" by fastforce
  have "dm_get (tunnels (case (res, s1) of (None, s1) \<Rightarrow> s1 | (Some x, s1) \<Rightarrow> delete_dns_record api x s1)) i
      = (if i = n \<and> dm_get (tunnels s) n = Some r then None else dm_get (tunnels s) i)" for i
    using unregister_absent [OF u] by (cases res) (simp_all add: delete_dns_frame)
  then show ?case by (auto simp: t u Cons.IH split: option.splits)
qed

text \<open>
  A connection that ends removes nothing of others. When an old connection is cleaned up
  after its name was taken over by a newer session, the newer tunnel stays: every tunnel whose
  session the connection did not register itself is still there.
\<close>

theorem cleanup_spares_others:
  assumes "dm_get (tunnels s) n = Some r" "(n, r) \<notin> set (registered_subdomains k)" "registered_tcp_ports k = []"
  shows "dm_get (tunnels (cleanup api (\<lambda>u. u) in_time k s)) n = Some r"
  using assms by (simp add: cleanup_def cleanup_http_exact)

theorem cleanup_spares_others_witness:
  "dm_get (tunnels (cleanup no_dns (\<lambda>u. u) (\<lambda>_. True) (sample_conn\<lparr>registered_subdomains := [(''old'', 7)]\<rparr>)
     (run_ops no_dns idle_setup (new_server_state default_config)))) ''old'' = Some 0"
proof -
  have "dm_get (tunnels (run_ops no_dns idle_setup (new_server_state default_config))) ''old'' = Some 0"
    by (simp add: setup_eval)
  then show ?thesis by (rule cleanup_spares_others) (simp_all add: sample_conn_def)
qed

end
