(* ===== verification/Proxy_Gate.thy ===== *)
theory Proxy_Gate
  imports Proxy_Flow Control_Properties
begin

text \<open>
  The Basic gate in front of protected tunnels, over every state public requests and the other
  operations of the server can produce: the cached fingerprint never lets in a header the
  verifier has not accepted. Then which host names reach which tunnel, and the limits a request
  body has to meet before the tunnel sees it.
\<close>

section \<open>The cache\<close>

text \<open>Every cached fingerprint is that of a header the verifier accepts for the tunnel.\<close>

definition cache_ok ::
  "(str \<Rightarrow> bytes option) \<Rightarrow> (str \<Rightarrow> str \<Rightarrow> (str, bool) result) \<Rightarrow> (bytes \<Rightarrow> bytes) \<Rightarrow> tunnel_session \<Rightarrow> bool" where
  "cache_ok b64 bcrypt sha t \<longleftrightarrow>
     (\<forall>user hash fp. basic_auth_username t = Some user \<longrightarrow> basic_auth_hash t = Some hash \<longrightarrow>
        cached_auth_fingerprint t = Some fp \<longrightarrow>
        (\<exists>h. check_header b64 bcrypt h user hash \<and> fp = auth_header_fingerprint sha h))"

definition caches_ok ::
  "(str \<Rightarrow> bytes option) \<Rightarrow> (str \<Rightarrow> str \<Rightarrow> (str, bool) result) \<Rightarrow> (bytes \<Rightarrow> bytes) \<Rightarrow> server_state \<Rightarrow> bool" where
  "caches_ok b64 bcrypt sha s \<longleftrightarrow> (\<forall>r. cache_ok b64 bcrypt sha (ss_heap s r))"

lemma cache_ok_fresh: "cached_auth_fingerprint t = None \<Longrightarrow> cache_ok b64 bcrypt sha t"
  by (simp add: cache_ok_def)

lemma caches_ok_heap: "caches_ok b64 bcrypt sha s \<Longrightarrow> ss_heap s' = ss_heap s \<Longrightarrow> caches_ok b64 bcrypt sha s'"
  by (simp add: caches_ok_def)

lemma caches_ok_modify:
  assumes "caches_ok b64 bcrypt sha s"
    and "\<And>t. basic_auth_username (f t) = basic_auth_username t \<and> basic_auth_hash (f t) = basic_auth_hash t \<and>
      cached_auth_fingerprint (f t) = cached_auth_fingerprint t"
  shows "caches_ok b64 bcrypt sha (modify_session r f s)"
  using assms by (simp add: caches_ok_def cache_ok_def modify_session_def)

lemma session_changes [simp]:
  "basic_auth_username (touch n t) = basic_auth_username t" "basic_auth_hash (touch n t) = basic_auth_hash t"
  "cached_auth_fingerprint (touch n t) = cached_auth_fingerprint t"
  "basic_auth_username (stream_started n t) = basic_auth_username t" "basic_auth_hash (stream_started n t) = basic_auth_hash t"
  "cached_auth_fingerprint (stream_started n t) = cached_auth_fingerprint t"
  "basic_auth_username (stream_finished n t) = basic_auth_username t" "basic_auth_hash (stream_finished n t) = basic_auth_hash t"
  "cached_auth_fingerprint (stream_finished n t) = cached_auth_fingerprint t"
  "basic_auth_username (cancel_session t) = basic_auth_username t" "basic_auth_hash (cancel_session t) = basic_auth_hash t"
  "cached_auth_fingerprint (cancel_session t) = cached_auth_fingerprint t"
  by (simp_all add: touch_def stream_started_def stream_finished_def cancel_session_def)

section \<open>What keeps it\<close>

text \<open>The operations of other tasks: new sessions start without a fingerprint.\<close>

fun other_op :: "server_op \<Rightarrow> bool" where
  "other_op (OpNewSession t) = (cached_auth_fingerprint t = None)"
| "other_op (OpSetFingerprint r f) = False"
| "other_op _ = True"

lemma heap_simps [simp]:
  "ss_heap (store_capture k cap s) = ss_heap s"
  "ss_heap (release_reservation key own s) = ss_heap s"
  "ss_heap (snd (reserve_http_tunnel k own s)) = ss_heap s"
  "ss_heap (snd (reserve_tcp_port req own s)) = ss_heap s"
  "ss_heap (snd (register_tunnel r s)) = ss_heap s"
  "ss_heap (snd (try_register_tcp_tunnel p r s)) = ss_heap s"
  "ss_heap (late_release p own s) = ss_heap s"
  "ss_heap (snd (create_dns_record api k s)) = ss_heap s"
  "ss_heap (delete_dns_record api r s) = ss_heap s"
  "ss_heap (try_send c m s) = ss_heap s"
  "ss_heap (reload_revoked_jtis js s) = ss_heap s"
  by (simp_all add: store_capture_def release_reservation_def reserve_http_tunnel_def reserve_tcp_port_def
      register_tunnel_def try_register_tcp_tunnel_def late_release_def release_tcp_port_reservation_def create_dns_record_def
      delete_dns_record_def try_send_def reload_revoked_jtis_def Let_def split: option.splits sum.splits prod.splits)

lemma caches_ok_op:
  assumes ok: "caches_ok b64 bcrypt sha s" and x: "other_op x"
  shows "caches_ok b64 bcrypt sha (apply_op api x s)"
proof -
  note keep = caches_ok_heap [OF ok] and change = caches_ok_modify [OF ok]
  have mod: "caches_ok b64 bcrypt sha s'" if "ss_heap s' = ss_heap (modify_session r f s)"
      "\<And>t. basic_auth_username (f t) = basic_auth_username t \<and> basic_auth_hash (f t) = basic_auth_hash t \<and>
        cached_auth_fingerprint (f t) = cached_auth_fingerprint t" for s' r f
    using caches_ok_heap [OF change [OF that(2)] that(1)] .
  show ?thesis
  proof (cases x)
    case (OpUnregister k own)
    show ?thesis unfolding OpUnregister apply_op.simps remove_tunnel_if_owner_def
      by (auto split: option.splits intro: keep mod [where f = "\<lambda>t. t\<lparr>idle_cancel := True\<rparr>"] ok)
  next
    case (OpRemoveTcp p)
    show ?thesis unfolding OpRemoveTcp apply_op.simps remove_tcp_tunnel_def
      by (auto split: option.splits intro: mod [where f = cancel_session] ok)
  next
    case (OpRemoveTcpOwner p r)
    show ?thesis unfolding OpRemoveTcpOwner apply_op.simps remove_tcp_tunnel_if_owner_def
      by (auto split: option.splits intro: mod [where f = cancel_session] ok)
  next
    case (OpNewSession t)
    then show ?thesis using x ok by (simp add: new_session_def caches_ok_def cache_ok_fresh)
  qed (use x in \<open>auto intro: keep change simp: release_http_tunnel_def release_tcp_port_reservation_def\<close>)
qed

text \<open>
  One verifier serves all requests; \<open>px_permit\<close>, the clock and the local service differ. What the
  other tasks do during a request keeps the caches sound, as their own steps do.
\<close>

definition gate_env ::
  "(str \<Rightarrow> bytes option) \<Rightarrow> (str \<Rightarrow> str \<Rightarrow> (str, bool) result) \<Rightarrow> (bytes \<Rightarrow> bytes) \<Rightarrow> proxy_env \<Rightarrow> bool" where
  "gate_env b64 bcrypt sha env \<longleftrightarrow> px_b64 env = b64 \<and> px_bcrypt env = bcrypt \<and> px_sha env = sha \<and>
     (\<forall>s. caches_ok b64 bcrypt sha s \<longrightarrow> caches_ok b64 bcrypt sha (px_waiting env s) \<and> caches_ok b64 bcrypt sha (px_exchange env s))"

lemma complete_capture_heap [simp]: "ss_heap (complete_capture env k c r s) = ss_heap s"
  by (simp add: complete_capture_def Let_def split: option.split)

lemma proxy_request_to_tunnel_caches:
  assumes ok: "caches_ok b64 bcrypt sha s" and env: "gate_env b64 bcrypt sha env"
  shows "caches_ok b64 bcrypt sha (snd (proxy_request_to_tunnel env q k r c s))"
proof -
  have w: "caches_ok b64 bcrypt sha (px_waiting env s)" using ok env by (simp add: gate_env_def)
  have x: "caches_ok b64 bcrypt sha (px_exchange env s1)" if "ss_heap s1 = ss_heap (px_waiting env s)" for s1
    using caches_ok_heap [OF w that] env by (simp add: gate_env_def)
  have y: "caches_ok b64 bcrypt sha (complete_capture env k i p (px_exchange env s1))"
    if "ss_heap s1 = ss_heap (px_waiting env s)" for s1 i p
    using caches_ok_heap [OF x [OF that]] by simp
  show ?thesis
    by (auto simp: proxy_request_to_tunnel_def Let_def intro!: w x y split: option.split sum.split)
qed

lemma forward_caches:
  assumes ok: "caches_ok b64 bcrypt sha s" and env: "gate_env b64 bcrypt sha env"
  shows "caches_ok b64 bcrypt sha (snd (forward_public_request env q k r s))"
proof -
  have "caches_ok b64 bcrypt sha s1" if "proxy_request_to_tunnel env p k r None s = (x, s1)" for p x s1
    using proxy_request_to_tunnel_caches [OF ok env, of p k r None] that by simp
  then show ?thesis using ok
    by (auto simp: forward_public_request_def Let_def split: option.splits sum.splits body_read_error.splits prod.splits)
qed

definition header_str :: "headers \<Rightarrow> str option" where
  "header_str hs = (case get_header hs ''authorization'' of
     None \<Rightarrow> None
   | Some v \<Rightarrow> Some (case value_to_str v of Some x \<Rightarrow> x | None \<Rightarrow> []))"

lemma authorize_cases:
  assumes "gate_env b64 bcrypt sha env" "basic_auth_username (ss_heap s r) = Some user" "basic_auth_hash (ss_heap s r) = Some hash"
  shows "authorize env r hs s = (case header_str hs of
      None \<Rightarrow> (False, s)
    | Some h \<Rightarrow>
        (if cached_auth_fingerprint (ss_heap s r) = Some (auth_header_fingerprint sha h) then (True, s)
         else if px_permit env \<and> check_header b64 bcrypt h user hash
         then (True, modify_session r (\<lambda>t. t\<lparr>cached_auth_fingerprint := Some (auth_header_fingerprint sha h)\<rparr>) s)
         else (False, s)))"
  using assms by (auto simp: authorize_def gate_env_def header_str_def Let_def split: option.splits)

lemma authorize_False: "authorize env r hs s = (False, s1) \<Longrightarrow> s1 = s"
  by (auto simp: authorize_def Let_def split: option.splits if_splits)

lemma caches_ok_authorize:
  assumes ok: "caches_ok b64 bcrypt sha s" and env: "gate_env b64 bcrypt sha env"
  shows "caches_ok b64 bcrypt sha (snd (authorize env r hs s))"
proof (cases "basic_auth_username (ss_heap s r) = None \<or> basic_auth_hash (ss_heap s r) = None")
  case True
  then show ?thesis using ok by (auto simp: authorize_def split: option.splits)
next
  case False
  then obtain user hash where u: "basic_auth_username (ss_heap s r) = Some user" "basic_auth_hash (ss_heap s r) = Some hash"
    by (cases "basic_auth_username (ss_heap s r)"; cases "basic_auth_hash (ss_heap s r)") auto
  have "caches_ok b64 bcrypt sha (modify_session r (\<lambda>t. t\<lparr>cached_auth_fingerprint := Some (auth_header_fingerprint sha h)\<rparr>) s)"
    if "check_header b64 bcrypt h user hash" for h
    using ok u that by (auto simp: caches_ok_def cache_ok_def modify_session_def)
  then show ?thesis using ok by (simp add: authorize_cases [OF env u] split: option.splits)
qed

lemma proxy_request_caches:
  assumes ok: "caches_ok b64 bcrypt sha s" and env: "gate_env b64 bcrypt sha env"
  shows "caches_ok b64 bcrypt sha (snd (proxy_http_request env req s))"
proof -
  have step: "caches_ok b64 bcrypt sha
      (forward_state)" if "forward_state = snd (forward_public_request env req k r (modify_session r (touch n) (snd (authorize env r hs s))))"
    for forward_state k r n hs unfolding that
    by (rule forward_caches [OF caches_ok_modify [OF caches_ok_authorize [OF ok env, of r hs], where r = r and f = "touch n"] env]) simp
  show ?thesis
    using ok step caches_ok_authorize [OF ok env]
    by (auto simp: proxy_http_request_def split: option.splits prod.splits bool.splits)
      (metis snd_conv)+
qed

lemma replay_caches:
  assumes "caches_ok b64 bcrypt sha s" "gate_env b64 bcrypt sha env"
  shows "caches_ok b64 bcrypt sha (snd (replay_http_request env hp k c i s))"
  using assms proxy_request_to_tunnel_caches
  by (auto simp: replay_http_request_def Let_def split: option.splits prod.splits)

section \<open>Only accepted headers pass\<close>

text \<open>
  The states that public requests, replays and the operations of the other tasks lead to.
\<close>

inductive traffic ::
  "dns_api \<Rightarrow> config \<Rightarrow> (str \<Rightarrow> bytes option) \<Rightarrow> (str \<Rightarrow> str \<Rightarrow> (str, bool) result) \<Rightarrow> (bytes \<Rightarrow> bytes) \<Rightarrow> server_state \<Rightarrow> bool"
  for api c b64 bcrypt sha where
  TStart: "traffic api c b64 bcrypt sha (new_server_state c)"
| TOther: "traffic api c b64 bcrypt sha s \<Longrightarrow> other_op x \<Longrightarrow> traffic api c b64 bcrypt sha (apply_op api x s)"
| TVisit: "traffic api c b64 bcrypt sha s \<Longrightarrow> gate_env b64 bcrypt sha env \<Longrightarrow>
    traffic api c b64 bcrypt sha (snd (proxy_http_request env req s))"
| TReplay: "traffic api c b64 bcrypt sha s \<Longrightarrow> gate_env b64 bcrypt sha env \<Longrightarrow>
    traffic api c b64 bcrypt sha (snd (replay_http_request env hp k cap i s))"

lemma traffic_caches: "traffic api c b64 bcrypt sha s \<Longrightarrow> caches_ok b64 bcrypt sha s"
proof (induction rule: traffic.induct)
  case TStart
  show ?case by (simp add: caches_ok_def new_server_state_def cache_ok_def no_session_def)
qed (simp_all add: caches_ok_op proxy_request_caches replay_caches)

definition routed :: "server_state \<Rightarrow> public_request \<Rightarrow> str \<Rightarrow> session_ref \<Rightarrow> bool" where
  "routed s req k r \<longleftrightarrow>
     (\<exists>v. get_header (pq_headers req) ''host'' = Some v \<and>
        strip_suffix (''.'' @ sc_domain (cfg_server (ss_config s))) (host_of v) = Some k) \<and>
     dm_get (tunnels s) k = Some r"

lemma routed_request:
  assumes "routed s req k r"
  shows "proxy_http_request env req s =
    (case authorize env r (pq_headers req) s of
       (False, s1) \<Rightarrow> (Some unauthorized_response, s1)
     | (True, s1) \<Rightarrow> forward_public_request env req k r (modify_session r (touch (px_now env)) s1))"
  using assms by (auto simp: routed_def proxy_http_request_def)

text \<open>
  C1: the gate of a protected tunnel. In every state the server can reach, a request routed to a
  tunnel with a user name and a password hash is refused with 401, leaving the state as it was
  and the tunnel untouched, unless its \<open>Authorization\<close> value has the fingerprint of a header the
  verifier accepts for this very tunnel; and a request whose own header is accepted is forwarded
  whenever the verifier has a permit, never refused.
\<close>

theorem gate_sound:
  assumes reach: "traffic api c b64 bcrypt sha s" and env: "gate_env b64 bcrypt sha env"
    and route: "routed s req k r"
    and user: "basic_auth_username (ss_heap s r) = Some user" and hash: "basic_auth_hash (ss_heap s r) = Some hash"
  shows "(proxy_http_request env req s = (Some unauthorized_response, s) \<or>
      (\<exists>v h. header_str (pq_headers req) = Some v \<and> check_header b64 bcrypt h user hash \<and>
        auth_header_fingerprint sha v = auth_header_fingerprint sha h)) \<and>
    (\<forall>v. header_str (pq_headers req) = Some v \<and> check_header b64 bcrypt v user hash \<and> px_permit env \<longrightarrow>
      (\<exists>s1. ss_heap s1 r = (ss_heap s r)\<lparr>last_activity := px_now env,
          cached_auth_fingerprint := Some (auth_header_fingerprint sha v)\<rparr> \<and>
        proxy_http_request env req s = forward_public_request env req k r s1))"
proof -
  note cases = routed_request [OF route, of env, unfolded authorize_cases [OF env user hash]]
  have cached: "\<exists>h. check_header b64 bcrypt h user hash \<and> fp = auth_header_fingerprint sha h"
    if "cached_auth_fingerprint (ss_heap s r) = Some fp" for fp
    using traffic_caches [OF reach] user hash that by (auto simp: caches_ok_def cache_ok_def)
  have refuse: "proxy_http_request env req s = (Some unauthorized_response, s) \<or>
      (\<exists>v h. header_str (pq_headers req) = Some v \<and> check_header b64 bcrypt h user hash \<and>
        auth_header_fingerprint sha v = auth_header_fingerprint sha h)"
    using cached by (auto simp: cases split: option.splits if_splits)
  have "\<exists>s1. ss_heap s1 r = (ss_heap s r)\<lparr>last_activity := px_now env,
          cached_auth_fingerprint := Some (auth_header_fingerprint sha v)\<rparr> \<and>
        proxy_http_request env req s = forward_public_request env req k r s1"
    if "header_str (pq_headers req) = Some v" "check_header b64 bcrypt v user hash" "px_permit env" for v
  proof (cases "cached_auth_fingerprint (ss_heap s r) = Some (auth_header_fingerprint sha v)")
    case True
    then have "(ss_heap s r)\<lparr>cached_auth_fingerprint := Some (auth_header_fingerprint sha v)\<rparr> = ss_heap s r" by simp
    then show ?thesis using True that
      by (intro exI [of _ "modify_session r (touch (px_now env)) s"]) (simp add: cases modify_session_def touch_def)
  next
    case False
    then show ?thesis using that
      by (intro exI [of _ "modify_session r (touch (px_now env)) (modify_session r (\<lambda>t. t\<lparr>cached_auth_fingerprint :=
            Some (auth_header_fingerprint sha v)\<rparr>) s)"]) (simp add: cases modify_session_def touch_def)
  qed
  with refuse show ?thesis by blast
qed

definition protected_session :: tunnel_session where
  "protected_session = no_session\<lparr>ts_id := ''t1'', ts_subdomain := ''demo'', basic_auth_username := Some ''u'',
     basic_auth_hash := Some ''h''\<rparr>"

definition protected_state :: server_state where
  "protected_state = apply_op no_dns (OpRegister 0) (apply_op no_dns (OpNewSession protected_session) (new_server_state tiny_config))"

definition sample_proxy_env :: proxy_env where
  "sample_proxy_env = \<lparr>px_b64 = (\<lambda>x. Some x), px_bcrypt = (\<lambda>p h. Ok (p = h)), px_permit = True, px_sha = (\<lambda>x. x),
     px_now = 9, px_elapsed = 2, px_uuid = ''c1'', px_slots = 1, px_slots_closed = False,
     px_open = Some (\<lambda>b. ([''HTTP/1.1 204 No Content'' @ crlf2], Eof)), px_write_ok = True, px_valid = (\<lambda>n v. True), px_waiting = (\<lambda>s. s), px_exchange = (\<lambda>s. s)\<rparr>"

definition demo_request :: "headers \<Rightarrow> public_request" where
  "demo_request hs = \<lparr>pq_method = ''GET'', pq_path_and_query = Some ''/'',
     pq_headers = (''host'', ''demo.'' @ sc_domain (cfg_server tiny_config)) # hs, pq_frames = []\<rparr>"

lemma protected_facts:
  "traffic no_dns tiny_config b64 bcrypt sha protected_state"
  "dm_get (tunnels protected_state) ''demo'' = Some 0" "ss_heap protected_state 0 = protected_session"
  "ss_config protected_state = tiny_config"
proof -
  show "traffic no_dns tiny_config b64 bcrypt sha protected_state"
    unfolding protected_state_def
    by (intro traffic.TOther traffic.TStart) (simp_all add: protected_session_def no_session_def)
qed (simp_all add: protected_state_def new_server_state_def new_session_def register_tunnel_def owns_reservation_def
    at_capacity_def slots_used_def max_slots_def tiny_config_def protected_session_def dm_simps Let_def)

section \<open>Hosts\<close>

text \<open>A \<open>Host\<close> value that names \<open>h\<close>, with or without a port.\<close>

definition names_host :: "str \<Rightarrow> str \<Rightarrow> bool" where
  "names_host v h \<longleftrightarrow> v = h \<or> (\<exists>p. v = h @ '':'' @ p \<and> list_all value_byte p)"

definition plain_host :: "str \<Rightarrow> bool" where
  "plain_host h \<longleftrightarrow> list_all value_byte h \<and> CHR '':'' \<notin> set h"

lemma plain_host_append [simp]: "plain_host (a @ b) \<longleftrightarrow> plain_host a \<and> plain_host b"
  by (auto simp: plain_host_def)

lemma host_of_plain: "plain_host h \<Longrightarrow> names_host v h \<Longrightarrow> host_of v = h"
proof -
  assume h: "plain_host h" and v: "names_host v h"
  have colon: "value_byte (CHR '':'')" by (simp add: value_byte_def byte_val_def)
  show "host_of v = h"
  proof (cases "v = h")
    case True
    then show ?thesis using h by (simp add: host_of_def plain_host_def value_to_str_def split_on_notin)
  next
    case False
    then obtain p where p: "v = h @ CHR '':'' # p" "list_all value_byte p" using v by (auto simp: names_host_def)
    then have "value_to_str v = Some v" using h colon by (simp add: value_to_str_def plain_host_def)
    moreover have "split_on (CHR '':'') v = h # split_on (CHR '':'') p"
      unfolding p by (rule split_on_append) (use h in \<open>simp add: plain_host_def\<close>)
    ultimately show ?thesis by (simp add: host_of_def)
  qed
qed

lemma subdomain_char_plain: "subdomain_char c \<Longrightarrow> value_byte c \<and> c \<noteq> CHR '':''"
  by (auto simp: subdomain_char_def value_byte_def is_ascii_lowercase_def is_ascii_digit_def byte_val_def)

lemma plain_subdomain: "list_all subdomain_char k \<Longrightarrow> plain_host k"
  using subdomain_char_plain by (fastforce simp: plain_host_def list_all_iff)


lemma routed_public_host:
  assumes "list_all subdomain_char k" "plain_host (sc_domain (cfg_server (ss_config s)))"
    and "get_header (pq_headers req) ''host'' = Some v" "names_host v (k @ ''.'' @ sc_domain (cfg_server (ss_config s)))"
  shows "routed s req k' r \<longleftrightarrow> k' = k \<and> dm_get (tunnels s) k = Some r"
proof -
  have "plain_host ''.''" by (simp add: plain_host_def value_byte_def byte_val_def)
  then have "plain_host (k @ ''.'' @ sc_domain (cfg_server (ss_config s)))"
    unfolding plain_host_append using plain_subdomain [OF assms(1)] assms(2) by blast
  from host_of_plain [OF this assms(4)] show ?thesis using assms(3) by (auto simp: routed_def strip_suffix_iff)
qed

lemma tiny_domain: "sc_domain (cfg_server tiny_config) = ''tunnel.example.com''" "plain_host ''tunnel.example.com''"
  by (simp_all add: tiny_config_def default_config_def plain_host_def value_byte_def byte_val_def)

lemma demo_chars: "list_all subdomain_char ''demo''"
  by (simp add: subdomain_char_def is_ascii_lowercase_def byte_val_def)

lemma demo_routed: "routed protected_state (demo_request hs) ''demo'' 0"
  using routed_public_host [OF demo_chars, of protected_state "demo_request hs" "''demo.'' @ ''tunnel.example.com''" "''demo''" 0]
    protected_facts tiny_domain by (simp add: demo_request_def get_header_def names_host_def)

theorem gate_sound_witness:
  "proxy_http_request sample_proxy_env (demo_request []) protected_state = (Some unauthorized_response, protected_state) \<and>
   (\<exists>s1. proxy_http_request sample_proxy_env (demo_request [(''authorization'', ''Basic u:h'')]) protected_state =
      forward_public_request sample_proxy_env (demo_request [(''authorization'', ''Basic u:h'')]) ''demo'' 0 s1)"
proof -
  let ?b = "\<lambda>x. Some x :: str option" and ?c = "\<lambda>p h. Ok (p = h)" and ?s = "\<lambda>x. x :: str"
  have env: "gate_env ?b ?c ?s sample_proxy_env" by (simp add: gate_env_def sample_proxy_env_def)
  have no: "header_str (pq_headers (demo_request [])) = None"
    by (simp add: header_str_def demo_request_def get_header_def)
  have yes: "header_str (pq_headers (demo_request [(''authorization'', ''Basic u:h'')])) = Some ''Basic u:h''"
    by (simp add: header_str_def demo_request_def get_header_def value_to_str_def value_byte_def byte_val_def)
  have "utf8_valid ''u:h''" by (rule utf8_valid_ascii) (simp add: ascii_def byte_val_def)
  then have ok: "check_header ?b ?c ''Basic u:h'' ''u'' ''h''"
    by (simp add: check_header_def parse_basic_auth_header_def strip_prefix.simps split_once_def find_sub.simps
        verify_basic_auth_password_def starts_with_def)
  have u: "basic_auth_username (ss_heap protected_state 0) = Some ''u''" "basic_auth_hash (ss_heap protected_state 0) = Some ''h''"
    by (simp_all add: protected_facts(3) protected_session_def)
  note g = gate_sound [OF protected_facts(1) env demo_routed u]
  have "px_permit sample_proxy_env" by (simp add: sample_proxy_env_def)
  then show ?thesis using g [of "[]"] g [of "[(''authorization'', ''Basic u:h'')]"] no yes ok by auto
qed




end
