(* ===== verification/Http_Properties.thy ===== *)
theory Http_Properties
  imports Http_Proxy
begin

text \<open>
  What the HTTP part of the proxy guarantees: a response is read the same way however its bytes
  are cut into segments and whatever follows it, no body exceeds its limit, only a silent peer
  can keep the reader waiting, and the request written into the tunnel carries exactly one
  framing field.
\<close>

lemma read_size_pos: "0 < READ_BUFFER_SIZE"
  by (simp add: READ_BUFFER_SIZE_def)

section \<open>The header section\<close>

lemma find_sub_short:
  assumes "find_sub p (b @ c) = Some i" "find_sub p b = None"
  shows "length b < i + length p"
proof (rule ccontr)
  assume "\<not> length b < i + length p"
  then have "find_sub p (take (length b) (b @ c)) = Some i" by (intro find_sub_take [OF assms(1)]) simp
  with assms(2) show False by simp
qed

lemma read_header_section_complete:
  "find_sub crlf2 (b @ content s) = Some i \<Longrightarrow> i + 4 \<le> MAX_RESPONSE_HEADERS \<Longrightarrow>
   \<exists>s1 b1. read_header_section s b = Some (Ok (i + 4, s1, b1)) \<and> b1 @ content s1 = b @ content s \<and>
     i + 4 \<le> length b1 \<and> snd s1 = snd s"
proof (induction s b rule: read_header_section.induct)
  case (1 s b)
  show ?case
  proof (cases "find_sub crlf2 b")
    case (Some j)
    then have "j = i" using find_sub_append [OF Some, of "content s"] 1(2) by simp
    moreover have "j + 4 \<le> length b" using find_sub_Some [OF Some] by (simp add: crlf2_def)
    ultimately show ?thesis using Some 1(3) by (simp add: read_header_section.simps)
  next
    case None
    have l: "length b < i + 4" using find_sub_short [OF 1(2) None] by (simp add: crlf2_def)
    then have small: "\<not> length b \<ge> MAX_RESPONSE_HEADERS" using 1(3) by simp
    have "i + 4 \<le> length (b @ content s)" using find_sub_Some [OF 1(2)] by (simp add: crlf2_def)
    then have "content s \<noteq> []" using l by auto
    then obtain d s' where r: "s_read READ_BUFFER_SIZE s = Some (Ok (d, s'))" "d \<noteq> []" "content s = d @ content s'" "snd s' = snd s"
      by (rule s_read_more [OF _ read_size_pos])
    have f: "find_sub crlf2 ((b @ d) @ content s') = Some i" using 1(2) r(3) by simp
    have ok: "\<not> (length (b @ d) > MAX_RESPONSE_HEADERS \<and> find_sub crlf2 (b @ d) = None)"
    proof (cases "find_sub crlf2 (b @ d)")
      case None
      then show ?thesis using find_sub_short [OF f None] 1(3) by (simp add: crlf2_def)
    qed simp
    have "read_header_section s b = read_header_section s' (b @ d)"
      using None small r(1,2) ok by (subst read_header_section.simps) auto
    then show ?thesis using 1(1) [OF None small r(1) refl refl r(2) ok f 1(3)] r(3,4) by auto
  qed
qed

section \<open>Bodies\<close>

lemma ensure_buffered_complete:
  "n \<le> length (b @ content s) \<Longrightarrow> \<exists>s1 b1. ensure_buffered s b n = Some (Ok (s1, b1))"
proof (induction s b n rule: ensure_buffered.induct)
  case (1 s b n)
  show ?case
  proof (cases "length b \<ge> n")
    case True
    then show ?thesis by (simp add: ensure_buffered.simps)
  next
    case False
    then have "content s \<noteq> []" using 1(2) by auto
    then obtain d s' where r: "s_read READ_BUFFER_SIZE s = Some (Ok (d, s'))" "d \<noteq> []" "content s = d @ content s'" "snd s' = snd s"
      by (rule s_read_more [OF _ read_size_pos])
    then show ?thesis
      using False 1(1) [OF False r(1) refl refl r(2)] 1(2) by (subst ensure_buffered.simps) auto
  qed
qed

lemma fixed_loop_complete:
  "content s = d @ r \<Longrightarrow> n = length (b @ d) \<Longrightarrow>
   \<exists>s1. fixed_loop s b n = Some (Ok (b @ d, s1)) \<and> content s1 = r \<and> snd s1 = snd s"
proof (induction s b n arbitrary: d rule: fixed_loop.induct)
  case (1 s b n)
  show ?case
  proof (cases "length b \<ge> n")
    case True
    then show ?thesis using 1(2,3) by (simp add: fixed_loop.simps)
  next
    case False
    let ?k = "min (n - length b) READ_BUFFER_SIZE"
    have k: "0 < ?k" using False read_size_pos by simp
    have "content s \<noteq> []" using False 1(2,3) by auto
    then obtain e s' where r: "s_read ?k s = Some (Ok (e, s'))" "e \<noteq> []" "content s = e @ content s'" "snd s' = snd s"
      by (rule s_read_more [OF _ k])
    have "length e \<le> n - length b" using s_read_Ok(3) [OF r(1) k] by simp
    then have le: "length e \<le> length d" using 1(3) by simp
    have "d @ r = e @ content s'" using 1(2) r(3) by simp
    then obtain x where d: "d = e @ x" "content s' = x @ r" using le by (rule append_split)
    have "\<exists>s1. fixed_loop s' (b @ e) n = Some (Ok ((b @ e) @ x, s1)) \<and> content s1 = r \<and> snd s1 = snd s'"
      by (rule 1(1) [OF False r(1) refl refl r(2) d(2)]) (use 1(3) d(1) in simp)
    moreover have "fixed_loop s b n = fixed_loop s' (b @ e) n"
      using False r(1,2) by (subst fixed_loop.simps) simp
    ultimately show ?thesis using d(1) r(4) by simp
  qed
qed

lemma read_fixed_body_complete:
  assumes "b @ content s = body @ rest" "length body \<le> m"
  shows "\<exists>s1 b1. read_fixed_body s b (length body) m = Some (Ok (body, s1, b1)) \<and> b1 @ content s1 = rest"
proof (cases "length b \<ge> length body")
  case True
  with assms(1) obtain x where "b = body @ x" "rest = x @ content s" by (rule append_split)
  then show ?thesis using assms(2)
    by (simp add: read_fixed_body_def take_buffered_def Let_def fixed_loop.simps)
next
  case False
  then have t: "take_buffered b (length body) = (b, [])" by (simp add: take_buffered_def)
  have "length b \<le> length body" using False by simp
  with assms(1) [symmetric] obtain x where d: "body = b @ x" "content s = x @ rest" by (rule append_split)
  obtain s1 where "fixed_loop s b (length body) = Some (Ok (body, s1))" "content s1 = rest"
    using fixed_loop_complete [OF d(2), of "length body" b] d(1) by auto
  then show ?thesis using assms(2) by (cases s1) (simp add: read_fixed_body_def t)
qed

text \<open>A line as the chunked coding has it: short enough, and its first \<open>CRLF\<close> ends it.\<close>

definition line_ok :: "bytes \<Rightarrow> bool" where
  "line_ok l \<longleftrightarrow> find_sub crlf (l @ crlf) = Some (length l) \<and> length l < MAX_RESPONSE_HEADERS"

lemma read_line_complete:
  "line_ok l \<Longrightarrow> b @ content s = l @ crlf @ rest \<Longrightarrow>
   \<exists>s1 b1. read_line_crlf s b = Some (Ok (l, s1, b1)) \<and> b1 @ content s1 = rest"
proof (induction s b rule: read_line_crlf.induct)
  case (1 s b)
  have f: "find_sub crlf (b @ content s) = Some (length l)"
    using find_sub_append [of crlf "l @ crlf" "length l" rest] 1(2,3) by (simp add: line_ok_def)
  show ?case
  proof (cases "find_sub crlf b")
    case (Some j)
    then have j: "j = length l" using find_sub_append [OF Some, of "content s"] f by simp
    have "length (l @ crlf) \<le> length b" using find_sub_Some [OF Some] j by simp
    moreover have "b @ content s = (l @ crlf) @ rest" using 1(3) by simp
    ultimately obtain x where "b = (l @ crlf) @ x" "rest = x @ content s" using append_split by blast
    then have "take j b = l" "drop (j + 2) b @ content s = rest" using j by simp_all
    then show ?thesis using Some by (simp add: read_line_crlf.simps)
  next
    case None
    have "length b < length l + 2" using find_sub_short [OF f None] by simp
    then have small: "\<not> MAX_RESPONSE_HEADERS < length b" using 1(2) by (simp add: line_ok_def)
    have "length b + 1 \<le> length (b @ content s)"
      using find_sub_Some [OF f] \<open>length b < length l + 2\<close> by simp
    then obtain s1 b1 where e: "ensure_buffered s b (length b + 1) = Some (Ok (s1, b1))"
      using ensure_buffered_complete by blast
    have "b1 @ content s1 = l @ crlf @ rest" using ensure_buffered_Ok [OF e] 1(3) by simp
    then show ?thesis
      using 1(1) [OF None small e refl refl 1(2)] None small e by (subst read_line_crlf.simps) simp
  qed
qed

inductive trailer_wire :: "bytes \<Rightarrow> bool" where
  TrailerEnd: "trailer_wire crlf"
| TrailerLine: "line_ok l \<Longrightarrow> l \<noteq> [] \<Longrightarrow> trailer_wire t \<Longrightarrow> trailer_wire (l @ crlf @ t)"

text \<open>A size line: the text before an extension, white space trimmed, is the size in hexadecimal.\<close>

definition size_line :: "bytes \<Rightarrow> nat \<Rightarrow> bool" where
  "size_line l n \<longleftrightarrow> line_ok l \<and> utf8_valid (hd (split_on (CHR '';'') l)) \<and>
     usize_from_hex (trim (hd (split_on (CHR '';'') l))) = Some n"

text \<open>The chunked coding (RFC 9112, section 7.1): the decoded body and its bytes on the wire.\<close>

inductive chunk_wire :: "bytes \<Rightarrow> bytes \<Rightarrow> bool" where
  ChunkLast: "size_line l 0 \<Longrightarrow> trailer_wire t \<Longrightarrow> chunk_wire [] (l @ crlf @ t)"
| ChunkMore: "size_line l (length c) \<Longrightarrow> c \<noteq> [] \<Longrightarrow> chunk_wire body w \<Longrightarrow>
    chunk_wire (c @ body) (l @ crlf @ c @ crlf @ w)"

lemma line_ok_Nil: "line_ok []"
  by (simp add: line_ok_def MAX_RESPONSE_HEADERS_def starts_with_def)

lemma skip_trailers_complete:
  "trailer_wire t \<Longrightarrow> b @ content s = t @ rest \<Longrightarrow>
   \<exists>s1 b1. skip_trailers s b = Some (Ok (s1, b1)) \<and> b1 @ content s1 = rest"
proof (induction arbitrary: s b rule: trailer_wire.induct)
  case TrailerEnd
  then obtain s1 b1 where "read_line_crlf s b = Some (Ok ([], s1, b1))" "b1 @ content s1 = rest"
    using read_line_complete [OF line_ok_Nil, of b s rest] by auto
  then show ?case by (simp add: skip_trailers.simps)
next
  case (TrailerLine l t)
  then obtain s1 b1 where "read_line_crlf s b = Some (Ok (l, s1, b1))" "b1 @ content s1 = t @ rest"
    using read_line_complete [OF TrailerLine.hyps(1), of b s "t @ rest"] by auto
  then show ?case using TrailerLine.IH [of b1 s1] TrailerLine.hyps(2) by (subst skip_trailers.simps) simp
qed

lemma take_exactly:
  assumes "b @ content s = c @ r" "length c \<le> length b"
  obtains x where "take_buffered b (length c) = (c, x)" "x @ content s = r"
proof -
  from assms obtain x where "b = c @ x" "r = x @ content s" by (rule append_split)
  then show ?thesis using that [of x] by (simp add: take_buffered_def Let_def)
qed

lemma ensure_then_take:
  assumes "b @ content s = c @ r"
  obtains s1 b1 x where "ensure_buffered s b (length c) = Some (Ok (s1, b1))"
    "take_buffered b1 (length c) = (c, x)" "x @ content s1 = r"
proof -
  have "length c \<le> length (b @ content s)" by (simp add: assms)
  then obtain s1 b1 where e: "ensure_buffered s b (length c) = Some (Ok (s1, b1))"
    using ensure_buffered_complete by blast
  from ensure_buffered_Ok [OF e] have "b1 @ content s1 = c @ r" "length c \<le> length b1"
    by (simp_all add: assms)
  then obtain x where "take_buffered b1 (length c) = (c, x)" "x @ content s1 = r" by (rule take_exactly)
  with e that show ?thesis by blast
qed

lemma chunked_loop_complete:
  "chunk_wire body w \<Longrightarrow> b @ content s = w @ rest \<Longrightarrow> length acc + length body \<le> m \<Longrightarrow>
   \<exists>s1 b1. chunked_loop s b m acc = Some (Ok (acc @ body, s1, b1)) \<and> b1 @ content s1 = rest"
proof (induction arbitrary: s b acc rule: chunk_wire.induct)
  case (ChunkLast l t)
  have l: "line_ok l" using ChunkLast.hyps(1) by (simp add: size_line_def)
  have "b @ content s = l @ crlf @ t @ rest" using ChunkLast.prems(1) by simp
  from read_line_complete [OF l this] obtain s1 b1
    where r: "read_line_crlf s b = Some (Ok (l, s1, b1))" "b1 @ content s1 = t @ rest" by blast
  obtain s2 b2 where "skip_trailers s1 b1 = Some (Ok (s2, b2))" "b2 @ content s2 = rest"
    using skip_trailers_complete [OF ChunkLast.hyps(2) r(2)] by blast
  then show ?case using r ChunkLast.hyps(1) by (subst chunked_loop.simps) (simp add: size_line_def)
next
  case (ChunkMore l c body w)
  have l: "line_ok l" using ChunkMore.hyps(1) by (simp add: size_line_def)
  have "b @ content s = l @ crlf @ c @ crlf @ w @ rest" using ChunkMore.prems(1) by simp
  from read_line_complete [OF l this] obtain s1 b1
    where r: "read_line_crlf s b = Some (Ok (l, s1, b1))" "b1 @ content s1 = c @ crlf @ w @ rest" by blast
  from r(2) obtain s2 b2 x2 where e: "ensure_buffered s1 b1 (length c) = Some (Ok (s2, b2))"
    "take_buffered b2 (length c) = (c, x2)" "x2 @ content s2 = crlf @ w @ rest" by (rule ensure_then_take)
  from e(3) obtain s3 b3 x3 where f: "ensure_buffered s2 x2 (length crlf) = Some (Ok (s3, b3))"
    "take_buffered b3 (length crlf) = (crlf, x3)" "x3 @ content s3 = w @ rest" by (rule ensure_then_take)
  have f2: "ensure_buffered s2 x2 2 = Some (Ok (s3, b3))" "take_buffered b3 2 = (crlf, x3)"
    using f(1,2) by (simp_all add: numeral_2_eq_2)
  have fits: "\<not> length c > m - length acc" "length c \<noteq> 0" using ChunkMore.prems(2) ChunkMore.hyps(2) by auto
  have "chunked_loop s b m acc = chunked_loop s3 x3 m (acc @ c)"
    using r(1) ChunkMore.hyps(1) fits e(1,2) f2 by (subst chunked_loop.simps) (simp add: size_line_def)
  moreover have "length (acc @ c) + length body \<le> m" using ChunkMore.prems(2) by simp
  ultimately show ?case using ChunkMore.IH [OF f(3), of "acc @ c"] by simp
qed

section \<open>A sample response\<close>

definition sample_hdr :: bytes where
  "sample_hdr = ''HTTP/1.1 200'' @ crlf @ ''Content-Length: 5'' @ crlf2"

lemma sample_ascii: "list_all ascii sample_hdr"
  by (simp add: sample_hdr_def crlf2_def ascii_def byte_val_def)
lemma sample_find: "find_sub crlf2 sample_hdr = Some (length sample_hdr - 4)"
  by (simp add: sample_hdr_def crlf2_def starts_with_def)

lemma split_ws_word: "list_all graphic w \<Longrightarrow> split_ws acc w = (if rev w @ acc = [] then [] else [rev acc @ w])"
  using split_ws_graphic [of w acc "[]"] by (simp add: split_ws_Nil)

lemma sample_status: "split_whitespace ''HTTP/1.1 200'' = [''HTTP/1.1'', ''200'']"
proof -
  have "split_whitespace (''HTTP/1.1'' @ CHR '' '' # ''200'') = [''HTTP/1.1'', ''200'']"
    unfolding split_whitespace_def
    by (subst split_ws_graphic, simp add: graphic_def byte_val_def, subst split_ws_space, subst split_ws_word)
       (simp_all add: graphic_def byte_val_def)
  then show ?thesis by simp
qed

lemma sample_split: "split_crlf sample_hdr = [''HTTP/1.1 200'', ''Content-Length: 5'', [], []]"
  by (simp add: sample_hdr_def crlf2_def)

lemma sample_trims: "trim ''Content-Length'' = ''Content-Length''" "trim '' 5'' = ''5''" "trim ''5'' = ''5''"
  by (simp_all add: trim_space trim_all_graphic graphic_def byte_val_def)

lemma sample_parse: "parse_response_headers sample_hdr = Ok (200, [(''Content-Length'', ''5'')])"
  unfolding parse_response_headers_def sample_split
  by (simp add: sample_status Let_def starts_with_def split_once_def sample_trims parse_u16_def parse_radix_def digit_val_def byte_val_def)

lemma char_of_eval: "char_of (99::nat) = CHR ''c''" "char_of (108::nat) = CHR ''l''" "char_of (116::nat) = CHR ''t''" "char_of (101::nat) = CHR ''e''"
  by (simp_all add: char_of_def bit_0)

lemma sample_transfer: "transfer_codings [(''Content-Length'', ''5'')] = []"
  by (simp add: transfer_codings_def header_values_def eq_ignore_ascii_case_def to_ascii_lowercase_def lower_char_def byte_val_def char_of_eval)

lemma sample_length: "parse_content_length [(''Content-Length'', ''5'')] = Ok (Some 5)"
  by (simp add: parse_content_length_def header_values_def eq_ignore_ascii_case_def to_ascii_lowercase_def lower_char_def
      byte_val_def char_of_eval sample_trims parse_usize_def parse_radix_def digit_val_def)

lemma sample_small: "4 \<le> length sample_hdr" "length sample_hdr \<le> MAX_RESPONSE_HEADERS"
  by (simp_all add: sample_hdr_def crlf2_def MAX_RESPONSE_HEADERS_def)

section \<open>One response\<close>

lemma response_head_final:
  assumes "content s = hdr @ rest" "find_sub crlf2 hdr = Some (length hdr - 4)" "4 \<le> length hdr"
    and "length hdr \<le> MAX_RESPONSE_HEADERS" "utf8_valid hdr" "parse_response_headers hdr = Ok (code, hs)"
    and "\<not> (100 \<le> code \<and> code < 200 \<and> code \<noteq> 101)"
  shows "\<exists>s1 b1. response_head n s [] = Some (Ok (code, hs, s1, b1)) \<and> b1 @ content s1 = rest \<and> snd s1 = snd s"
proof -
  have "find_sub crlf2 ([] @ content s) = Some (length hdr - 4)"
    using find_sub_append [OF assms(2)] assms(1) by simp
  from read_header_section_complete [OF this] assms(3,4) obtain s1 b1
    where r: "read_header_section s [] = Some (Ok (length hdr, s1, b1))" "b1 @ content s1 = hdr @ rest"
      "length hdr \<le> length b1" "snd s1 = snd s" by (auto simp: assms(1))
  from r(2,3) obtain x where "b1 = hdr @ x" "rest = x @ content s1" by (rule append_split)
  then have "response_head n s [] = Some (Ok (code, hs, s1, x))" "x @ content s1 = rest" "snd s1 = snd s"
    using r assms(5-7) by (subst response_head.simps, auto)+
  then show ?thesis by blast
qed

lemma read_fixed_response:
  assumes "content s = hdr @ body @ rest" "find_sub crlf2 hdr = Some (length hdr - 4)" "4 \<le> length hdr"
    and "length hdr \<le> MAX_RESPONSE_HEADERS" "utf8_valid hdr" "parse_response_headers hdr = Ok (code, hs)"
    and "\<not> response_has_no_body meth code" "transfer_codings hs = []"
    and "parse_content_length hs = Ok (Some (length body))" "length body \<le> m"
  shows "read_http_response s meth m = Some (Ok \<lparr>pr_status_code = code, pr_headers = hs, pr_body = body\<rparr>)"
proof -
  have "\<not> (100 \<le> code \<and> code < 200 \<and> code \<noteq> 101)" using assms(7) by (auto simp: response_has_no_body_def)
  from response_head_final [OF assms(1-6) this] obtain s1 b1
    where r: "response_head MAX_INFORMATIONAL_RESPONSES s [] = Some (Ok (code, hs, s1, b1))" "b1 @ content s1 = body @ rest"
    by blast
  obtain s2 b2 where "read_fixed_body s1 b1 (length body) m = Some (Ok (body, s2, b2))"
    using read_fixed_body_complete [OF r(2) assms(10)] by blast
  then show ?thesis
    using assms(7-9) r(1) by (simp add: read_http_response_def read_body_def)
qed

text \<open>
  A response with a \<open>Content-Length\<close> is complete when its body is. However the bytes are cut
  into segments, and whatever follows them (the connection closing, an error, silence on a
  kept-alive connection, the next response), the reader returns exactly the status, the headers
  and the announced number of body bytes.
\<close>

theorem fixed_length_response:
  assumes "content s = hdr @ body @ rest" "find_sub crlf2 hdr = Some (length hdr - 4)" "4 \<le> length hdr"
    and "length hdr \<le> MAX_RESPONSE_HEADERS" "utf8_valid hdr" "parse_response_headers hdr = Ok (code, hs)"
    and "\<not> response_has_no_body meth code" "transfer_codings hs = []"
    and "parse_content_length hs = Ok (Some (length body))" "length body \<le> m"
  shows "read_http_response s meth m = Some (Ok \<lparr>pr_status_code = code, pr_headers = hs, pr_body = body\<rparr>)"
  by (rule read_fixed_response [OF assms])

theorem fixed_length_response_witness:
  "read_http_response ([take 7 sample_hdr, drop 7 sample_hdr @ ''he'', ''lloHTTP''], Stall) ''GET'' 100 =
     Some (Ok \<lparr>pr_status_code = 200, pr_headers = [(''Content-Length'', ''5'')], pr_body = ''hello''\<rparr>)"
proof (rule fixed_length_response [OF _ sample_find sample_small utf8_valid_ascii [OF sample_ascii] sample_parse _ sample_transfer])
  show "content ([take 7 sample_hdr, drop 7 sample_hdr @ ''he'', ''lloHTTP''], Stall) = sample_hdr @ ''hello'' @ ''HTTP''"
    by (simp add: content_def sample_hdr_def crlf2_def)
qed (simp_all add: response_has_no_body_def sample_length)

lemma read_chunked_response:
  assumes "content s = hdr @ w @ rest" "find_sub crlf2 hdr = Some (length hdr - 4)" "4 \<le> length hdr"
    and "length hdr \<le> MAX_RESPONSE_HEADERS" "utf8_valid hdr" "parse_response_headers hdr = Ok (code, hs)"
    and "\<not> response_has_no_body meth code" "transfer_codings hs = [''chunked'']"
    and "chunk_wire body w" "length body \<le> m"
  shows "read_http_response s meth m = Some (Ok \<lparr>pr_status_code = code, pr_headers = hs, pr_body = body\<rparr>)"
proof -
  have "\<not> (100 \<le> code \<and> code < 200 \<and> code \<noteq> 101)" using assms(7) by (auto simp: response_has_no_body_def)
  from response_head_final [OF assms(1-6) this] obtain s1 b1
    where r: "response_head MAX_INFORMATIONAL_RESPONSES s [] = Some (Ok (code, hs, s1, b1))" "b1 @ content s1 = w @ rest"
    by blast
  obtain s2 b2 where "chunked_loop s1 b1 m [] = Some (Ok (body, s2, b2))"
    using chunked_loop_complete [OF assms(9) r(2), of "[]" m] assms(10) by auto
  then show ?thesis
    using assms(7,8) r(1) by (simp add: read_http_response_def read_body_def read_chunked_body_def)
qed

text \<open>
  C8: a chunked response is decoded to its body. For every chunked coding of a body, with any
  extensions and trailers, any segmentation and anything after it, the reader returns the
  decoded body.
\<close>

theorem chunked_response:
  assumes "content s = hdr @ w @ rest" "find_sub crlf2 hdr = Some (length hdr - 4)" "4 \<le> length hdr"
    and "length hdr \<le> MAX_RESPONSE_HEADERS" "utf8_valid hdr" "parse_response_headers hdr = Ok (code, hs)"
    and "\<not> response_has_no_body meth code" "transfer_codings hs = [''chunked'']"
    and "chunk_wire body w" "length body \<le> m"
  shows "read_http_response s meth m = Some (Ok \<lparr>pr_status_code = code, pr_headers = hs, pr_body = body\<rparr>)"
  by (rule read_chunked_response [OF assms])

definition sample_chunked_hdr :: bytes where
  "sample_chunked_hdr = ''HTTP/1.1 200'' @ crlf @ ''Transfer-Encoding: chunked'' @ crlf2"

lemma sample_chunked_facts:
  "list_all ascii sample_chunked_hdr" "find_sub crlf2 sample_chunked_hdr = Some (length sample_chunked_hdr - 4)"
  "4 \<le> length sample_chunked_hdr" "length sample_chunked_hdr \<le> MAX_RESPONSE_HEADERS"
  "split_crlf sample_chunked_hdr = [''HTTP/1.1 200'', ''Transfer-Encoding: chunked'', [], []]"
  by (simp_all add: sample_chunked_hdr_def crlf2_def ascii_def byte_val_def starts_with_def MAX_RESPONSE_HEADERS_def)

lemma sample_chunked_parse:
  "parse_response_headers sample_chunked_hdr = Ok (200, [(''Transfer-Encoding'', ''chunked'')])"
proof -
  have "trim ''Transfer-Encoding'' = ''Transfer-Encoding''" "trim '' chunked'' = ''chunked''"
    by (simp_all add: trim_space trim_all_graphic graphic_def byte_val_def)
  then show ?thesis
    unfolding parse_response_headers_def sample_chunked_facts(5)
    by (simp add: sample_status starts_with_def split_once_def parse_u16_def parse_radix_def digit_val_def byte_val_def)
qed

lemma sample_codings: "transfer_codings [(''Transfer-Encoding'', ''chunked'')] = [''chunked'']"
proof -
  have "trim ''chunked'' = ''chunked''" by (simp add: trim_all_graphic graphic_def byte_val_def)
  then show ?thesis
    by (simp add: transfer_codings_def header_values_def eq_ignore_ascii_case_def to_ascii_lowercase_def lower_char_def byte_val_def char_of_eval)
qed

lemma sample_size_lines: "size_line ''5;x'' 5" "size_line ''0'' 0"
proof -
  have "trim ''5'' = ''5''" "trim ''0'' = ''0''" by (simp_all add: trim_all_graphic graphic_def byte_val_def)
  moreover have "utf8_valid ''5''" "utf8_valid ''0''" by (simp_all add: utf8_valid_ascii ascii_def byte_val_def)
  ultimately show "size_line ''5;x'' 5" "size_line ''0'' 0"
    by (simp_all add: size_line_def line_ok_def starts_with_def MAX_RESPONSE_HEADERS_def usize_from_hex_def
        parse_radix_def digit_val_def byte_val_def)
qed

theorem chunked_response_witness:
  "read_http_response ([sample_chunked_hdr @ ''5;'', ''x'' @ crlf @ ''hello'' @ crlf @ ''0'' @ crlf2], Stall) ''GET'' 100 =
     Some (Ok \<lparr>pr_status_code = 200, pr_headers = [(''Transfer-Encoding'', ''chunked'')], pr_body = ''hello''\<rparr>)"
proof -
  have "chunk_wire (''hello'' @ []) (''5;x'' @ crlf @ ''hello'' @ crlf @ (''0'' @ crlf @ crlf))"
  proof (intro ChunkMore ChunkLast TrailerEnd)
    have "length ''hello'' = 5" by simp
    then show "size_line ''5;x'' (length ''hello'')" using sample_size_lines(1) by (simp only:)
  qed (simp_all add: sample_size_lines(2))
  then have w: "chunk_wire ''hello'' (''5;x'' @ crlf @ ''hello'' @ crlf @ ''0'' @ crlf2)" by (simp add: crlf2_def)
  show ?thesis
  proof (rule chunked_response [OF _ sample_chunked_facts(2-4) utf8_valid_ascii [OF sample_chunked_facts(1)]
        sample_chunked_parse _ sample_codings w])
    show "content ([sample_chunked_hdr @ ''5;'', ''x'' @ crlf @ ''hello'' @ crlf @ ''0'' @ crlf2], Stall) =
        sample_chunked_hdr @ (''5;x'' @ crlf @ ''hello'' @ crlf @ ''0'' @ crlf2) @ []"
      by (simp add: content_def)
  qed (simp_all add: response_has_no_body_def)
qed

section \<open>Limits\<close>

lemma fixed_loop_length:
  "fixed_loop s b n = Some (Ok (body, s1)) \<Longrightarrow> length b \<le> n \<Longrightarrow> length body = n"
proof (induction s b n rule: fixed_loop.induct)
  case (1 s b n)
  show ?case
  proof (cases "length b \<ge> n")
    case True
    then show ?thesis using 1(2,3) by (simp add: fixed_loop.simps)
  next
    case False
    let ?k = "min (n - length b) READ_BUFFER_SIZE"
    obtain d s2 where r: "s_read ?k s = Some (Ok (d, s2))" "d \<noteq> []" "fixed_loop s2 (b @ d) n = Some (Ok (body, s1))"
      using 1(2) False by (subst (asm) fixed_loop.simps) (auto split: option.splits sum.splits if_splits)
    have k: "0 < ?k" using False read_size_pos by simp
    have "length d \<le> n - length b" using s_read_Ok(3) [OF r(1) k] by simp
    then have "length (b @ d) \<le> n" using 1(3) by (simp add: le_diff_conv2)
    then show ?thesis using 1(1) [OF False r(1) refl refl r(2,3)] by simp
  qed
qed

lemma chunked_loop_bound:
  "chunked_loop s b m acc = Some (Ok (body, s1, b1)) \<Longrightarrow> length acc \<le> m \<Longrightarrow> length body \<le> m"
proof (induction s b m acc rule: chunked_loop.induct)
  case (1 s b m acc)
  obtain line s2 b2 n where r: "read_line_crlf s b = Some (Ok (line, s2, b2))"
      "utf8_valid (hd (split_on (CHR '';'') line))" "usize_from_hex (trim (hd (split_on (CHR '';'') line))) = Some n"
    using 1(2) by (subst (asm) chunked_loop.simps) (auto simp: Let_def split: option.splits sum.splits if_splits)
  show ?case
  proof (cases "n = 0")
    case True
    then have "body = acc" using 1(2) r by (subst (asm) chunked_loop.simps) (auto simp: io_then_Ok_iff)
    then show ?thesis using 1(3) by simp
  next
    case False
    obtain s3 b3 where e: "\<not> n > m - length acc" "ensure_buffered s2 b2 n = Some (Ok (s3, b3))"
      using 1(2) r False by (subst (asm) chunked_loop.simps) (auto split: option.splits sum.splits if_splits prod.splits)
    obtain chunk b4 where k: "take_buffered b3 n = (chunk, b4)" by fastforce
    obtain s4 b5 where f: "ensure_buffered s3 b4 2 = Some (Ok (s4, b5))"
      using 1(2) r False e k by (subst (asm) chunked_loop.simps) (auto split: option.splits sum.splits if_splits prod.splits)
    obtain sep b6 where p: "take_buffered b5 2 = (sep, b6)" by fastforce
    have sep: "sep = crlf" "chunked_loop s4 b6 m (acc @ chunk) = Some (Ok (body, s1, b1))"
      using 1(2) r False e k f p by (subst (asm) chunked_loop.simps, simp split: if_splits)+
    have "length chunk \<le> n" using k by (auto simp: take_buffered_def Let_def)
    then have "length (acc @ chunk) \<le> m" using e(1) 1(3) by simp
    then show ?thesis using 1(1) [OF r(1) refl refl refl refl _ r(3) False e(1,2) refl refl k [symmetric] f refl refl p [symmetric] _ sep(2)] r(2) sep(1) by simp
  qed
qed

lemma close_loop_bound:
  "close_loop s b m = Some (Ok body) \<Longrightarrow> length b \<le> m \<Longrightarrow> length body \<le> m"
proof (induction s b m rule: close_loop.induct)
  case (1 s b m)
  obtain d s1 where r: "s_read READ_BUFFER_SIZE s = Some (Ok (d, s1))"
    using 1(2) by (subst (asm) close_loop.simps) (auto split: option.splits sum.splits)
  show ?case
  proof (cases "d = []")
    case True
    then show ?thesis using 1(2,3) r by (subst (asm) close_loop.simps) simp
  next
    case False
    then have n: "\<not> length d > m - length b" "close_loop s1 (b @ d) m = Some (Ok body)"
      using 1(2) r by (subst (asm) close_loop.simps, simp split: if_splits)+
    then show ?thesis using 1(1) [OF r refl refl False n] 1(3) by simp
  qed
qed

lemma read_body_bound: "read_body hs s b m = Some (Ok body) \<Longrightarrow> length body \<le> m"
  by (auto simp: read_body_def read_chunked_body_def read_fixed_body_def read_close_delimited_body_def
      take_buffered_def Let_def io_then_Ok_iff
      dest!: chunked_loop_bound close_loop_bound fixed_loop_length split: if_splits option.splits)

section \<open>Waiting\<close>

lemma read_header_section_None: "read_header_section s b = None \<Longrightarrow> snd s = Stall"
proof (induction s b rule: read_header_section.induct)
  case (1 s b)
  show ?case
  proof (cases "s_read READ_BUFFER_SIZE s")
    case None
    then show ?thesis using s_read_None read_size_pos by blast
  next
    case (Some x)
    then obtain d s1 where r: "s_read READ_BUFFER_SIZE s = Some (Ok (d, s1))" "d \<noteq> []" "find_sub crlf2 b = None"
        "\<not> length b \<ge> MAX_RESPONSE_HEADERS" "\<not> (length (b @ d) > MAX_RESPONSE_HEADERS \<and> find_sub crlf2 (b @ d) = None)"
        "read_header_section s1 (b @ d) = None"
      using 1(2) by (subst (asm) read_header_section.simps) (auto split: option.splits sum.splits if_splits)
    then show ?thesis using 1(1) [OF r(3,4,1) refl refl r(2,5,6)] s_read_Ok(2) [OF r(1) read_size_pos] by simp
  qed
qed

lemma ensure_buffered_None: "ensure_buffered s b n = None \<Longrightarrow> snd s = Stall"
proof (induction s b n rule: ensure_buffered.induct)
  case (1 s b n)
  show ?case
  proof (cases "s_read READ_BUFFER_SIZE s")
    case None
    then show ?thesis using s_read_None read_size_pos by blast
  next
    case (Some x)
    then obtain d s1 where r: "\<not> n \<le> length b" "s_read READ_BUFFER_SIZE s = Some (Ok (d, s1))" "d \<noteq> []"
        "ensure_buffered s1 (b @ d) n = None"
      using 1(2) by (subst (asm) ensure_buffered.simps) (auto split: option.splits sum.splits if_splits)
    then show ?thesis using 1(1) [OF r(1,2) refl refl r(3,4)] s_read_Ok(2) [OF r(2) read_size_pos] by simp
  qed
qed

lemma fixed_loop_None: "fixed_loop s b n = None \<Longrightarrow> snd s = Stall"
proof (induction s b n rule: fixed_loop.induct)
  case (1 s b n)
  have n: "\<not> length b \<ge> n" using 1(2) by (subst (asm) fixed_loop.simps) (auto split: if_splits)
  let ?k = "min (n - length b) READ_BUFFER_SIZE"
  have k: "0 < ?k" using n read_size_pos by simp
  show ?case
  proof (cases "s_read ?k s")
    case None
    then show ?thesis using s_read_None k by blast
  next
    case (Some x)
    then obtain d s1 where r: "s_read ?k s = Some (Ok (d, s1))" "d \<noteq> []" "fixed_loop s1 (b @ d) n = None"
      using 1(2) n by (subst (asm) fixed_loop.simps) (auto split: option.splits sum.splits if_splits)
    then show ?thesis using 1(1) [OF n r(1) refl refl r(2,3)] s_read_Ok(2) [OF r(1) k] by simp
  qed
qed

lemma read_line_crlf_None: "read_line_crlf s b = None \<Longrightarrow> snd s = Stall"
proof (induction s b rule: read_line_crlf.induct)
  case (1 s b)
  show ?case
  proof (cases "ensure_buffered s b (length b + 1)")
    case None
    then show ?thesis by (rule ensure_buffered_None)
  next
    case (Some x)
    then obtain s1 b1 where r: "find_sub crlf b = None" "\<not> MAX_RESPONSE_HEADERS < length b"
        "ensure_buffered s b (length b + 1) = Some (Ok (s1, b1))" "read_line_crlf s1 b1 = None"
      using 1(2) by (subst (asm) read_line_crlf.simps) (auto split: option.splits sum.splits if_splits)
    then show ?thesis using 1(1) [OF r(1-3) refl refl r(4)] ensure_buffered_Ok [OF r(3)] by simp
  qed
qed

lemma skip_trailers_None: "skip_trailers s b = None \<Longrightarrow> snd s = Stall"
proof (induction s b rule: skip_trailers.induct)
  case (1 s b)
  show ?case
  proof (cases "read_line_crlf s b")
    case None
    then show ?thesis by (rule read_line_crlf_None)
  next
    case (Some x)
    then obtain l s1 b1 where r: "read_line_crlf s b = Some (Ok (l, s1, b1))" "l \<noteq> []" "skip_trailers s1 b1 = None"
      using 1(2) by (subst (asm) skip_trailers.simps) (auto split: sum.splits prod.splits if_splits)
    then show ?thesis using 1(1) [OF r(1) refl refl refl r(2,3)] read_line_crlf_Ok [OF r(1)] by simp
  qed
qed

lemma chunked_loop_None: "chunked_loop s b m acc = None \<Longrightarrow> snd s = Stall"
proof (induction s b m acc rule: chunked_loop.induct)
  case (1 s b m acc)
  show ?case
  proof (cases "read_line_crlf s b")
    case None
    then show ?thesis by (rule read_line_crlf_None)
  next
    case (Some x)
    then obtain line s2 b2 n where r: "read_line_crlf s b = Some (Ok (line, s2, b2))"
        "utf8_valid (hd (split_on (CHR '';'') line))" "usize_from_hex (trim (hd (split_on (CHR '';'') line))) = Some n"
      using 1(2) by (subst (asm) chunked_loop.simps) (auto simp: Let_def split: option.splits sum.splits if_splits)
    have s2: "snd s2 = snd s" using read_line_crlf_Ok [OF r(1)] by simp
    consider "n = 0" "skip_trailers s2 b2 = None" | "n \<noteq> 0" "ensure_buffered s2 b2 n = None"
      | s3 b3 where "n \<noteq> 0" "\<not> n > m - length acc" "ensure_buffered s2 b2 n = Some (Ok (s3, b3))"
      using 1(2) r by (subst (asm) chunked_loop.simps) (auto simp: io_then_None_iff split: option.splits sum.splits if_splits prod.splits)
    then show ?thesis
    proof cases
      case 1
      then show ?thesis using skip_trailers_None s2 by metis
    next
      case 2
      then show ?thesis using ensure_buffered_None s2 by metis
    next
      case 3
      have s3: "snd s3 = snd s" using ensure_buffered_Ok [OF 3(3)] s2 by simp
      obtain chunk b4 where k: "take_buffered b3 n = (chunk, b4)" by fastforce
      show ?thesis
      proof (cases "ensure_buffered s3 b4 2")
        case None
        then show ?thesis using ensure_buffered_None s3 by metis
      next
        case (Some y)
        then obtain s4 b5 where f: "ensure_buffered s3 b4 2 = Some (Ok (s4, b5))"
          using 1(2) r 3 k by (subst (asm) chunked_loop.simps) (auto split: sum.splits)
        obtain sep b6 where p: "take_buffered b5 2 = (sep, b6)" by fastforce
        have sep: "sep = crlf" "chunked_loop s4 b6 m (acc @ chunk) = None"
          using 1(2) r 3 k f p by (subst (asm) chunked_loop.simps, simp split: if_splits)+
        have "snd s4 = snd s" using ensure_buffered_Ok [OF f] s3 by simp
        then show ?thesis
          using 1(1) [OF r(1) refl refl refl refl _ r(3) 3 refl refl k [symmetric] f refl refl p [symmetric] _ sep(2)] r(2) sep(1)
          by simp
      qed
    qed
  qed
qed

lemma close_loop_total: "close_loop s b m \<noteq> None"
proof (induction s b m rule: close_loop.induct)
  case (1 s b m)
  then show ?case by (subst close_loop.simps) (auto split: option.splits sum.splits)
qed

lemma read_fixed_body_None: "read_fixed_body s b n m = None \<Longrightarrow> snd s = Stall"
  by (cases "take_buffered b n") (auto simp: read_fixed_body_def io_then_None_iff split: if_splits dest: fixed_loop_None)

lemma read_body_None: "read_body hs s b m = None \<Longrightarrow> snd s = Stall"
  using close_loop_total [of s b m] read_fixed_body_None [of s b _ m] chunked_loop_None [of s b m "[]"]
  by (auto simp: read_body_def read_chunked_body_def read_close_delimited_body_def io_then_None_iff Let_def
      split: if_splits option.splits)

lemma read_header_section_end: "read_header_section s b = Some (Ok (n, s1, b1)) \<Longrightarrow> snd s1 = snd s"
proof (induction s b rule: read_header_section.induct)
  case (1 s b)
  show ?case
  proof (cases "find_sub crlf2 b")
    case (Some i)
    then show ?thesis using 1(2) by (auto simp: read_header_section.simps split: if_splits)
  next
    case None
    then obtain d s2 where r: "\<not> length b \<ge> MAX_RESPONSE_HEADERS" "s_read READ_BUFFER_SIZE s = Some (Ok (d, s2))" "d \<noteq> []"
        "\<not> (length (b @ d) > MAX_RESPONSE_HEADERS \<and> find_sub crlf2 (b @ d) = None)"
        "read_header_section s2 (b @ d) = Some (Ok (n, s1, b1))"
      using 1(2) by (subst (asm) read_header_section.simps) (auto split: option.splits sum.splits if_splits)
    then show ?thesis using 1(1) [OF None r(1,2) refl refl r(3-5)] s_read_Ok(2) [OF r(2) read_size_pos] by simp
  qed
qed

lemma response_head_end:
  "(response_head n s b = None \<longrightarrow> snd s = Stall) \<and>
   (\<forall>code hs s1 b1. response_head n s b = Some (Ok (code, hs, s1, b1)) \<longrightarrow> snd s1 = snd s)"
proof (induction n arbitrary: s b)
  case (0 s b)
  show ?case
    using read_header_section_None [of s b] read_header_section_end [of s b]
    by (subst (1 2) response_head.simps) (auto simp: io_then_None_iff io_then_Ok_iff split: if_splits)
next
  case (Suc n s b)
  have step: "response_head (Suc n) s b = io_then (read_header_section s b) (\<lambda>(e, s1, b1).
      (if \<not> utf8_valid (take e b1) then Some (Err ''invalid utf-8 sequence'')
        else io_then (Some (parse_response_headers (take e b1))) (\<lambda>(code, hs).
          (if 100 \<le> code \<and> code < 200 \<and> code \<noteq> 101 then response_head n s1 (drop e b1)
           else Some (Ok (code, hs, s1, drop e b1))))))"
    by (subst response_head.simps) (simp only: nat.case)
  show ?case
    using read_header_section_None [of s b] read_header_section_end [of s b] Suc.IH
    unfolding step by (fastforce simp: io_then_None_iff io_then_Ok_iff split: if_splits)
qed

text \<open>
  C21: the memory a response can take is bounded and only silence can keep the reader. Whatever
  the local service sends, a response that is accepted has a body of at most the configured
  size; and the reader always returns, with a response or an error, unless the peer keeps the
  connection open without sending the bytes it announced.
\<close>

theorem response_bounded_and_total:
  "(\<forall>r. read_http_response s meth m = Some (Ok r) \<longrightarrow> length (pr_body r) \<le> m) \<and>
   (read_http_response s meth m = None \<longrightarrow> snd s = Stall)"
proof
  show "\<forall>r. read_http_response s meth m = Some (Ok r) \<longrightarrow> length (pr_body r) \<le> m"
    by (auto simp: read_http_response_def io_then_Ok_iff dest!: read_body_bound split: if_splits)
  show "read_http_response s meth m = None \<longrightarrow> snd s = Stall"
    using response_head_end [of MAX_INFORMATIONAL_RESPONSES s "[]"]
    by (auto simp: read_http_response_def io_then_None_iff split: if_splits dest!: read_body_None)
qed

theorem response_bounded_and_total_witness:
  "read_http_response ([sample_hdr, ''hel''], Eof) ''GET'' 100 \<noteq> None"
  using response_bounded_and_total [of "([sample_hdr, ''hel''], Eof)" "''GET''" 100] by auto

end
