(* ===== verification/Http_Request.thy ===== *)
theory Http_Request
  imports Http_Proxy
begin

text \<open>
  The request the proxy writes into the tunnel, read back by a header parser: one framing field,
  no hop-by-hop field. Then the redirect of port 80, and the reply that announces a wrong length.
\<close>

section \<open>The fields that are kept\<close>

definition request_hop_names :: "prepared_request \<Rightarrow> str list" where
  "request_hop_names parts = hop_by_hop_header_names
     (map (\<lambda>(n, v). (n, case value_to_str v of Some x \<Rightarrow> x | None \<Rightarrow> [])) (rq_headers parts))"

definition kept_fields :: "prepared_request \<Rightarrow> str option \<Rightarrow> headers" where
  "kept_fields parts custom_host = concat (map (\<lambda>(name, value).
     (if custom_host \<noteq> None \<and> name = ''host'' then []
      else if is_hop_by_hop name (request_hop_names parts) \<or> name = ''content-length'' then []
      else (case value_to_str value of Some v \<Rightarrow> [(name, v)] | None \<Rightarrow> []))) (rq_headers parts))"

definition all_fields :: "prepared_request \<Rightarrow> nat \<Rightarrow> str option \<Rightarrow> headers" where
  "all_fields parts n custom_host = (case custom_host of Some h \<Rightarrow> [(''Host'', h)] | None \<Rightarrow> []) @
     kept_fields parts custom_host @ [(''Content-Length'', show_nat n)]"

definition request_line :: "prepared_request \<Rightarrow> str" where
  "request_line parts = rq_method parts @ '' '' @
     (case rq_path_and_query parts of Some p \<Rightarrow> p | None \<Rightarrow> ''/'') @ '' HTTP/1.1''"

lemma fields_as_lines:
  "concat (map (\<lambda>(n, v). header_line n v) (kept_fields parts custom_host)) =
   concat (map (\<lambda>(name, value).
     (if custom_host \<noteq> None \<and> name = ''host'' then []
      else if is_hop_by_hop name (request_hop_names parts) \<or> name = ''content-length'' then []
      else (case value_to_str value of Some v \<Rightarrow> header_line name v | None \<Rightarrow> []))) (rq_headers parts))"
proof -
  have maps: "concat (map (\<lambda>(n, v). header_line n v) (concat (map f xs))) = concat (map g xs)"
    if "\<And>x. concat (map (\<lambda>(n, v). header_line n v) (f x)) = g x" for f g and xs :: headers
    using that by (induction xs) simp_all
  show ?thesis unfolding kept_fields_def
    by (rule maps) (auto split: option.splits)
qed

lemma serialize_as_lines:
  "serialize_http_request parts n custom_host =
     request_line parts @ crlf @ concat (map (\<lambda>(n, v). header_line n v) (all_fields parts n custom_host)) @ crlf"
  unfolding serialize_http_request_def all_fields_def request_line_def Let_def
    request_hop_names_def [symmetric] fields_as_lines [symmetric]
  by (cases custom_host) simp_all

section \<open>Reading it back\<close>

definition field_ok :: "str \<times> str \<Rightarrow> bool" where
  "field_ok f \<longleftrightarrow> fst f \<noteq> [] \<and> list_all graphic (fst f) \<and> CHR '':'' \<notin> set (fst f) \<and> CR \<notin> set (snd f)"

lemma graphic_not_CR: "list_all graphic s \<Longrightarrow> CR \<notin> set s"
  by (auto simp: list_all_iff graphic_def byte_val_def)

lemma split_field_lines:
  "list_all field_ok fs \<Longrightarrow>
   split_crlf (concat (map (\<lambda>(n, v). header_line n v) fs) @ r) = map (\<lambda>(n, v). n @ '': '' @ v) fs @ split_crlf r"
proof (induction fs)
  case Nil
  then show ?case by simp
next
  case (Cons f fs)
  obtain n v where f: "f = (n, v)" by (cases f)
  have "CR \<notin> set (n @ '': '' @ v)"
    using Cons.prems graphic_not_CR [of n] by (auto simp: f field_ok_def)
  from split_crlf_append [OF this] Cons show ?case by (simp add: f header_line_def)
qed

lemma parse_field_lines:
  "list_all field_ok fs \<Longrightarrow>
   parse_header_lines (map (\<lambda>(n, v). n @ '': '' @ v) fs @ [] # ls) hs = Ok (hs @ map (\<lambda>(n, v). (n, trim v)) fs)"
proof (induction fs arbitrary: hs)
  case Nil
  then show ?case by simp
next
  case (Cons f fs)
  obtain n v where f: "f = (n, v)" by (cases f)
  have n: "CHR '':'' \<notin> set n" "n \<noteq> []" "trim n = n"
    using Cons.prems by (simp_all add: f field_ok_def trim_all_graphic)
  have "split_once '':'' (n @ '': '' @ v) = Some (n, '' '' @ v)"
    using split_once_char [OF n(1), of "'' '' @ v"] by simp
  then show ?case using Cons n by (simp add: f trim_space)
qed

lemma value_to_str_no_CR: "value_to_str v = Some x \<Longrightarrow> CR \<notin> set x"
proof
  assume "value_to_str v = Some x" and cr: "CR \<in> set x"
  then have "list_all value_byte x" by (simp add: value_to_str_def split: if_splits)
  with cr have "value_byte CR" unfolding list_all_iff by blast
  then show False by (simp add: value_byte_def byte_val_def)
qed

lemma kept_fields_ok:
  assumes "\<And>n v. (n, v) \<in> set (rq_headers parts) \<Longrightarrow> n \<noteq> [] \<and> list_all graphic n \<and> CHR '':'' \<notin> set n"
  shows "list_all field_ok (kept_fields parts h)"
proof -
  have "field_ok (n, x)" if "(n, v) \<in> set (rq_headers parts)" "value_to_str v = Some x" for n v x
    using assms [OF that(1)] value_to_str_no_CR [OF that(2)] by (simp add: field_ok_def)
  then have step: "list_all field_ok (case f of (name, value) \<Rightarrow>
     (if h \<noteq> None \<and> name = ''host'' then []
      else if is_hop_by_hop name (request_hop_names parts) \<or> name = ''content-length'' then []
      else (case value_to_str value of Some v \<Rightarrow> [(name, v)] | None \<Rightarrow> [])))" if "f \<in> set (rq_headers parts)" for f
    using that by (cases f) (simp split: option.splits)
  have all: "list_all P (concat (map g xs))" if "\<And>x. x \<in> set xs \<Longrightarrow> list_all P (g x)" for P and g :: "str \<times> str \<Rightarrow> headers" and xs
    using that by (induction xs) auto
  show ?thesis unfolding kept_fields_def by (rule all) (rule step)
qed

lemma kept_fields_names:
  "(n, v) \<in> set (kept_fields parts h) \<Longrightarrow>
   (n \<in> fst ` set (rq_headers parts)) \<and> \<not> is_hop_by_hop n (request_hop_names parts) \<and> n \<noteq> ''content-length'' \<and>
   (h \<noteq> None \<longrightarrow> n \<noteq> ''host'')"
  by (force simp: kept_fields_def split: if_splits option.splits)

text \<open>What the \<open>http\<close> crate guarantees of a parsed request.\<close>

definition request_ok :: "prepared_request \<Rightarrow> bool" where
  "request_ok parts \<longleftrightarrow> CR \<notin> set (request_line parts) \<and>
     (\<forall>(n, v)\<in>set (rq_headers parts). n \<noteq> [] \<and> list_all graphic n \<and> CHR '':'' \<notin> set n \<and> to_ascii_lowercase n = n)"

lemma lower_eval:
  "to_ascii_lowercase ''Host'' = ''host''" "to_ascii_lowercase ''Content-Length'' = ''content-length''"
  "to_ascii_lowercase ''content-length'' = ''content-length''" "to_ascii_lowercase ''host'' = ''host''"
  "to_ascii_lowercase ''transfer-encoding'' = ''transfer-encoding''"
  by (simp_all add: to_ascii_lowercase_def lower_char_def byte_val_def char_of_def bit_0)

lemma header_values_append: "header_values (a @ b) n = header_values a n @ header_values b n"
  by (simp add: header_values_def)

lemma header_values_none:
  "(\<And>n v. (n, v) \<in> set hs \<Longrightarrow> to_ascii_lowercase n \<noteq> to_ascii_lowercase name) \<Longrightarrow> header_values hs name = []"
  by (auto simp: header_values_def eq_ignore_ascii_case_def filter_empty_conv)

text \<open>
  C7: the request written into the tunnel cannot be misread. Parsed back, its first line is the
  method, path and version; it has exactly one \<open>Content-Length\<close>, the length of the decoded body,
  and no \<open>Transfer-Encoding\<close>; no field is hop-by-hop, neither by the standard list nor by a
  \<open>Connection\<close> field of the request; and a configured host is the only \<open>Host\<close>.
\<close>

theorem serialized_request_framing:
  assumes ok: "request_ok parts" and host: "\<And>h. custom_host = Some h \<Longrightarrow> CR \<notin> set h"
  shows "\<exists>hs. split_crlf (serialize_http_request parts n custom_host) ! 0 = request_line parts \<and>
    parse_header_lines (tl (split_crlf (serialize_http_request parts n custom_host))) [] = Ok hs \<and>
    header_values hs ''content-length'' = [show_nat n] \<and>
    header_values hs ''transfer-encoding'' = [] \<and>
    (\<forall>(k, v)\<in>set hs. k \<noteq> ''Content-Length'' \<and> k \<noteq> ''Host'' \<longrightarrow> \<not> is_hop_by_hop k (request_hop_names parts)) \<and>
    (\<forall>h. custom_host = Some h \<longrightarrow> header_values hs ''host'' = [trim h])"
proof -
  define fs where "fs = all_fields parts n custom_host"
  have names: "\<And>k v. (k, v) \<in> set (rq_headers parts) \<Longrightarrow> k \<noteq> [] \<and> list_all graphic k \<and> CHR '':'' \<notin> set k \<and> to_ascii_lowercase k = k"
    using ok by (auto simp: request_ok_def)
  have kept: "to_ascii_lowercase k = k \<and> k \<notin> set HOP_BY_HOP_HEADERS \<and> \<not> is_hop_by_hop k (request_hop_names parts) \<and>
      k \<noteq> ''content-length'' \<and> (custom_host \<noteq> None \<longrightarrow> k \<noteq> ''host'')" if "(k, v) \<in> set (kept_fields parts custom_host)" for k v
    using kept_fields_names [OF that] names by (auto simp: is_hop_by_hop_def request_hop_names_def hop_by_hop_header_names_def)
  have "list_all field_ok (kept_fields parts custom_host)" using kept_fields_ok names by blast
  moreover have "field_ok (''Content-Length'', show_nat n)"
    using graphic_not_CR [OF show_nat_graphic] by (simp add: field_ok_def graphic_def byte_val_def)
  moreover have "field_ok (''Host'', h)" if "custom_host = Some h" for h
    using host [OF that] by (simp add: field_ok_def graphic_def byte_val_def)
  ultimately have fields: "list_all field_ok fs" by (simp add: fs_def all_fields_def split: option.splits)
  have cr: "CR \<notin> set (request_line parts)" using ok by (simp add: request_ok_def)
  have split: "split_crlf (serialize_http_request parts n custom_host) =
      request_line parts # map (\<lambda>(n, v). n @ '': '' @ v) fs @ [[], []]"
    using split_crlf_append [OF cr] split_field_lines [OF fields, of crlf]
    by (simp add: serialize_as_lines fs_def [symmetric])
  define hs where "hs = map (\<lambda>(k, v). (k, trim v)) fs"
  have parse: "parse_header_lines (tl (split_crlf (serialize_http_request parts n custom_host))) [] = Ok hs"
    using parse_field_lines [OF fields, of "[[]]" "[]"] by (simp add: split hs_def)
  have hs: "hs = (case custom_host of Some h \<Rightarrow> [(''Host'', trim h)] | None \<Rightarrow> []) @
      map (\<lambda>(k, v). (k, trim v)) (kept_fields parts custom_host) @ [(''Content-Length'', show_nat n)]"
    by (simp add: hs_def fs_def all_fields_def trim_all_graphic [OF show_nat_graphic] split: option.splits)
  have te: "''transfer-encoding'' \<in> set HOP_BY_HOP_HEADERS" by (simp add: HOP_BY_HOP_HEADERS_def)
  have k1: "header_values (map (\<lambda>(k, v). (k, trim v)) (kept_fields parts custom_host)) ''content-length'' = []"
    and k2: "header_values (map (\<lambda>(k, v). (k, trim v)) (kept_fields parts custom_host)) ''transfer-encoding'' = []"
    by (rule header_values_none; use kept te in \<open>force simp: lower_eval\<close>)+
  have k3: "header_values (map (\<lambda>(k, v). (k, trim v)) (kept_fields parts custom_host)) ''host'' = []" if "custom_host \<noteq> None"
    by (rule header_values_none) (use kept that in \<open>force simp: lower_eval\<close>)
  have "header_values hs ''content-length'' = [show_nat n]" "header_values hs ''transfer-encoding'' = []"
    by (auto simp: hs header_values_append k1 k2 split: option.splits)
       (simp_all add: header_values_def eq_ignore_ascii_case_def lower_eval)
  moreover have "header_values hs ''host'' = [trim h]" if "custom_host = Some h" for h
    using k3 that by (simp add: hs header_values_append)
       (simp add: header_values_def eq_ignore_ascii_case_def lower_eval)
  moreover have "\<forall>(k, v)\<in>set hs. k \<noteq> ''Content-Length'' \<and> k \<noteq> ''Host'' \<longrightarrow> \<not> is_hop_by_hop k (request_hop_names parts)"
    using kept by (auto simp: hs split: option.splits)
  ultimately show ?thesis using parse by (auto simp: split)
qed

definition sample_request :: prepared_request where
  "sample_request = \<lparr>rq_method = ''POST'', rq_path_and_query = Some ''/a?b=1'',
     rq_headers = [(''host'', ''demo.example''), (''transfer-encoding'', ''chunked''), (''content-length'', ''99''),
       (''connection'', ''x-hop''), (''x-hop'', ''1''), (''accept'', ''text/html'')], rq_body = ''hello''\<rparr>"

theorem serialized_request_framing_witness:
  "\<exists>hs. parse_header_lines (tl (split_crlf (serialize_http_request sample_request 5 (Some ''localhost'')))) [] = Ok hs \<and>
     header_values hs ''content-length'' = [show_nat 5] \<and> header_values hs ''host'' = [trim ''localhost'']"
proof -
  have "request_ok sample_request"
    by (simp add: request_ok_def sample_request_def request_line_def graphic_def byte_val_def to_ascii_lowercase_def lower_char_def)
  moreover have "\<And>h. Some ''localhost'' = Some h \<Longrightarrow> CR \<notin> set h" by auto
  ultimately show ?thesis using serialized_request_framing [of sample_request "Some ''localhost''" 5] by blast
qed

section \<open>The redirect\<close>

lemma split_ws_no_LF: "w \<in> set (split_ws acc s) \<Longrightarrow> LF \<notin> set acc \<Longrightarrow> LF \<notin> set w"
proof (induction acc s rule: split_ws.induct)
  case (1 acc s)
  have lf: "ws_len (LF # t) > 0" for t by (simp add: ws_len_def ws_scalar_def byte_val_def)
  show ?case
  proof (cases "s = []")
    case True
    then show ?thesis using 1(3,4) by (simp add: split_ws_Nil split: if_splits)
  next
    case False
    then obtain c t where s: "s = c # t" by (cases s) auto
    show ?thesis
    proof (cases "ws_len s > 0")
      case True
      then have "w \<in> set (if acc = [] then [] else [rev acc]) \<or> w \<in> set (split_ws [] (drop (ws_len s) s))"
        using 1(3) False by (subst (asm) split_ws.simps) auto
      then show ?thesis using 1(1) [OF False True] 1(4) by (auto split: if_splits)
    next
      case n: False
      then have "c \<noteq> LF" using lf [of t] s by auto
      moreover have "w \<in> set (split_ws (hd s # acc) (tl s))"
        using 1(3) False n by (subst (asm) split_ws.simps) simp
      ultimately show ?thesis using 1(2) [OF False n] 1(4) s by auto
    qed
  qed
qed

lemma strip_cr_set: "set (strip_cr l) \<subseteq> set l"
  by (auto simp: strip_cr_def strip_suffix_iff split: option.splits)

lemma lines_no_LF: "l \<in> set (lines s) \<Longrightarrow> LF \<notin> set l"
  using split_on_pieces [of _ LF s] strip_cr_set
  by (fastforce simp: lines_def Let_def dest: in_set_butlastD split: if_splits intro: last_in_set)

lemma set_trim_start: "set (trim_start s) \<subseteq> set s"
proof (induction s rule: trim_start.induct)
  case (1 s)
  then show ?case
    by (subst trim_start.simps) (auto dest: in_set_dropD)
qed

lemma set_trim_end_rev: "set (trim_end_rev s) \<subseteq> set s"
proof (induction s rule: trim_end_rev.induct)
  case (1 s)
  then show ?case
    by (subst trim_end_rev.simps) (auto dest: in_set_dropD)
qed

lemma set_trim: "set (trim s) \<subseteq> set s"
  using set_trim_start [of s] set_trim_end_rev [of "rev (trim_start s)"] by (auto simp: trim_def)

lemma set_split_on: "p \<in> set (split_on c s) \<Longrightarrow> set p \<subseteq> set s"
proof (induction s arbitrary: p)
  case (Cons x s)
  obtain a l where a: "split_on c s = a # l" using split_on_ne [of c s] by (cases "split_on c s") auto
  then have "p = [] \<or> p = x # a \<or> p \<in> set (split_on c s)" "set a \<subseteq> set s"
    using Cons by (auto split: if_splits)
  then show ?case using Cons.IH [of p] by auto
qed simp

lemma host_in_lines_no_LF:
  "host_in_lines ls = Some h \<Longrightarrow> (\<And>l. l \<in> set ls \<Longrightarrow> LF \<notin> set l) \<Longrightarrow> LF \<notin> set h"
proof (induction ls)
  case (Cons l ls)
  have sub: "LF \<notin> set (hd (split_on c (trim v)))" if "strip_prefix p l = Some v" for p v c
  proof -
    have "set v \<subseteq> set l" using that by (auto simp: strip_prefix_iff)
    moreover have "set (hd (split_on c (trim v))) \<subseteq> set (trim v)" by (rule set_split_on [OF hd_in_set [OF split_on_ne]])
    ultimately show ?thesis using Cons.prems(2) [of l] set_trim [of v] by auto
  qed
  show ?case
    using Cons.prems(1) Cons.IH Cons.prems(2) sub by (auto split: option.splits)
qed simp

text \<open>
  The redirect of port 80 cannot be split. Whatever bytes the client sends, the target of
  the redirect contains no line feed, so the client's request cannot add a field or a second
  response to the reply; the reply is either the redirect, the 400 or nothing.
\<close>

theorem redirect_not_split:
  assumes "handle_http_connection incoming = Some (Ok reply)"
  shows "reply = [] \<or> reply = missing_host_reply \<or>
    (\<exists>host path. reply = redirect_reply (''https://'' @ host @ path) \<and> LF \<notin> set (''https://'' @ host @ path))"
proof -
  have w: "split_ws [] l = a # b # c \<Longrightarrow> LF \<notin> set b" for l a b c
    using split_ws_no_LF [of b "[]" l] by simp
  have p: "LF \<notin> set (extract_request_path d)" for d
    using w by (auto simp: extract_request_path_def split_whitespace_def split: list.splits)
  have h: "LF \<notin> set host" if "extract_host_header d = Some host" for d host
    using host_in_lines_no_LF lines_no_LF that unfolding extract_host_header_def by blast
  obtain buf s1 where r: "s_read 8192 incoming = Some (Ok (buf, s1))"
    using assms by (auto simp: handle_http_connection_def io_then_Ok_iff)
  show ?thesis
  proof (cases "buf = []")
    case True
    then show ?thesis using assms r by (simp add: handle_http_connection_def)
  next
    case buf: False
    show ?thesis
    proof (cases "extract_host_header (utf8_lossy buf)")
      case None
      then show ?thesis using assms r buf by (simp add: handle_http_connection_def)
    next
      case (Some host)
      then have "reply = redirect_reply (''https://'' @ host @ extract_request_path (utf8_lossy buf))"
        using assms r buf by (simp add: handle_http_connection_def)
      moreover have "LF \<notin> set (''https://'' @ host @ extract_request_path (utf8_lossy buf))"
        using p h [OF Some] by simp
      ultimately show ?thesis by blast
    qed
  qed
qed

theorem redirect_not_split_witness:
  "handle_http_connection ([], Eof) = Some (Ok [])
   \<and> ([] = missing_host_reply \<or> ([] :: bytes) = [] \<or>
       (\<exists>host path. [] = redirect_reply (''https://'' @ host @ path) \<and> LF \<notin> set (''https://'' @ host @ path)))"
proof -
  have e: "handle_http_connection ([], Eof) = Some (Ok [])"
    by (simp add: handle_http_connection_def s_read_def)
  from redirect_not_split [OF e] e show ?thesis by blast
qed

text \<open>
  The reply to a request without a host announces 16 body bytes, but carries 19: a client
  that trusts the announced length reads a cut-off message and takes the rest for the start of
  another response.
\<close>

theorem missing_host_length_wrong:
  "\<exists>head body. missing_host_reply = head @ crlf2 @ body \<and> find_sub crlf2 missing_host_reply = Some (length head) \<and>
     strip_suffix ''16'' head \<noteq> None \<and> length body = 19"
proof (intro exI conjI)
  show "missing_host_reply = (''HTTP/1.1 400 Bad Request'' @ crlf @ ''Content-Length: 16'') @ crlf2 @ ''Missing Host header''"
    by (simp add: missing_host_reply_def)
qed (simp_all add: missing_host_reply_def crlf2_def starts_with_def strip_suffix_def)

end
