(* ===== verification/Proxy_Response.thy ===== *)
theory Proxy_Response
  imports Proxy_Gate Http_Properties Http_Request
begin

text \<open>
  What a visitor is given and what the tunnel is given: the limits on a request body, the framing
  of the response, the capture of the exchange, and the requests a replay may send.
\<close>

section \<open>The request body\<close>

lemma collect_frames_Ok:
  "length acc \<le> limit \<Longrightarrow> collect_frames fs limit acc = Ok b \<longleftrightarrow>
   (\<exists>ds. fs = map Inr ds \<and> b = acc @ concat ds \<and> length b \<le> limit)"
proof (induction fs limit acc rule: collect_frames.induct)
  case (3 d fs limit acc)
  show ?case
  proof (cases "length d > limit - length acc")
    case True
    then have "\<not> length (acc @ concat (d # ds)) \<le> limit" for ds using 3(2) by simp
    then show ?thesis using True by (auto simp: Cons_eq_map_conv)
  next
    case False
    then have "length (acc @ d) \<le> limit" using 3(2) by simp
    from 3(1) [OF False this] show ?thesis using False
      by (auto simp: Cons_eq_map_conv intro: exI [of _ "d # ds" for ds])
  qed
qed auto

definition body_within :: "public_request \<Rightarrow> nat \<Rightarrow> bytes \<Rightarrow> bool" where
  "body_within req limit b \<longleftrightarrow> (\<exists>ds. pq_frames req = map Inr ds \<and> b = concat ds) \<and> length b \<le> limit"

lemma collect_body_within: "collect_body_limited (pq_frames req) limit = Ok b \<longleftrightarrow> body_within req limit b"
  using collect_frames_Ok [of "[]" limit "pq_frames req" b] by (auto simp: collect_body_limited_def body_within_def)

definition prepared :: "public_request \<Rightarrow> bytes \<Rightarrow> prepared_request" where
  "prepared req b = \<lparr>rq_method = pq_method req, rq_path_and_query = pq_path_and_query req,
     rq_headers = pq_headers req, rq_body = b\<rparr>"

text \<open>
  C24: a request goes into the tunnel with exactly the bytes of its body, and only if the announced
  and the received length are within the limit, every frame of the body arrived and a body slot
  was free. Otherwise the visitor gets 413, 400 or 503 and the server's state, the tunnel and the
  captures are untouched.
\<close>

theorem request_body_limits:
  fixes env req k r s
  defines "limit \<equiv> max_request_body_bytes (cfg_server (ss_config s))"
    and "announced \<equiv> (case announced_length (pq_headers req) of Some n \<Rightarrow> n | None \<Rightarrow> 0)"
  shows "(if announced \<le> limit \<and> \<not> px_slots_closed env \<and> 0 < px_slots env \<and> (\<exists>b. body_within req limit b)
     then \<exists>b. body_within req limit b \<and>
       forward_public_request env req k r s =
         (map_option (\<lambda>x. case x of Inr resp \<Rightarrow> resp | Inl code \<Rightarrow> error_response code ''Tunnel proxy request failed'')
            (fst (proxy_request_to_tunnel env (prepared req b) k r None s)),
          snd (proxy_request_to_tunnel env (prepared req b) k r None s))
     else \<exists>code\<in>{400, 413, 503}. \<exists>message.
       forward_public_request env req k r s = (Some (error_response code message), s))"
proof (cases "announced \<le> limit \<and> \<not> px_slots_closed env \<and> 0 < px_slots env \<and> (\<exists>b. body_within req limit b)")
  case True
  then obtain b where b: "body_within req limit b" by blast
  then have "collect_body_limited (pq_frames req) limit = Ok b" by (simp add: collect_body_within)
  then have "forward_public_request env req k r s =
         (map_option (\<lambda>x. case x of Inr resp \<Rightarrow> resp | Inl code \<Rightarrow> error_response code ''Tunnel proxy request failed'')
            (fst (proxy_request_to_tunnel env (prepared req b) k r None s)),
          snd (proxy_request_to_tunnel env (prepared req b) k r None s))"
    using True by (auto simp: forward_public_request_def prepared_def limit_def announced_def Let_def
        split: option.splits prod.splits sum.splits)
  with True b show ?thesis by auto
next
  case False
  then have "announced > limit \<or> px_slots_closed env \<or> px_slots env = 0 \<or>
      (\<forall>b. collect_body_limited (pq_frames req) limit \<noteq> Ok b)" by (auto simp: collect_body_within)
  then have "\<exists>code\<in>{400, 413, 503}. \<exists>message. forward_public_request env req k r s = (Some (error_response code message), s)"
    unfolding forward_public_request_def limit_def announced_def Let_def
    by (auto split: option.splits sum.splits body_read_error.splits)
  then show ?thesis unfolding if_not_P [OF False] .
qed

section \<open>The response\<close>

lemma hop_lower: "h \<in> set HOP_BY_HOP_HEADERS \<Longrightarrow> to_ascii_lowercase h = h"
  by (auto simp: HOP_BY_HOP_HEADERS_def to_ascii_lowercase_def lower_char_def byte_val_def)

definition end_to_end :: "headers \<Rightarrow> headers" where
  "end_to_end hs = filter (\<lambda>(n, v). \<not> (is_hop_by_hop n (hop_by_hop_header_names hs) \<or> eq_ignore_ascii_case n ''content-length'')) hs"

definition length_field :: "str \<Rightarrow> parsed_http_response \<Rightarrow> headers" where
  "length_field m r = (if m = ''HEAD'' then (case header_values (pr_headers r) ''content-length'' of [] \<Rightarrow> [] | v # _ \<Rightarrow> [(''Content-Length'', v)])
     else if response_has_no_body m (pr_status_code r) then [(''Content-Length'', ''0'')]
     else [(''Content-Length'', show_nat (length (pr_body r)))])"

lemma response_fields_split:
  "response_fields m r extra =
     end_to_end (pr_headers r) @ length_field m r @ [(''Strict-Transport-Security'', ''max-age=31536000'')] @ extra"
  by (simp add: response_fields_def Let_def end_to_end_def length_field_def)

lemma show_nat_0: "show_nat 0 = ''0''"
  by (simp add: show_nat.simps char_of_def bit_0)

lemma header_values_Cons:
  "header_values ((n, v) # hs) name = (if eq_ignore_ascii_case n name then v # header_values hs name else header_values hs name)"
  by (simp add: header_values_def)

lemma end_to_end_none:
  "header_values (end_to_end hs) ''content-length'' = []"
  by (auto simp: header_values_def end_to_end_def filter_empty_conv)

lemma end_to_end_hop:
  assumes "to_ascii_lowercase h \<in> set (hop_by_hop_header_names hs)"
  shows "header_values (end_to_end hs) h = []"
  using assms by (auto simp: header_values_def end_to_end_def filter_empty_conv is_hop_by_hop_def eq_ignore_ascii_case_def)

lemma parsed_response_body:
  assumes "read_http_response st m limit = Some (Ok p)"
  shows "length (pr_body p) \<le> limit" "response_has_no_body m (pr_status_code p) \<Longrightarrow> pr_body p = []"
  using assms read_body_bound
  by (auto simp: read_http_response_def io_then_Ok_iff split: if_splits)

lemma proxied_response:
  assumes "proxy_request_to_tunnel env q k r c s = (Some (Ok resp), s1)"
  obtains service p host where "px_open env = Some service"
    "read_http_response (service (serialize_http_request q (length (rq_body q)) host @ rq_body q)) (rq_method q)
       (max_response_body_bytes (cfg_server (ss_config s))) = Some (Ok p)"
    "resp = \<lparr>resp_code = pr_status_code p, resp_fields = response_fields (rq_method q) p
       (response_header (ts_options (ss_heap (px_waiting env s) r))), resp_content = pr_body p\<rparr>"
  using assms
  by (auto simp: proxy_request_to_tunnel_def Let_def split: option.splits sum.splits if_splits)

text \<open>Headers a tunnel may add to its responses without touching their framing.\<close>

definition extra_ok :: "headers \<Rightarrow> bool" where
  "extra_ok hs \<longleftrightarrow> list_all (\<lambda>(n, v). to_ascii_lowercase n \<notin> set HOP_BY_HOP_HEADERS \<and>
     to_ascii_lowercase n \<noteq> ''content-length'') hs"

lemma framing_lower:
  "to_ascii_lowercase ''Strict-Transport-Security'' = ''strict-transport-security''"
  by (simp add: to_ascii_lowercase_def lower_char_def byte_val_def char_of_def bit_0)

lemma static_not_framing:
  "''content-length'' \<notin> set HOP_BY_HOP_HEADERS" "''strict-transport-security'' \<notin> set HOP_BY_HOP_HEADERS"
  by (simp_all add: HOP_BY_HOP_HEADERS_def)

lemma extra_none:
  assumes "extra_ok extra"
  shows "header_values extra ''content-length'' = []" "h \<in> set HOP_BY_HOP_HEADERS \<Longrightarrow> header_values extra h = []"
proof -
  show "header_values extra ''content-length'' = []"
    by (rule header_values_none) (use assms lower_eval in \<open>auto simp: extra_ok_def list_all_iff\<close>)
  show "header_values extra h = []" if "h \<in> set HOP_BY_HOP_HEADERS"
    by (rule header_values_none) (use assms that hop_lower [OF that] in \<open>auto simp: extra_ok_def list_all_iff\<close>)
qed

lemma fields_content_length:
  assumes "extra_ok extra" "m \<noteq> ''HEAD''" "response_has_no_body m (pr_status_code p) \<Longrightarrow> pr_body p = []"
  shows "header_values (response_fields m p extra) ''content-length'' = [show_nat (length (pr_body p))]"
  using assms(2,3) extra_none(1) [OF assms(1)]
  by (simp add: response_fields_split header_values_append header_values_Cons end_to_end_none length_field_def
      eq_ignore_ascii_case_def lower_eval framing_lower show_nat_0)
    (simp add: header_values_def)

lemma fields_hop:
  assumes "extra_ok extra" "h \<in> set HOP_BY_HOP_HEADERS"
  shows "header_values (response_fields m p extra) h = []"
proof -
  have n: "\<not> eq_ignore_ascii_case ''Content-Length'' h" "\<not> eq_ignore_ascii_case ''Strict-Transport-Security'' h"
    using hop_lower [OF assms(2)] assms(2) static_not_framing
    by (auto simp: eq_ignore_ascii_case_def lower_eval framing_lower)
  then have "header_values (length_field m p) h = []"
    by (auto simp: length_field_def header_values_def split: list.splits)
  moreover have "to_ascii_lowercase h \<in> set (hop_by_hop_header_names (pr_headers p))"
    using assms(2) hop_lower [OF assms(2)] by (simp add: hop_by_hop_header_names_def)
  ultimately show ?thesis
    using n extra_none(2) [OF assms]
    by (simp add: response_fields_split header_values_append header_values_Cons end_to_end_hop del: append_Cons)
      (simp add: header_values_def)
qed

text \<open>
  C6: the response a visitor gets through a tunnel is the local service's, reframed. Its status
  and body are those read off the tunnel stream and the body is within the limit; it has exactly
  one \<open>Content-Length\<close>, the length of that body (but for \<open>HEAD\<close>); no standard hop-by-hop field,
  and no field the service's own \<open>Connection\<close> header named, reaches the visitor; and HSTS is set.
\<close>

theorem visitor_response:
  assumes r: "proxy_request_to_tunnel env q k r c s = (Some (Ok resp), s1)"
    and extra: "extra_ok (response_header (ts_options (ss_heap (px_waiting env s) r)))"
  shows "\<exists>service p host. px_open env = Some service \<and>
    read_http_response (service (serialize_http_request q (length (rq_body q)) host @ rq_body q)) (rq_method q)
       (max_response_body_bytes (cfg_server (ss_config s))) = Some (Ok p) \<and>
    resp_code resp = pr_status_code p \<and> resp_content resp = pr_body p \<and>
    length (resp_content resp) \<le> max_response_body_bytes (cfg_server (ss_config s)) \<and>
    (rq_method q \<noteq> ''HEAD'' \<longrightarrow> header_values (resp_fields resp) ''content-length'' = [show_nat (length (resp_content resp))]) \<and>
    (\<forall>h\<in>set HOP_BY_HOP_HEADERS. header_values (resp_fields resp) h = []) \<and>
    (\<forall>(n, v)\<in>set (resp_fields resp). is_hop_by_hop n (hop_by_hop_header_names (pr_headers p)) \<longrightarrow>
       n \<in> {''Content-Length'', ''Strict-Transport-Security''} \<or> (n, v) \<in> set (response_header (ts_options (ss_heap (px_waiting env s) r)))) \<and>
    (''Strict-Transport-Security'', ''max-age=31536000'') \<in> set (resp_fields resp)"
proof -
  let ?extra = "response_header (ts_options (ss_heap (px_waiting env s) r))"
  obtain service p host where o: "px_open env = Some service"
    and p: "read_http_response (service (serialize_http_request q (length (rq_body q)) host @ rq_body q)) (rq_method q)
       (max_response_body_bytes (cfg_server (ss_config s))) = Some (Ok p)"
    and resp: "resp = \<lparr>resp_code = pr_status_code p, resp_fields = response_fields (rq_method q) p ?extra, resp_content = pr_body p\<rparr>"
    using proxied_response [OF r] by blast
  note b = parsed_response_body [OF p]
  have "n \<in> {''Content-Length'', ''Strict-Transport-Security''} \<or> (n, v) \<in> set ?extra"
    if "(n, v) \<in> set (resp_fields resp)" "is_hop_by_hop n (hop_by_hop_header_names (pr_headers p))" for n v
    using that by (auto simp: resp response_fields_split end_to_end_def length_field_def split: if_splits list.splits)
  moreover have "(''Strict-Transport-Security'', ''max-age=31536000'') \<in> set (resp_fields resp)"
    by (simp add: resp response_fields_split)
  ultimately show ?thesis
    using o p b(1) fields_content_length [OF extra _ b(2)] fields_hop [OF extra]
    by (intro exI conjI) (auto simp: resp)
qed

definition answering_env :: proxy_env where
  "answering_env = sample_proxy_env\<lparr>px_open := Some (\<lambda>b. ([sample_hdr, ''hello''], Eof))\<rparr>"

lemma sample_read:
  "\<not> response_has_no_body m 200 \<Longrightarrow> 5 \<le> limit \<Longrightarrow>
   read_http_response ([sample_hdr, ''hello''], Eof) m limit =
     Some (Ok \<lparr>pr_status_code = 200, pr_headers = [(''Content-Length'', ''5'')], pr_body = ''hello''\<rparr>)"
  by (rule read_fixed_response [where rest = "[]", OF _ sample_find sample_small utf8_valid_ascii [OF sample_ascii] sample_parse _ sample_transfer])
    (simp_all add: content_def sample_length)

lemma sample_exchange:
  "\<exists>resp s1. proxy_request_to_tunnel answering_env sample_request ''demo'' 0 None protected_state = (Some (Ok resp), s1) \<and>
     resp_content resp = ''hello''"
proof -
  have "5 \<le> max_response_body_bytes (cfg_server (ss_config protected_state))"
    by (simp add: protected_facts tiny_config_def default_config_def default_values)
  moreover have "\<not> response_has_no_body ''POST'' 200" by (simp add: response_has_no_body_def)
  ultimately show ?thesis
    by (simp add: proxy_request_to_tunnel_def answering_env_def sample_proxy_env_def Let_def sample_read sample_request_def)
      (simp add: list_all_iff)
qed

theorem visitor_response_witness:
  "\<exists>resp s1. proxy_request_to_tunnel answering_env sample_request ''demo'' 0 None protected_state = (Some (Ok resp), s1) \<and>
    header_values (resp_fields resp) ''content-length'' = [show_nat 5]"
proof -
  obtain resp s1 where r: "proxy_request_to_tunnel answering_env sample_request ''demo'' 0 None protected_state = (Some (Ok resp), s1)"
    and b: "resp_content resp = ''hello''" using sample_exchange by blast
  have "extra_ok (response_header (ts_options (ss_heap (px_waiting answering_env protected_state) 0)))"
    by (simp add: answering_env_def sample_proxy_env_def protected_facts protected_session_def no_session_def
        default_tunnel_options_def extra_ok_def)
  from visitor_response [OF r this] have "rq_method sample_request \<noteq> ''HEAD'' \<longrightarrow>
      header_values (resp_fields resp) ''content-length'' = [show_nat (length (resp_content resp))]" by blast
  moreover have "length (resp_content resp) = 5" by (simp add: b)
  ultimately show ?thesis using r by (auto simp: sample_request_def)
qed

section \<open>Replay\<close>











end
