(* ===== verification/Web_Ui.thy ===== *)
theory Web_Ui
  imports Proxy_Flow
begin

text \<open>
  The inspection UI of the server (\<open>web_ui.rs\<close>): the guard in front of every route, the routes
  over the captured requests, and the conditions under which it is served at all. The router and
  the SSE transport are \<open>axum\<close>; the digest and base64 are parameters. The guard is stated once as
  an interface, since the client's inspection UI has one of the same shape.
\<close>

section \<open>The shape of a guard\<close>

record ui_request =
  uq_method :: str
  uq_path :: "str list"
  uq_headers :: headers

record 'b ui_response =
  ui_code :: nat
  ui_set :: headers
  ui_body :: 'b

text \<open>
  A guard checks a request before its handler runs: \<open>check\<close> gives the refusal, if any, and
  \<open>cookie\<close> the field added to what the handler answered.
\<close>

locale ui_guard =
  fixes check :: "ui_request \<Rightarrow> 'b ui_response option"
    and cookie :: "ui_request \<Rightarrow> 'b ui_response \<Rightarrow> 'b ui_response"
    and guarded :: "ui_request \<Rightarrow> (ui_request \<Rightarrow> 's \<Rightarrow> 'b ui_response \<times> 's) \<Rightarrow> 's \<Rightarrow> 'b ui_response \<times> 's"
  assumes refuse: "check q = Some r \<Longrightarrow> guarded q handler s = (r, s)"
    and admit: "check q = None \<Longrightarrow> guarded q handler s = (cookie q (fst (handler q s)), snd (handler q s))"
begin

lemma refused_unchanged: "check q \<noteq> None \<Longrightarrow> snd (guarded q handler s) = s"
  using refuse by (cases "check q") auto

lemma refused_handler_irrelevant: "check q \<noteq> None \<Longrightarrow> guarded q handler s = guarded q handler' s"
  using refuse [of q] by (cases "check q") auto

lemma changes_only_admitted: "snd (guarded q handler s) \<noteq> s \<Longrightarrow> check q = None"
  using refused_unchanged by blast

end

section \<open>The checks\<close>

definition is_mutating :: "str \<Rightarrow> bool" where
  "is_mutating m = (m \<in> set [''POST'', ''PUT'', ''PATCH'', ''DELETE''])"

definition header_text :: "headers \<Rightarrow> str \<Rightarrow> str option" where
  "header_text hs name = (case get_header hs name of None \<Rightarrow> None | Some v \<Rightarrow> value_to_str v)"

definition csrf_header_valid :: "headers \<Rightarrow> str \<Rightarrow> bool" where
  "csrf_header_valid hs expected = (header_text hs ''x-rgrok-csrf'' = Some expected)"

fun cookie_parts :: "str list \<Rightarrow> str \<Rightarrow> str option" where
  "cookie_parts [] name = None"
| "cookie_parts (part # parts) name =
     (case split_once ''='' (trim part) of
        Some (key, v) \<Rightarrow> (if key = name then Some v else cookie_parts parts name)
      | None \<Rightarrow> cookie_parts parts name)"

definition cookie_value :: "str \<Rightarrow> str \<Rightarrow> str option" where
  "cookie_value cookies name = cookie_parts (split_on (CHR '';'') cookies) name"

definition loopback_host_valid :: "headers \<Rightarrow> bool" where
  "loopback_host_valid hs = (case header_text hs ''host'' of None \<Rightarrow> False | Some a \<Rightarrow> is_loopback_authority a)"

definition tokens_equal :: "(bytes \<Rightarrow> bytes) \<Rightarrow> str \<Rightarrow> str \<Rightarrow> bool" where
  "tokens_equal sha candidate expected = (sha candidate = sha expected)"

definition authorized_header :: "(bytes \<Rightarrow> bytes) \<Rightarrow> (str \<Rightarrow> bytes option) \<Rightarrow> str \<Rightarrow> str \<Rightarrow> bool" where
  "authorized_header sha b64 v token =
     ((case strip_prefix ''Bearer '' v of Some candidate \<Rightarrow> tokens_equal sha candidate token | None \<Rightarrow> False) \<or>
      (case parse_basic_auth_header b64 v of Some (user, pass) \<Rightarrow> user = ''rgrok'' \<and> tokens_equal sha pass token
       | None \<Rightarrow> False))"

record ui_security =
  us_auth_token :: "str option"
  us_csrf_token :: str
  us_require_loopback :: bool

definition ui_security_new :: "str option \<Rightarrow> str \<Rightarrow> bool \<Rightarrow> ui_security" where
  "ui_security_new auth_token uuid loopback =
     \<lparr>us_auth_token = (case auth_token of Some tok \<Rightarrow> if trim tok = [] then None else Some tok | None \<Rightarrow> None),
      us_csrf_token = uuid, us_require_loopback = loopback\<rparr>"

datatype ui_payload = UiText str | UiEmpty | UiPage | UiCaptures "captured_request list" | UiCapture captured_request
  | UiReplay str | UiStatus str nat nat nat | UiClientStatus port nat | UiStream nat

definition ui_unauthorized :: "ui_payload ui_response" where
  "ui_unauthorized = \<lparr>ui_code = 401, ui_set = [(''www-authenticate'', ''Basic realm='' @ [CHR 0x22] @ ''rgrok inspect'' @ [CHR 0x22])],
     ui_body = UiEmpty\<rparr>"

definition ui_refusal :: "nat \<Rightarrow> str \<Rightarrow> ui_payload ui_response" where
  "ui_refusal code message = \<lparr>ui_code = code, ui_set = [], ui_body = UiText message\<rparr>"

definition ui_check ::
  "(bytes \<Rightarrow> bytes) \<Rightarrow> (str \<Rightarrow> bytes option) \<Rightarrow> ui_security \<Rightarrow> ui_request \<Rightarrow> ui_payload ui_response option" where
  "ui_check sha b64 sec q =
     (if us_require_loopback sec \<and> \<not> loopback_host_valid (uq_headers q) then
        Some (ui_refusal 421 ''invalid inspection UI Host'')
      else if (case us_auth_token sec of None \<Rightarrow> False
          | Some token \<Rightarrow> \<not> (case header_text (uq_headers q) ''authorization'' of
              Some v \<Rightarrow> authorized_header sha b64 v token | None \<Rightarrow> False)) then
        Some ui_unauthorized
      else if is_mutating (uq_method q) \<and> \<not> csrf_header_valid (uq_headers q) (us_csrf_token sec) then
        Some (ui_refusal 403 ''missing or invalid CSRF token'')
      else None)"

definition has_csrf_cookie :: "headers \<Rightarrow> bool" where
  "has_csrf_cookie hs = (case header_text hs ''cookie'' of None \<Rightarrow> False | Some v \<Rightarrow> cookie_value v ''rgrok_csrf'' \<noteq> None)"

definition csrf_cookie :: "str \<Rightarrow> str" where
  "csrf_cookie token = ''rgrok_csrf='' @ token @ ''; Path=/; SameSite=Strict''"

definition ui_cookie :: "str \<Rightarrow> ui_request \<Rightarrow> 'b ui_response \<Rightarrow> 'b ui_response" where
  "ui_cookie token q r =
     (if has_csrf_cookie (uq_headers q) then r else r\<lparr>ui_set := ui_set r @ [(''set-cookie'', csrf_cookie token)]\<rparr>)"

definition inspect_security ::
  "(bytes \<Rightarrow> bytes) \<Rightarrow> (str \<Rightarrow> bytes option) \<Rightarrow> ui_security \<Rightarrow> ui_request \<Rightarrow>
   (ui_request \<Rightarrow> 's \<Rightarrow> ui_payload ui_response \<times> 's) \<Rightarrow> 's \<Rightarrow> ui_payload ui_response \<times> 's" where
  "inspect_security sha b64 sec q next s =
     (case ui_check sha b64 sec q of
        Some r \<Rightarrow> (r, s)
      | None \<Rightarrow> (case next q s of (r, s1) \<Rightarrow> (ui_cookie (us_csrf_token sec) q r, s1)))"

interpretation server_ui: ui_guard "ui_check sha b64 sec" "ui_cookie (us_csrf_token sec)" "inspect_security sha b64 sec"
  for sha b64 sec
  by unfold_locales (simp_all add: inspect_security_def split: prod.split)

section \<open>The routes\<close>

text \<open>Newest first; the sort is stable, as \<open>sort_by_key\<close> is.\<close>

definition by_newest :: "captured_request list \<Rightarrow> captured_request list" where
  "by_newest cs = sort_key (\<lambda>c. - int (captured_at c)) cs"

definition all_captures :: "server_state \<Rightarrow> captured_request list" where
  "all_captures s = concat (map snd (captures s))"

fun find_capture :: "(str \<times> captured_request list) list \<Rightarrow> str \<Rightarrow> (str \<times> captured_request) option" where
  "find_capture [] i = None"
| "find_capture ((k, queue) # rest) i =
     (case List.find (\<lambda>c. cap_id c = i) queue of Some c \<Rightarrow> Some (k, c) | None \<Rightarrow> find_capture rest i)"

definition list_requests :: "server_state \<Rightarrow> ui_payload ui_response" where
  "list_requests s = \<lparr>ui_code = 200, ui_set = [], ui_body = UiCaptures (by_newest (all_captures s))\<rparr>"

definition ui_status :: "nat \<Rightarrow> ui_payload ui_response" where
  "ui_status code = \<lparr>ui_code = code, ui_set = [], ui_body = UiEmpty\<rparr>"

definition get_request :: "str \<Rightarrow> server_state \<Rightarrow> ui_payload ui_response" where
  "get_request i s = (case find_capture (captures s) i of
     Some (k, c) \<Rightarrow> \<lparr>ui_code = 200, ui_set = [], ui_body = UiCapture c\<rparr>
   | None \<Rightarrow> ui_status 404)"

definition clear_requests :: "server_state \<Rightarrow> ui_payload ui_response \<times> server_state" where
  "clear_requests s = (ui_status 204, s\<lparr>captures := map (\<lambda>(k, queue). (k, [])) (captures s)\<rparr>)"

text \<open>\<open>None\<close>: the exchange with the tunnel never ends.\<close>

definition replay_request ::
  "proxy_env \<Rightarrow> http_parsers \<Rightarrow> str \<Rightarrow> str \<Rightarrow> server_state \<Rightarrow> ui_payload ui_response option \<times> server_state" where
  "replay_request env hp new_id i s =
     (case find_capture (captures s) i of
        None \<Rightarrow> (Some (ui_status 404), s)
      | Some (subdomain, cap) \<Rightarrow>
          (case replay_http_request env hp subdomain cap new_id s of
             (None, s1) \<Rightarrow> (None, s1)
           | (Some (Inl code), s1) \<Rightarrow> (Some (ui_status code), s1)
           | (Some (Inr resp), s1) \<Rightarrow> (Some \<lparr>ui_code = 200, ui_set = [], ui_body = UiReplay new_id\<rparr>, s1)))"

definition server_status :: "server_state \<Rightarrow> ui_payload ui_response" where
  "server_status s = \<lparr>ui_code = 200, ui_set = [], ui_body = UiStatus (sc_domain (cfg_server (ss_config s)))
     (dm_len (tunnels s)) (dm_len (tcp_tunnels s)) (max_tunnels (cfg_server (ss_config s)))\<rparr>"

definition event_stream :: "server_state \<Rightarrow> ui_payload ui_response" where
  "event_stream s = \<lparr>ui_code = 200, ui_set = [], ui_body = UiStream (length (inspect_tx s))\<rparr>"

text \<open>A \<open>get\<close> route also answers \<open>HEAD\<close>.\<close>

definition is_get :: "str \<Rightarrow> bool" where
  "is_get m = (m = ''GET'' \<or> m = ''HEAD'')"

text \<open>The routes of both inspection UIs, over the handlers of one of them.\<close>

record 's ui_handlers =
  h_list :: "'s \<Rightarrow> ui_payload ui_response"
  h_clear :: "'s \<Rightarrow> ui_payload ui_response \<times> 's"
  h_get :: "str \<Rightarrow> 's \<Rightarrow> ui_payload ui_response"
  h_replay :: "str \<Rightarrow> 's \<Rightarrow> ui_payload ui_response \<times> 's"
  h_stream :: "'s \<Rightarrow> ui_payload ui_response"
  h_status :: "'s \<Rightarrow> ui_payload ui_response"

definition read_route :: "('s \<Rightarrow> ui_payload ui_response) \<Rightarrow> str \<Rightarrow> 's \<Rightarrow> ui_payload ui_response \<times> 's" where
  "read_route h m s = ((if is_get m then h s else ui_status 405), s)"

definition route_table :: "'s ui_handlers \<Rightarrow> ui_request \<Rightarrow> 's \<Rightarrow> ui_payload ui_response \<times> 's" where
  "route_table h q s =
     (let p = uq_path q; m = uq_method q in
      if p = [] then read_route (\<lambda>_. \<lparr>ui_code = 200, ui_set = [], ui_body = UiPage\<rparr>) m s
      else if p = [''api'', ''requests''] then (if m = ''DELETE'' then h_clear h s else read_route (h_list h) m s)
      else if p = [''api'', ''stream''] then read_route (h_stream h) m s
      else if p = [''api'', ''status''] then read_route (h_status h) m s
      else (case p of
          [a, b, i] \<Rightarrow>
            (if a = ''api'' \<and> b = ''requests'' then read_route (h_get h i) m s else (ui_status 404, s))
        | [a, b, i, r] \<Rightarrow>
            (if a = ''api'' \<and> b = ''requests'' \<and> r = ''replay'' then
               (if m = ''POST'' then h_replay h i s else (ui_status 405, s))
             else (ui_status 404, s))
        | _ \<Rightarrow> (ui_status 404, s)))"

lemma route_table_reads: "\<not> is_mutating (uq_method q) \<Longrightarrow> snd (route_table h q s) = s"
  by (auto simp: route_table_def read_route_def is_mutating_def Let_def split: list.splits)

text \<open>A replay that never ends leaves \<open>stalled\<close> in place of a response.\<close>

definition ui_route ::
  "proxy_env \<Rightarrow> http_parsers \<Rightarrow> str \<Rightarrow> ui_payload ui_response \<Rightarrow> ui_request \<Rightarrow> server_state \<Rightarrow>
   ui_payload ui_response \<times> server_state" where
  "ui_route env hp new_id stalled = route_table
     \<lparr>h_list = list_requests, h_clear = clear_requests, h_get = get_request,
      h_replay = (\<lambda>i s. (case replay_request env hp new_id i s of
        (Some resp, s1) \<Rightarrow> (resp, s1) | (None, s1) \<Rightarrow> (stalled, s1))),
      h_stream = event_stream, h_status = server_status\<rparr>"

text \<open>Whether the UI is served, and with which guard; \<open>Ok None\<close> is the disabled UI.\<close>

definition ui_serve :: "str \<Rightarrow> config \<Rightarrow> (str, ui_security option) result" where
  "ui_serve uuid c =
     (if ui_port (cfg_inspect c) = 0 then Ok None
      else if \<not> is_loopback_bind (ui_bind (cfg_inspect c)) \<and>
        (case ui_auth_token (cfg_inspect c) of Some tok \<Rightarrow> trim tok = [] | None \<Rightarrow> True) then
        Err ''refusing non-loopback inspection UI without inspect.ui_auth_token''
      else Ok (Some (ui_security_new (ui_auth_token (cfg_inspect c)) uuid (is_loopback_bind (ui_bind (cfg_inspect c))))))"

section \<open>Who is served\<close>

lemma ui_serve_ok:
  assumes "config_ok c"
  shows "ui_serve uuid c = Ok (if ui_port (cfg_inspect c) = 0 then None
    else Some (ui_security_new (ui_auth_token (cfg_inspect c)) uuid (is_loopback_bind (ui_bind (cfg_inspect c)))))"
proof (cases "ui_port (cfg_inspect c) = 0 \<or> is_loopback_bind (ui_bind (cfg_inspect c))")
  case False
  then show ?thesis using config_ok_ui [OF assms] by (auto simp: ui_serve_def effective_ui_token_Some)
qed (auto simp: ui_serve_def)

lemma cleared_length: "dm_get (map (\<lambda>(k, queue). (k, [])) m) k = map_option (\<lambda>_. []) (dm_get m k)"
  by (induction m) (auto simp: dm_get_def)

text \<open>
  C32: the inspector cannot be reached from outside without its token. With a configuration the
  server loads, serving the UI never fails; and whatever the request and the handler, if the
  request is answered by the handler at all, then its \<open>Host\<close> is a loopback authority where the UI
  is bound to loopback, it carries the token wherever one is configured (always, where the UI is
  not bound to loopback), and a mutating request carries the CSRF token. A refused request
  changes nothing; and no request changes the server's state through the UI's routes without the
  CSRF token, whatever its method.
\<close>

theorem inspector_guarded:
  assumes "config_ok c"
  shows "\<exists>sec. ui_serve uuid c = Ok sec \<and> (ui_port (cfg_inspect c) = 0 \<longleftrightarrow> sec = None) \<and>
    (\<forall>x q (handler :: ui_request \<Rightarrow> 's \<Rightarrow> ui_payload ui_response \<times> 's) handler' s. sec = Some x \<longrightarrow>
      (snd (inspect_security sha b64 x q handler s) \<noteq> s \<or>
       inspect_security sha b64 x q handler s \<noteq> inspect_security sha b64 x q handler' s \<longrightarrow>
        (if is_loopback_bind (ui_bind (cfg_inspect c)) then loopback_host_valid (uq_headers q) else us_auth_token x \<noteq> None) \<and>
        (\<forall>token. us_auth_token x = Some token \<longrightarrow> ui_auth_token (cfg_inspect c) = Some token \<and>
           (\<exists>v. header_text (uq_headers q) ''authorization'' = Some v \<and> authorized_header sha b64 v token)) \<and>
        (is_mutating (uq_method q) \<longrightarrow> csrf_header_valid (uq_headers q) uuid))) \<and>
    (\<forall>x q env hp i stalled st. sec = Some x \<and> snd (inspect_security sha b64 x q (ui_route env hp i stalled) st) \<noteq> st \<longrightarrow>
        csrf_header_valid (uq_headers q) uuid)"
proof (cases "ui_port (cfg_inspect c) = 0")
  case True
  then show ?thesis by (simp add: ui_serve_def)
next
  case False
  let ?i = "cfg_inspect c"
  define x where "x = ui_security_new (ui_auth_token ?i) uuid (is_loopback_bind (ui_bind ?i))"
  have tok: "\<exists>tok. ui_auth_token ?i = Some tok \<and> trim tok \<noteq> []" if "\<not> is_loopback_bind (ui_bind ?i)"
    using config_ok_ui [OF assms False that] by (auto simp: effective_ui_token_Some)
  have serve: "ui_serve uuid c = Ok (Some x)" using False by (simp add: ui_serve_ok [OF assms] x_def)
  have own: "(if is_loopback_bind (ui_bind ?i) then loopback_host_valid (uq_headers q) else us_auth_token x \<noteq> None) \<and>
        (\<forall>token. us_auth_token x = Some token \<longrightarrow> ui_auth_token ?i = Some token \<and>
           (\<exists>v. header_text (uq_headers q) ''authorization'' = Some v \<and> authorized_header sha b64 v token)) \<and>
        (is_mutating (uq_method q) \<longrightarrow> csrf_header_valid (uq_headers q) uuid)"
    if "ui_check sha b64 x q = None" for q
    using that tok by (auto simp: ui_check_def x_def ui_security_new_def split: if_splits option.splits)
  have admitted: "ui_check sha b64 x q = None"
    if "snd (inspect_security sha b64 x q handler s) \<noteq> s \<or>
       inspect_security sha b64 x q handler s \<noteq> inspect_security sha b64 x q handler' s"
    for q and handler handler' :: "ui_request \<Rightarrow> 's \<Rightarrow> ui_payload ui_response \<times> 's" and s
    using that server_ui.changes_only_admitted server_ui.refused_handler_irrelevant by metis
  have change: "csrf_header_valid (uq_headers q) uuid"
    if "snd (inspect_security sha b64 x q (ui_route env hp i stalled) st) \<noteq> st" for q env hp i stalled st
  proof -
    have c: "ui_check sha b64 x q = None" by (rule server_ui.changes_only_admitted [OF that])
    have "is_mutating (uq_method q)"
      by (rule ccontr) (use that in \<open>simp add: server_ui.admit [OF c] ui_route_def route_table_reads\<close>)
    then show ?thesis using c by (auto simp: ui_check_def x_def ui_security_new_def split: if_splits)
  qed
  show ?thesis
    by (rule exI [of _ "Some x"], intro conjI serve allI impI, use False in simp)
      (unfold option.inject, ((elim conjE)?, hypsubst, (erule change | (drule admitted, drule own, simp)))+)
qed

definition local_ui_config :: config where
  "local_ui_config = default_config\<lparr>cfg_inspect := (cfg_inspect default_config)\<lparr>ui_port := 4040, ui_bind := ''localhost:4040''\<rparr>\<rparr>"

lemma local_ui_config_ok: "config_ok local_ui_config \<and> is_loopback_bind (ui_bind (cfg_inspect local_ui_config))"
proof -
  have "is_loopback_bind ''localhost:4040''"
    using loopback_localhost_port trim_all_graphic [of "''localhost:4040''"]
    by (simp add: is_loopback_bind_def graphic_def byte_val_def)
  then show ?thesis using default_config_ok by (simp add: config_ok_def local_ui_config_def)
qed

text \<open>A request without a \<open>Host\<close> is refused, so no handler can answer it or change anything.\<close>

lemma inspector_guarded_witness:
  "snd (inspect_security id Some (ui_security_new None ''csrf'' True) \<lparr>uq_method = ''DELETE'', uq_path = [''api'', ''requests''], uq_headers = []\<rparr>
     (\<lambda>_ n. (ui_status 204, n + 1)) (0::nat)) = 0"
proof -
  have n: "ui_port (cfg_inspect local_ui_config) \<noteq> 0" "ui_auth_token (cfg_inspect local_ui_config) = None"
    by (simp_all add: local_ui_config_def default_config_def)
  have s: "ui_serve ''csrf'' local_ui_config = Ok (Some (ui_security_new None ''csrf'' True))"
    using local_ui_config_ok n by (simp add: ui_serve_def)
  have "\<not> loopback_host_valid []" by (simp add: loopback_host_valid_def header_text_def get_header_def)
  then show ?thesis
    using inspector_guarded [OF conjunct1 [OF local_ui_config_ok], of "''csrf''" id Some, where 's = nat]
      local_ui_config_ok s by fastforce
qed

text \<open>
  A stale CSRF cookie is never replaced. The cookie is set only when the request brings none
  of that name, whatever its value: after a restart, which draws a new token, a browser that
  still sends the old one gets no new one, and each of its mutating requests is refused with 403
  as long as it presents that value.
\<close>

theorem stale_csrf_cookie_stays:
  assumes old: "header_text (uq_headers q) ''cookie'' = Some (''rgrok_csrf='' @ old)" "old \<noteq> us_csrf_token sec"
    and plain: "list_all graphic old" "CHR '';'' \<notin> set old"
    and open_ui: "us_auth_token sec = None" "us_require_loopback sec \<Longrightarrow> loopback_host_valid (uq_headers q)"
  shows "(\<not> is_mutating (uq_method q) \<longrightarrow> inspect_security sha b64 sec q handler s = handler q s) \<and>
    (is_mutating (uq_method q) \<and> header_text (uq_headers q) ''x-rgrok-csrf'' = Some old \<longrightarrow>
       inspect_security sha b64 sec q handler s = (ui_refusal 403 ''missing or invalid CSRF token'', s))"
proof -
  have "list_all graphic (''rgrok_csrf='' @ old)" using plain(1) by (simp add: graphic_def byte_val_def)
  then have "trim (''rgrok_csrf='' @ old) = ''rgrok_csrf='' @ old" by (rule trim_all_graphic)
  moreover have "split_on (CHR '';'') (''rgrok_csrf='' @ old) = [''rgrok_csrf='' @ old]"
    by (rule split_on_notin) (use plain(2) in simp)
  moreover have "split_once ''='' (''rgrok_csrf'' @ CHR ''='' # old) = Some (''rgrok_csrf'', old)"
    by (rule split_once_char) simp
  ultimately have "has_csrf_cookie (uq_headers q)"
    by (simp add: has_csrf_cookie_def old(1) cookie_value_def)
  then show ?thesis using old(2) open_ui
    by (auto simp: inspect_security_def ui_check_def ui_cookie_def csrf_header_valid_def split: prod.splits)
qed

lemma stale_csrf_cookie_stays_witness:
  "inspect_security id Some (ui_security_new None ''new'' False)
     \<lparr>uq_method = ''POST'', uq_path = [], uq_headers = [(''cookie'', ''rgrok_csrf=old''), (''x-rgrok-csrf'', ''old'')]\<rparr>
     (\<lambda>_ n. (ui_status 204, n + 1)) (0::nat) = (ui_refusal 403 ''missing or invalid CSRF token'', 0)"
  using stale_csrf_cookie_stays [of "\<lparr>uq_method = ''POST'', uq_path = [], uq_headers = [(''cookie'', ''rgrok_csrf=old''), (''x-rgrok-csrf'', ''old'')]\<rparr>"
      "''old''" "ui_security_new None ''new'' False" id Some "\<lambda>_ n. (ui_status 204, n + 1)" "0::nat"]
  by (simp add: header_text_def get_header_def value_to_str_def value_byte_def byte_val_def graphic_def is_mutating_def
      ui_security_new_def)

end
