(* ===== verification/Client_Inspect.thy ===== *)
theory Client_Inspect
  imports Web_Ui
begin

text \<open>
  The client's inspection UI (\<open>inspect.rs\<close> of the client): the bounded store of finished captures,
  the guard, which has no token because the UI is always bound to loopback, the routes, and
  replay against the local service. The helpers the client repeats from \<open>web_ui.rs\<close> word for
  word (mutating methods, the CSRF field, cookies, the loopback host) are those of \<open>Web_Ui\<close>. The
  HTTP client of a replay (\<open>reqwest\<close>) is a parameter.
\<close>

record inspect_state =
  ci_captures :: "captured_request list"
  ci_events :: "inspect_event list"
  ci_local_port :: port
  ci_max_captures :: nat
  ci_max_body_bytes :: nat
  ci_csrf_token :: str

definition with_max_body_bytes :: "str \<Rightarrow> port \<Rightarrow> nat \<Rightarrow> inspect_state" where
  "with_max_body_bytes uuid local_port max_body_bytes =
     \<lparr>ci_captures = [], ci_events = [], ci_local_port = local_port, ci_max_captures = 100,
      ci_max_body_bytes = max_body_bytes, ci_csrf_token = uuid\<rparr>"

definition client_store_capture :: "captured_request \<Rightarrow> inspect_state \<Rightarrow> inspect_state" where
  "client_store_capture capture st =
     (let capture = capture\<lparr>req_headers := sanitize_headers (req_headers capture),
            resp_headers := map_option sanitize_headers (resp_headers capture)\<rparr>;
          queue = (if length (ci_captures st) \<ge> ci_max_captures st then tl (ci_captures st) else ci_captures st)
      in st\<lparr>ci_events := ci_events st @ [NewRequest capture], ci_captures := queue @ [capture]\<rparr>)"

section \<open>The guard\<close>

definition client_check :: "inspect_state \<Rightarrow> ui_request \<Rightarrow> ui_payload ui_response option" where
  "client_check st q =
     (if \<not> loopback_host_valid (uq_headers q) then Some (ui_refusal 421 ''invalid inspection UI Host'')
      else if is_mutating (uq_method q) \<and> \<not> csrf_header_valid (uq_headers q) (ci_csrf_token st) then
        Some (ui_refusal 403 ''missing or invalid CSRF token'')
      else None)"

text \<open>The token is that of the state the server was started with.\<close>

definition client_inspect_security ::
  "inspect_state \<Rightarrow> ui_request \<Rightarrow> (ui_request \<Rightarrow> 's \<Rightarrow> ui_payload ui_response \<times> 's) \<Rightarrow> 's \<Rightarrow> ui_payload ui_response \<times> 's" where
  "client_inspect_security st q next s =
     (case client_check st q of
        Some r \<Rightarrow> (r, s)
      | None \<Rightarrow> (case next q s of (r, s1) \<Rightarrow> (ui_cookie (ci_csrf_token st) q r, s1)))"

interpretation client_ui: ui_guard "client_check st" "ui_cookie (ci_csrf_token st)" "client_inspect_security st"
  for st
  by unfold_locales (simp_all add: client_inspect_security_def split: prod.split)

section \<open>The routes\<close>

definition client_list_requests :: "inspect_state \<Rightarrow> ui_payload ui_response" where
  "client_list_requests st = \<lparr>ui_code = 200, ui_set = [], ui_body = UiCaptures (by_newest (ci_captures st))\<rparr>"

definition client_find :: "str \<Rightarrow> inspect_state \<Rightarrow> captured_request option" where
  "client_find i st = List.find (\<lambda>c. cap_id c = i) (ci_captures st)"

definition client_get_request :: "str \<Rightarrow> inspect_state \<Rightarrow> ui_payload ui_response" where
  "client_get_request i st = (case client_find i st of
     Some c \<Rightarrow> \<lparr>ui_code = 200, ui_set = [], ui_body = UiCapture c\<rparr>
   | None \<Rightarrow> ui_status 404)"

definition client_clear_requests :: "inspect_state \<Rightarrow> ui_payload ui_response \<times> inspect_state" where
  "client_clear_requests st = (ui_status 204, st\<lparr>ci_captures := []\<rparr>)"

definition tunnel_status :: "inspect_state \<Rightarrow> ui_payload ui_response" where
  "tunnel_status st = \<lparr>ui_code = 200, ui_set = [], ui_body = UiClientStatus (ci_local_port st) (length (ci_captures st))\<rparr>"

section \<open>Replay\<close>

text \<open>The chunks of the answer, up to the limit on what is kept; \<open>None\<close> is a read error.\<close>

fun replay_chunks :: "nat \<Rightarrow> (str, bytes) result list \<Rightarrow> bytes \<Rightarrow> (bytes \<times> bool) option" where
  "replay_chunks limit [] captured = Some (captured, False)"
| "replay_chunks limit (Inl e # cs) captured = None"
| "replay_chunks limit (Inr chunk # cs) captured =
     (let copied = min (length chunk) (limit - length captured);
          captured = captured @ take copied chunk
      in if copied < length chunk then Some (captured, True) else replay_chunks limit cs captured)"

record outgoing_request =
  og_url :: str
  og_method :: str
  og_headers :: headers
  og_body :: "bytes option"

record replay_answer =
  ra_status :: nat
  ra_headers :: headers
  ra_chunks :: "(str, bytes) result list"

definition replay_outgoing :: "(str \<Rightarrow> str option) \<Rightarrow> inspect_state \<Rightarrow> captured_request \<Rightarrow> outgoing_request" where
  "replay_outgoing parse_method st cap =
     \<lparr>og_url = ''http://127.0.0.1:'' @ show_nat (ci_local_port st) @ req_url cap,
      og_method = (case parse_method (req_method cap) of Some m \<Rightarrow> m | None \<Rightarrow> ''GET''),
      og_headers = filter (\<lambda>(k, v). \<not> eq_ignore_ascii_case k ''host'') (sanitize_headers (req_headers cap)),
      og_body = req_body cap\<rparr>"

definition client_replay_request ::
  "(str \<Rightarrow> str option) \<Rightarrow> (outgoing_request \<Rightarrow> (str, replay_answer) result) \<Rightarrow> str \<Rightarrow> nat \<Rightarrow> nat \<Rightarrow> str \<Rightarrow> inspect_state \<Rightarrow>
   ui_payload ui_response \<times> inspect_state" where
  "client_replay_request parse_method send new_id now elapsed i st =
     (case client_find i st of
        None \<Rightarrow> (ui_status 404, st)
      | Some cap \<Rightarrow>
          (if req_body_truncated cap then (ui_status 413, st)
           else (case send (replay_outgoing parse_method st cap) of
               Inl e \<Rightarrow> (ui_status 502, st)
             | Inr resp \<Rightarrow>
                 (case replay_chunks (ci_max_body_bytes st) (ra_chunks resp) [] of
                    None \<Rightarrow> (ui_status 502, st)
                  | Some (captured, truncated) \<Rightarrow>
                      (\<lparr>ui_code = 200, ui_set = [], ui_body = UiReplay new_id\<rparr>,
                       client_store_capture
                         (cap\<lparr>cap_id := new_id, captured_at := now, duration_ms := Some elapsed, cap_tunnel_id := [],
                           req_body_truncated := False, resp_status := Some (ra_status resp),
                           resp_headers := Some (concat (map (\<lambda>(k, v). case value_to_str v of Some x \<Rightarrow> [(k, x)] | None \<Rightarrow> [])
                             (ra_headers resp))),
                           resp_body := (if captured = [] then None else Some captured),
                           resp_body_truncated := truncated, remote_addr := ''replay'', tls_version := None\<rparr>) st)))))"

definition client_event_stream :: "inspect_state \<Rightarrow> ui_payload ui_response" where
  "client_event_stream st = \<lparr>ui_code = 200, ui_set = [], ui_body = UiStream (length (ci_events st))\<rparr>"

text \<open>The route table of the client; a replay is one exchange with the local service.\<close>

definition client_route ::
  "(str \<Rightarrow> str option) \<Rightarrow> (outgoing_request \<Rightarrow> (str, replay_answer) result) \<Rightarrow> str \<Rightarrow> nat \<Rightarrow> nat \<Rightarrow> ui_request \<Rightarrow>
   inspect_state \<Rightarrow> ui_payload ui_response \<times> inspect_state" where
  "client_route parse_method send new_id now elapsed = route_table
     \<lparr>h_list = client_list_requests, h_clear = client_clear_requests, h_get = client_get_request,
      h_replay = client_replay_request parse_method send new_id now elapsed,
      h_stream = client_event_stream, h_status = tunnel_status\<rparr>"

section \<open>What is kept and what is replayed\<close>

definition store_ok :: "inspect_state \<Rightarrow> bool" where
  "store_ok st \<longleftrightarrow> length (ci_captures st) \<le> max 1 (ci_max_captures st) \<and>
     list_all (\<lambda>c. sanitize_headers (req_headers c) = req_headers c \<and>
       map_option sanitize_headers (resp_headers c) = resp_headers c) (ci_captures st)"

lemma sanitize_idem [simp]: "sanitize_headers (sanitize_headers hs) = sanitize_headers hs"
  by (simp add: sanitize_headers_def)

lemma map_sanitize_idem [simp]: "map_option sanitize_headers (map_option sanitize_headers h) = map_option sanitize_headers h"
  by (cases h) simp_all

lemma store_ok_new: "store_ok (with_max_body_bytes u p m)"
  by (simp add: store_ok_def with_max_body_bytes_def)

lemma store_ok_store: "store_ok st \<Longrightarrow> store_ok (client_store_capture c st)"
  by (cases "ci_captures st") (auto simp: store_ok_def client_store_capture_def Let_def)

lemma replay_chunks_bound: "length c \<le> m \<Longrightarrow> replay_chunks m cs c = Some (b, t) \<Longrightarrow> length b \<le> m"
proof (induction m cs c rule: replay_chunks.induct)
  case (3 limit chunk cs captured)
  then show ?case by (auto simp: Let_def split: if_splits)
qed auto

lemma replay_store_ok: "store_ok st \<Longrightarrow> store_ok (snd (client_replay_request pm send n now el i st))"
  using store_ok_store by (simp add: client_replay_request_def split: option.split sum.split)

lemma replay_body_bound:
  assumes "client_replay_request pm send n now el i st = (r, st')" "ui_body r = UiReplay x"
  shows "\<exists>c. ci_captures st' \<noteq> [] \<and> last (ci_captures st') = c \<and> cap_id c = n \<and>
    (case resp_body c of None \<Rightarrow> True | Some b \<Rightarrow> length b \<le> ci_max_body_bytes st)"
proof -
  obtain cap resp captured truncated where c: "client_find i st = Some cap" "\<not> req_body_truncated cap"
      "send (replay_outgoing pm st cap) = Ok resp" "replay_chunks (ci_max_body_bytes st) (ra_chunks resp) [] = Some (captured, truncated)"
    using assms by (auto simp: client_replay_request_def ui_status_def split: option.splits if_splits sum.splits prod.splits)
  have "length captured \<le> ci_max_body_bytes st" using replay_chunks_bound [OF _ c(4)] by simp
  then show ?thesis using assms(1) c by (auto simp: client_replay_request_def client_store_capture_def Let_def)
qed

end
