(* ===== verification/Local_Proxy.thy ===== *)
theory Local_Proxy
  imports Client_Inspect Http_Request
begin

text \<open>
  \<open>local_proxy.rs\<close>: the bridge between a data stream and the local service, with bounded copies
  of both directions for the inspection UI, and the parsing of what was copied. The two pumps run
  concurrently, so each is a function of its own reader and writer; a pump that never returns is
  \<open>None\<close>.
\<close>

definition HEADER_CAPTURE_ALLOWANCE :: nat where
  "HEADER_CAPTURE_ALLOWANCE = 64 * 1024"

section \<open>The bounded copy\<close>

record capture_buffer =
  cb_bytes :: bytes
  cb_limit :: nat

text \<open>\<open>saturating_add\<close> on \<open>usize\<close>.\<close>

definition capture_new :: "nat \<Rightarrow> capture_buffer" where
  "capture_new max_body_bytes =
     \<lparr>cb_bytes = [], cb_limit = min (max_body_bytes + HEADER_CAPTURE_ALLOWANCE) (2 ^ 64 - 1)\<rparr>"

definition capture_append :: "bytes \<Rightarrow> capture_buffer \<Rightarrow> capture_buffer" where
  "capture_append data b =
     b\<lparr>cb_bytes := cb_bytes b @ take (min (length data) (cb_limit b - length (cb_bytes b))) data\<rparr>"

section \<open>One pump\<close>

text \<open>
  A writer: whether each \<open>write_all\<close> (by the number of bytes before it) and the final shutdown
  succeed; one that fails may have taken some of its bytes.
\<close>

record writer =
  wr_write :: "nat \<Rightarrow> (nat \<times> str, unit) result"
  wr_shutdown :: "(str, unit) result"

text \<open>The bytes written, the copy, and the number of bytes forwarded or the error.\<close>

function forward_loop ::
  "stream \<Rightarrow> writer \<Rightarrow> bytes \<Rightarrow> capture_buffer \<Rightarrow> bytes \<times> capture_buffer \<times> (str, nat) result option" where
  "forward_loop s w out b =
     (case s_read 8192 s of
        None \<Rightarrow> (out, b, None)
      | Some (Inl e) \<Rightarrow> (out, b, Some (Err e))
      | Some (Inr (d, s1)) \<Rightarrow>
          (if d = [] then (out, b, Some (and_then (wr_shutdown w) (\<lambda>_. Ok (length out))))
           else (case wr_write w (length out) of
               Inl (k, e) \<Rightarrow> (out @ take k d, b, Some (Err e))
             | Inr _ \<Rightarrow> forward_loop s1 w (out @ d) (capture_append d b))))"
  by pat_completeness auto
termination by (relation "measure (\<lambda>(s, _). length (content s))") (auto intro: s_read_shorter)

declare forward_loop.simps [simp del]

definition forward_and_capture ::
  "stream \<Rightarrow> writer \<Rightarrow> capture_buffer \<Rightarrow> bytes \<times> capture_buffer \<times> (str, nat) result option" where
  "forward_and_capture s w b = forward_loop s w [] b"

section \<open>Parsing the copies\<close>

definition find_body_offset :: "bytes \<Rightarrow> nat option" where
  "find_body_offset data = map_option (\<lambda>p. p + 4) (find_sub crlf2 data)"

fun capture_fields :: "str list \<Rightarrow> headers" where
  "capture_fields [] = []"
| "capture_fields (l # ls) =
     (if l = [] then []
      else (case split_once '': '' l of Some f \<Rightarrow> f # capture_fields ls | None \<Rightarrow> capture_fields ls))"

definition capture_body :: "bytes \<Rightarrow> nat \<Rightarrow> bytes option" where
  "capture_body data max_body_bytes = (case find_body_offset data of
     None \<Rightarrow> None
   | Some p \<Rightarrow> (if p < length data then Some (take (min (length (drop p data)) max_body_bytes) (drop p data)) else None))"

definition parse_request_for_capture :: "str \<Rightarrow> nat \<Rightarrow> bytes \<Rightarrow> nat \<Rightarrow> captured_request option" where
  "parse_request_for_capture uuid now data max_body_bytes =
     (case lines (utf8_lossy data) of
        [] \<Rightarrow> None
      | first # ls \<Rightarrow>
          (case split_whitespace first of
             meth # url # _ \<Rightarrow>
               Some \<lparr>cap_id = uuid, captured_at = now, duration_ms = None, cap_tunnel_id = [], req_method = meth,
                 req_url = url, req_headers = sanitize_headers (capture_fields ls),
                 req_body = capture_body data max_body_bytes, req_body_truncated = False, resp_status = None,
                 resp_headers = None, resp_body = None, resp_body_truncated = False, remote_addr = [], tls_version = None\<rparr>
           | _ \<Rightarrow> None))"

definition capture_status :: "bytes \<Rightarrow> nat option" where
  "capture_status data =
     (case lines (utf8_lossy data) of
        [] \<Rightarrow> None
      | first_line # _ \<Rightarrow> (case split_whitespace first_line of _ # code # _ \<Rightarrow> parse_u16 code | _ \<Rightarrow> None))"

definition capture_response_headers :: "bytes \<Rightarrow> headers" where
  "capture_response_headers data = sanitize_headers (capture_fields (drop 1 (lines (utf8_lossy data))))"

section \<open>The bridge\<close>

text \<open>The counters of \<open>output.rs\<close>: atomic \<open>u64\<close>s, whose additions wrap.\<close>

record tunnel_stats =
  st_connections :: nat
  st_bytes_in :: nat
  st_bytes_out :: nat

definition truncated_by :: "bytes \<Rightarrow> nat \<Rightarrow> nat \<Rightarrow> bool" where
  "truncated_by copied n max_body_bytes =
     (case find_body_offset copied of Some offset \<Rightarrow> n - offset > max_body_bytes | None \<Rightarrow> False)"

definition finished_capture ::
  "str \<Rightarrow> nat \<Rightarrow> nat \<Rightarrow> nat \<Rightarrow> bytes \<Rightarrow> nat \<Rightarrow> bytes \<Rightarrow> nat \<Rightarrow> captured_request option" where
  "finished_capture uuid now elapsed max_body_bytes request bytes_in response bytes_out =
     map_option (\<lambda>cap.
       (let cap = cap\<lparr>req_body_truncated := truncated_by request bytes_in max_body_bytes, duration_ms := Some elapsed\<rparr>
        in if response = [] then cap
           else cap\<lparr>resp_status := capture_status response, resp_headers := Some (capture_response_headers response),
                  resp_body := capture_body response max_body_bytes,
                  resp_body_truncated := truncated_by response bytes_out max_body_bytes\<rparr>))
       (parse_request_for_capture uuid now request max_body_bytes)"

text \<open>\<open>try_join!\<close>: the first error ends the bridge and drops the other pump.\<close>

definition join_pumps :: "(str, nat) result option \<Rightarrow> (str, nat) result option \<Rightarrow> (str, nat \<times> nat) result option" where
  "join_pumps a b = (case (a, b) of
     (Some (Inl e), _) \<Rightarrow> Some (Err e)
   | (_, Some (Inl e)) \<Rightarrow> Some (Err e)
   | (Some (Inr x), Some (Inr y)) \<Rightarrow> Some (Ok (x, y))
   | _ \<Rightarrow> None)"

record bridge_env =
  br_upstream :: stream
  br_local :: stream
  br_to_local :: writer
  br_to_upstream :: writer
  br_uuid :: str
  br_now :: nat
  br_elapsed :: nat

record bridge_outcome =
  bo_local_got :: bytes
  bo_upstream_got :: bytes
  bo_result :: "(str, unit) result option"
  bo_stats :: tunnel_stats
  bo_inspect :: inspect_state

definition count_bytes :: "nat \<Rightarrow> nat \<Rightarrow> tunnel_stats \<Rightarrow> tunnel_stats" where
  "count_bytes i o' st =
     st\<lparr>st_bytes_in := (st_bytes_in st + i) mod 2 ^ 64, st_bytes_out := (st_bytes_out st + o') mod 2 ^ 64\<rparr>"

definition bridge_with_capture :: "bridge_env \<Rightarrow> inspect_state \<Rightarrow> tunnel_stats \<Rightarrow> bridge_outcome" where
  "bridge_with_capture env ins st =
     (case forward_and_capture (br_upstream env) (br_to_local env) (capture_new (ci_max_body_bytes ins)) of
        (local_got, request, r1) \<Rightarrow>
      (case forward_and_capture (br_local env) (br_to_upstream env) (capture_new (ci_max_body_bytes ins)) of
        (upstream_got, response, r2) \<Rightarrow>
          (case join_pumps r1 r2 of
             Some (Inr (bytes_in, bytes_out)) \<Rightarrow>
               \<lparr>bo_local_got = local_got, bo_upstream_got = upstream_got, bo_result = Some (Ok ()),
                bo_stats = count_bytes bytes_in bytes_out st,
                bo_inspect = (case finished_capture (br_uuid env) (br_now env) (br_elapsed env) (ci_max_body_bytes ins)
                    (cb_bytes request) bytes_in (cb_bytes response) bytes_out of
                  Some cap \<Rightarrow> client_store_capture cap ins | None \<Rightarrow> ins)\<rparr>
           | x \<Rightarrow> \<lparr>bo_local_got = local_got, bo_upstream_got = upstream_got,
               bo_result = (case x of Some (Inl e) \<Rightarrow> Some (Err e) | _ \<Rightarrow> None), bo_stats = st, bo_inspect = ins\<rparr>)))"


section \<open>The bridge is transparent\<close>

definition copies :: "capture_buffer \<Rightarrow> bytes \<Rightarrow> bool" where
  "copies b out \<longleftrightarrow> cb_bytes b = take (cb_limit b) out"

lemma copies_append: "copies b out \<Longrightarrow> copies (capture_append d b) (out @ d)"
  by (auto simp: copies_def capture_append_def min_def)

lemma copies_new: "copies (capture_new m) []"
  by (simp add: copies_def capture_new_def)

lemma capture_append_limit [simp]: "cb_limit (capture_append d b) = cb_limit b"
  by (simp add: capture_append_def)

lemma copies_prefix: "copies b out \<Longrightarrow> prefix (cb_bytes b) (out @ d) \<and> length (cb_bytes b) \<le> cb_limit b"
  by (auto simp: copies_def intro: prefix_order.trans [OF take_is_prefix])

text \<open>Whatever happens, what was written is a prefix of what was read, and the copy of what was written.\<close>

lemma forward_loop_prefix:
  assumes "forward_loop s w out b = (out', b', r)" "copies b out"
  shows "\<exists>d. out' = out @ d \<and> prefix d (content s) \<and> prefix (cb_bytes b') out' \<and> length (cb_bytes b') \<le> cb_limit b \<and>
    (\<forall>n. r = Some (Ok n) \<longrightarrow> d = content s \<and> n = length out' \<and> copies b' out' \<and> cb_limit b' = cb_limit b)"
  using assms
proof (induction s w out b arbitrary: out' b' r rule: forward_loop.induct)
  case (1 s w out b)
  note step = "1.prems"(1) [unfolded forward_loop.simps [of s]] and copy = copies_prefix [OF "1.prems"(2)]
  show ?case
  proof (cases "\<exists>d s1. s_read 8192 s = Some (Ok (d, s1)) \<and> d \<noteq> []")
    case True
    then obtain d s1 where d: "s_read 8192 s = Some (Ok (d, s1))" "d \<noteq> []" by blast
    note c = s_read_Ok [OF d(1), simplified]
    show ?thesis
    proof (cases "wr_write w (length out)")
      case (Inr u)
      then have "forward_loop s1 w (out @ d) (capture_append d b) = (out', b', r)" using step d by simp
      from "1.IH" [OF d(1) refl refl d(2) Inr this copies_append [OF "1.prems"(2)]]
      obtain x where x: "out' = (out @ d) @ x \<and> prefix x (content s1) \<and> prefix (cb_bytes b') out' \<and>
        length (cb_bytes b') \<le> cb_limit (capture_append d b) \<and>
        (\<forall>n. r = Some (Ok n) \<longrightarrow> x = content s1 \<and> n = length out' \<and> copies b' out' \<and>
          cb_limit b' = cb_limit (capture_append d b))" ..
      have "out' = out @ (d @ x)" "prefix (d @ x) (content s)" using x c(1) by simp_all
      moreover have "prefix (cb_bytes b') out'" "length (cb_bytes b') \<le> cb_limit b"
        using x unfolding capture_append_limit by metis+
      moreover have "\<forall>n. r = Some (Ok n) \<longrightarrow> d @ x = content s \<and> n = length out' \<and> copies b' out' \<and> cb_limit b' = cb_limit b"
        using x unfolding c(1) capture_append_limit by metis
      ultimately show ?thesis by blast
    next
      case (Inl ke)
      obtain k e where ke: "ke = (k, e)" by (cases ke)
      have r: "out' = out @ take k d" "b' = b" "r = Some (Err e)" using step d Inl unfolding ke by simp_all
      have "prefix (take k d) (content s)" unfolding c(1) by (rule prefix_order.trans [OF take_is_prefix]) simp
      then show ?thesis using copy unfolding r by blast
    qed
  next
    case False
    then have "out' = out \<and> b' = b \<and> (\<forall>n. r = Some (Ok n) \<longrightarrow> content s = [] \<and> n = length out)"
      using step s_read_Ok(4) [of 8192 s]
      by (auto split: option.splits sum.splits if_splits simp: and_then_Ok_iff)
    then show ?thesis using "1.prems"(2) copy [of "[]"] by simp
  qed
qed

lemma forward_loop_total:
  assumes "snd s = Eof" "\<And>n. wr_write w n = Ok ()" "wr_shutdown w = Ok ()"
  shows "\<exists>b'. forward_loop s w out b = (out @ content s, b', Some (Ok (length out + length (content s))))"
  using assms
proof (induction s w out b rule: forward_loop.induct)
  case (1 s w out b)
  show ?case
  proof (cases "content s = []")
    case True
    then show ?thesis using "1.prems" by (simp add: forward_loop.simps [of s] s_read_end)
  next
    case False
    then obtain d s1 where d: "s_read 8192 s = Some (Ok (d, s1))" "d \<noteq> []" "content s = d @ content s1" "snd s1 = snd s"
      using s_read_more [of s 8192] by auto
    have "\<exists>b'. forward_loop s1 w (out @ d) (capture_append d b) =
        ((out @ d) @ content s1, b', Some (Ok (length (out @ d) + length (content s1))))"
      by (rule "1.IH" [OF d(1) refl refl d(2) "1.prems"(2)]) (use "1.prems" d(4) in simp_all)
    then show ?thesis using d "1.prems" by (simp add: forward_loop.simps [of s] add.assoc)
  qed
qed

text \<open>
  C33: inspection does not change what passes. Whatever the two sides send, however it is cut into
  reads, and wherever a write or a read fails, what either side has been given is a prefix of what
  the other sent, in order, and the copy kept for inspection is never longer than the configured
  body limit plus 64 KiB. When both sides end their streams and accept what they are given, the
  bridge returns, each side has everything the other sent, and both counters grow by exactly that, modulo 2^64.
\<close>

theorem bridge_transparent:
  assumes "bridge_with_capture env ins st = res"
  shows "prefix (bo_local_got res) (content (br_upstream env)) \<and> prefix (bo_upstream_got res) (content (br_local env)) \<and>
    (\<forall>b out r. forward_and_capture (br_upstream env) (br_to_local env) (capture_new (ci_max_body_bytes ins)) = (out, b, r) \<longrightarrow>
       length (cb_bytes b) \<le> ci_max_body_bytes ins + 65536 \<and> prefix (cb_bytes b) (content (br_upstream env))) \<and>
    (snd (br_upstream env) = Eof \<and> snd (br_local env) = Eof \<and> (\<forall>n. wr_write (br_to_local env) n = Ok ()) \<and>
     (\<forall>n. wr_write (br_to_upstream env) n = Ok ()) \<and> wr_shutdown (br_to_local env) = Ok () \<and>
     wr_shutdown (br_to_upstream env) = Ok () \<longrightarrow>
       bo_result res = Some (Ok ()) \<and> bo_local_got res = content (br_upstream env) \<and>
       bo_upstream_got res = content (br_local env) \<and>
       bo_stats res = st\<lparr>st_bytes_in := (st_bytes_in st + length (content (br_upstream env))) mod 2 ^ 64,
         st_bytes_out := (st_bytes_out st + length (content (br_local env))) mod 2 ^ 64\<rparr>)"
proof -
  let ?b = "capture_new (ci_max_body_bytes ins)"
  obtain o1 b1 r1 o2 b2 r2 where f: "forward_and_capture (br_upstream env) (br_to_local env) ?b = (o1, b1, r1)"
      "forward_and_capture (br_local env) (br_to_upstream env) ?b = (o2, b2, r2)"
    by (metis prod_cases3)
  have got: "bo_local_got res = o1" "bo_upstream_got res = o2"
    using assms by (auto simp: bridge_with_capture_def f split: option.splits sum.splits prod.splits)
  note p1 = forward_loop_prefix [OF f(1) [unfolded forward_and_capture_def] copies_new]
  note p2 = forward_loop_prefix [OF f(2) [unfolded forward_and_capture_def] copies_new]
  have pre: "prefix o1 (content (br_upstream env))" "prefix o2 (content (br_local env))" using p1 p2 by auto
  have b1: "length (cb_bytes b1) \<le> ci_max_body_bytes ins + 65536" "prefix (cb_bytes b1) o1"
    using p1 by (auto simp: copies_def capture_new_def HEADER_CAPTURE_ALLOWANCE_def take_is_prefix)
  have all: "bo_result res = Some (Ok ()) \<and> o1 = content (br_upstream env) \<and> o2 = content (br_local env) \<and>
       bo_stats res = st\<lparr>st_bytes_in := (st_bytes_in st + length (content (br_upstream env))) mod 2 ^ 64,
         st_bytes_out := (st_bytes_out st + length (content (br_local env))) mod 2 ^ 64\<rparr>"
    if "snd (br_upstream env) = Eof" "snd (br_local env) = Eof" "\<And>n. wr_write (br_to_local env) n = Ok ()"
      "\<And>n. wr_write (br_to_upstream env) n = Ok ()" "wr_shutdown (br_to_local env) = Ok ()" "wr_shutdown (br_to_upstream env) = Ok ()"
  proof -
    have "o1 = content (br_upstream env) \<and> r1 = Some (Ok (length o1))"
      using forward_loop_total [OF that(1,3,5), of "[]" ?b] f(1) by (auto simp: forward_and_capture_def)
    moreover have "o2 = content (br_local env) \<and> r2 = Some (Ok (length o2))"
      using forward_loop_total [OF that(2,4,6), of "[]" ?b] f(2) by (auto simp: forward_and_capture_def)
    ultimately show ?thesis using assms by (auto simp: bridge_with_capture_def f join_pumps_def count_bytes_def)
  qed
  show ?thesis using pre b1 all prefix_order.trans [OF b1(2) pre(1)] by (auto simp: got f)
qed

definition sample_bridge :: bridge_env where
  "sample_bridge = \<lparr>br_upstream = ([''GET / HT'', ''TP/1.1'' @ crlf2], Eof), br_local = ([''ok''], Eof),
     br_to_local = \<lparr>wr_write = \<lambda>_. Ok (), wr_shutdown = Ok ()\<rparr>, br_to_upstream = \<lparr>wr_write = \<lambda>_. Ok (), wr_shutdown = Ok ()\<rparr>,
     br_uuid = ''capture'', br_now = 7, br_elapsed = 3\<rparr>"

lemma bridge_transparent_witness:
  "bo_local_got (bridge_with_capture sample_bridge (with_max_body_bytes ''csrf'' 3000 16) \<lparr>st_connections = 1, st_bytes_in = 5, st_bytes_out = 0\<rparr>) =
     ''GET / HTTP/1.1'' @ crlf2 \<and>
   bo_upstream_got (bridge_with_capture sample_bridge (with_max_body_bytes ''csrf'' 3000 16) \<lparr>st_connections = 1, st_bytes_in = 5, st_bytes_out = 0\<rparr>) =
     ''ok'' \<and>
   bo_stats (bridge_with_capture sample_bridge (with_max_body_bytes ''csrf'' 3000 16) \<lparr>st_connections = 1, st_bytes_in = 5, st_bytes_out = 0\<rparr>) =
     \<lparr>st_connections = 1, st_bytes_in = 23, st_bytes_out = 2\<rparr>"
  using bridge_transparent [OF refl, of sample_bridge "with_max_body_bytes ''csrf'' 3000 16"
      "\<lparr>st_connections = 1, st_bytes_in = 5, st_bytes_out = 0\<rparr>"]
  by (simp add: sample_bridge_def content_def crlf2_def)

section \<open>Bridging with and without inspection\<close>






end
