(* ===== verification/Capture_Fidelity.thy ===== *)
theory Capture_Fidelity
  imports Local_Proxy
begin

text \<open>
  The two ends of a data stream together: the request the server writes into the tunnel
  (\<open>serialize_http_request\<close> of \<open>proxy.rs\<close>, then the body) and what the client's inspector parses out
  of its bounded copy of it (\<open>local_proxy.rs\<close>).
\<close>

section \<open>Lines of ASCII text\<close>

lemma utf8_lossy_ascii_append: "list_all ascii s \<Longrightarrow> utf8_lossy (s @ t) = s @ utf8_lossy t"
proof (induction s)
  case (Cons c s)
  then show ?case by (subst utf8_lossy.simps) (simp add: utf8_step_ascii)
qed simp

lemma strip_cr_append [simp]: "strip_cr (l @ [CR]) = l"
  by (simp add: strip_cr_def strip_suffix_iff split: option.split)

text \<open>Text lines without \<open>\n\<close>, then an empty line, then anything.\<close>

lemma lines_head:
  assumes "LF \<notin> set l"
  shows "lines (l @ crlf @ r) = l # lines r"
proof -
  have "split_on LF ((l @ [CR]) @ LF # r) = (l @ [CR]) # split_on LF r"
    by (rule split_on_append) (use assms in simp)
  then show ?thesis by (simp add: lines_def Let_def)
qed

lemma lines_heads:
  assumes "\<And>l. l \<in> set ls \<Longrightarrow> LF \<notin> set l"
  shows "lines (concat (map (\<lambda>l. l @ crlf) ls) @ crlf @ r) = ls @ [] # lines r"
  using assms
proof (induction ls)
  case Nil
  then show ?case using lines_head [of "[]" r] by simp
next
  case (Cons l ls)
  have "lines (l @ crlf @ (concat (map (\<lambda>l. l @ crlf) ls) @ crlf @ r)) =
      l # lines (concat (map (\<lambda>l. l @ crlf) ls) @ crlf @ r)"
    by (rule lines_head) (simp add: Cons.prems)
  with Cons show ?case by simp
qed

section \<open>The end of the header section\<close>

lemma find_crlf2_skip:
  assumes "CR \<notin> set l" "\<not> starts_with crlf t"
  shows "find_sub crlf2 (l @ crlf @ t) = map_option (\<lambda>k. length l + 2 + k) (find_sub crlf2 t)"
  using assms(1)
proof (induction l)
  case Nil
  have "\<not> starts_with crlf2 (crlf @ t)" "\<not> starts_with crlf2 (LF # t)"
    using assms(2) by (simp_all add: crlf2_def starts_with_iff)
  then show ?case by (cases "find_sub crlf2 t") simp_all
next
  case (Cons c l)
  then have "\<not> starts_with crlf2 ((c # l) @ crlf @ t)" by (simp add: crlf2_def starts_with_iff)
  with Cons show ?case by (cases "find_sub crlf2 t") simp_all
qed

lemma find_crlf2_heads:
  assumes "ls \<noteq> []" "\<And>l. l \<in> set ls \<Longrightarrow> l \<noteq> [] \<and> CR \<notin> set l"
  shows "map_option (\<lambda>p. p + 4) (find_sub crlf2 (concat (map (\<lambda>l. l @ crlf) ls) @ crlf @ r)) =
    Some (length (concat (map (\<lambda>l. l @ crlf) ls)) + 2)"
  using assms
proof (induction ls)
  case (Cons l ls)
  show ?case
  proof (cases "ls = []")
    case True
    have "find_sub (CR # [LF, CR, LF]) (l @ (CR # [LF, CR, LF]) @ r) = Some (length l)"
      by (rule find_sub_first) (simp add: Cons.prems(2))
    then show ?thesis using True by (simp add: crlf2_def)
  next
    case False
    then obtain l2 ls2 where ls: "ls = l2 # ls2" by (cases ls) auto
    obtain c w where l2: "l2 = c # w" "CR \<noteq> c" using Cons.prems(2) [of l2] by (cases l2) (auto simp: ls)
    have "\<not> starts_with crlf (concat (map (\<lambda>l. l @ crlf) ls) @ crlf @ r)" by (simp add: ls l2 starts_with_iff)
    moreover have "CR \<notin> set l" using Cons.prems(2) by simp
    ultimately have "find_sub crlf2 (l @ crlf @ (concat (map (\<lambda>l. l @ crlf) ls) @ crlf @ r)) =
        map_option (\<lambda>k. length l + 2 + k) (find_sub crlf2 (concat (map (\<lambda>l. l @ crlf) ls) @ crlf @ r))"
      by (intro find_crlf2_skip)
    moreover have "map_option (\<lambda>p. p + 4) (find_sub crlf2 (concat (map (\<lambda>l. l @ crlf) ls) @ crlf @ r)) =
        Some (length (concat (map (\<lambda>l. l @ crlf) ls)) + 2)"
      using Cons.IH [OF False] Cons.prems(2) by simp
    ultimately show ?thesis by (auto simp: map_option_case split: option.splits)
  qed
qed simp

section \<open>The serialized request\<close>

text \<open>What the \<open>http\<close> crate guarantees of a parsed request, and a host without control bytes.\<close>

definition plain_request :: "prepared_request \<Rightarrow> str option \<Rightarrow> bool" where
  "plain_request parts custom_host \<longleftrightarrow>
     rq_method parts \<noteq> [] \<and> list_all graphic (rq_method parts) \<and>
     (\<forall>p. rq_path_and_query parts = Some p \<longrightarrow> p \<noteq> [] \<and> list_all graphic p) \<and>
     (\<forall>(n, v)\<in>set (rq_headers parts). n \<noteq> [] \<and> list_all graphic n \<and> CHR '':'' \<notin> set n) \<and>
     (\<forall>h. custom_host = Some h \<longrightarrow> list_all value_byte h)"

definition path_of :: "prepared_request \<Rightarrow> str" where
  "path_of parts = (case rq_path_and_query parts of Some p \<Rightarrow> p | None \<Rightarrow> ''/'')"

definition plain_field :: "str \<times> str \<Rightarrow> bool" where
  "plain_field f \<longleftrightarrow> fst f \<noteq> [] \<and> list_all graphic (fst f) \<and> CHR '':'' \<notin> set (fst f) \<and> list_all value_byte (snd f)"

lemma graphic_value_byte: "graphic c \<Longrightarrow> value_byte c"
  by (simp add: graphic_def value_byte_def)

lemma value_byte_consts [simp]: "value_byte (CHR '' '')" "value_byte (CHR '':'')" "value_byte (CHR ''/'')" "value_byte (CHR ''.'')"
  "value_byte (CHR ''H'')" "value_byte (CHR ''T'')" "value_byte (CHR ''P'')" "value_byte (CHR ''1'')"
  by (simp_all add: value_byte_def byte_val_def)

lemma value_byte_plain: "value_byte c \<Longrightarrow> ascii c \<and> c \<noteq> CR \<and> c \<noteq> LF"
  by (auto simp: value_byte_def ascii_def byte_val_def)

lemma all_fields_plain:
  assumes "plain_request parts custom_host"
  shows "list_all plain_field (all_fields parts n custom_host)"
proof -
  have "plain_field (k, v)" if "(k, v) \<in> set (kept_fields parts custom_host)" for k v
  proof -
    have "list_all value_byte v"
      using that by (auto simp: kept_fields_def value_to_str_def split: if_splits option.splits)
    then show ?thesis using kept_fields_names [OF that] assms by (force simp: plain_field_def plain_request_def)
  qed
  moreover have "plain_field (''Content-Length'', show_nat n)"
    using show_nat_graphic [of n] by (auto simp: plain_field_def graphic_def byte_val_def list_all_iff graphic_value_byte)
  moreover have "plain_field (''Host'', h)" if "custom_host = Some h" for h
    using that assms by (simp add: plain_field_def plain_request_def graphic_def byte_val_def)
  ultimately show ?thesis by (auto simp: all_fields_def list_all_iff split: option.splits)
qed

text \<open>Its header section, as lines.\<close>

definition head_lines :: "prepared_request \<Rightarrow> nat \<Rightarrow> str option \<Rightarrow> str list" where
  "head_lines parts n custom_host = request_line parts # map (\<lambda>(k, v). k @ '': '' @ v) (all_fields parts n custom_host)"

lemma head_as_lines:
  "serialize_http_request parts n custom_host = concat (map (\<lambda>l. l @ crlf) (head_lines parts n custom_host)) @ crlf"
proof -
  have "concat (map (\<lambda>(n, v). header_line n v) fs) = concat (map (\<lambda>l. l @ crlf) (map (\<lambda>(k, v). k @ '': '' @ v) fs))" for fs
    by (induction fs) (auto simp: header_line_def)
  then show ?thesis by (simp add: serialize_as_lines head_lines_def)
qed

lemma head_lines_plain:
  assumes "plain_request parts custom_host" "l \<in> set (head_lines parts n custom_host)"
  shows "l \<noteq> [] \<and> list_all value_byte l"
proof -
  have "list_all value_byte (request_line parts)" "request_line parts \<noteq> []"
    using assms(1) by (auto simp: request_line_def plain_request_def list_all_iff graphic_value_byte split: option.splits)
  moreover have "list_all value_byte (k @ '': '' @ v)" if "(k, v) \<in> set (all_fields parts n custom_host)" for k v
  proof -
    have "plain_field (k, v)" using that all_fields_plain [OF assms(1), of n] by (auto simp: list_all_iff)
    then show ?thesis by (auto simp: plain_field_def list_all_iff graphic_value_byte)
  qed
  ultimately show ?thesis using assms(2) unfolding head_lines_def by fastforce
qed

lemma request_line_words:
  assumes "plain_request parts custom_host"
  shows "split_whitespace (request_line parts) = [rq_method parts, path_of parts, ''HTTP/1.1'']"
proof -
  have m: "rq_method parts \<noteq> []" "list_all graphic (rq_method parts)" and p: "path_of parts \<noteq> []" "list_all graphic (path_of parts)"
    using assms by (auto simp: plain_request_def path_of_def graphic_def byte_val_def split: option.splits)
  have v: "list_all graphic ''HTTP/1.1''" by (simp add: graphic_def byte_val_def)
  have "request_line parts = rq_method parts @ CHR '' '' # path_of parts @ CHR '' '' # ''HTTP/1.1'' @ []"
    by (simp add: request_line_def path_of_def)
  then show ?thesis using m p
    by (simp only: split_whitespace_def split_ws_graphic [OF m(2)] split_ws_graphic [OF p(2)] split_ws_graphic [OF v] split_ws_space
        split_ws_Nil) (simp add: m p)
qed

lemma capture_fields_read:
  "list_all plain_field fs \<Longrightarrow> capture_fields (map (\<lambda>(k, v). k @ '': '' @ v) fs @ [] # ls) = fs"
proof (induction fs)
  case (Cons f fs)
  obtain k v where f: "f = (k, v)" by (cases f)
  have "find_sub '': '' (k @ '': '' @ v) = Some (length k)"
    by (rule find_sub_first) (use Cons.prems in \<open>simp add: f plain_field_def\<close>)
  then have "split_once '': '' (k @ '': '' @ v) = Some (k, v)" by (simp add: split_once_def)
  then show ?case using Cons by (simp add: f)
qed simp

text \<open>
  C13: the client's inspector shows the request the server sent. Whatever the request and the body (of
  any bytes), as long as the header section the server serializes is within the 64 KiB the copy
  allows for it, the capture the client makes of its bounded copy has the method, the target,
  the fields in their order (those of credentials redacted), the first bytes of the body up to
  the limit, and the truncation flag exactly when the body is longer.
\<close>

theorem capture_shows_request:
  assumes plain: "plain_request parts custom_host" and limit: "0 < limit"
    and head: "head = serialize_http_request parts n custom_host" "length head \<le> HEADER_CAPTURE_ALLOWANCE"
  shows "\<exists>cap. finished_capture uuid now elapsed limit (take (limit + HEADER_CAPTURE_ALLOWANCE) (head @ body))
      (length (head @ body)) response bytes_out = Some cap \<and>
    req_method cap = rq_method parts \<and> req_url cap = path_of parts \<and>
    req_headers cap = sanitize_headers (all_fields parts n custom_host) \<and>
    req_body cap = (if body = [] then None else Some (take limit body)) \<and>
    (req_body_truncated cap \<longleftrightarrow> limit < length body)"
proof -
  define room where "room = limit + HEADER_CAPTURE_ALLOWANCE - length head"
  define data where "data = take (limit + HEADER_CAPTURE_ALLOWANCE) (head @ body)"
  have data: "data = head @ take room body" and room: "limit \<le> room"
    using head(2) by (simp_all add: data_def room_def)
  let ?ls = "head_lines parts n custom_host"
  have ls: "?ls \<noteq> []" "\<And>l. l \<in> set ?ls \<Longrightarrow> l \<noteq> [] \<and> CR \<notin> set l \<and> LF \<notin> set l \<and> list_all ascii l"
    using head_lines_plain [OF plain] value_byte_plain by (auto simp: head_lines_def list_all_iff)
  have hd: "head = concat (map (\<lambda>l. l @ crlf) ?ls) @ crlf" by (simp add: head(1) head_as_lines)
  have off: "find_body_offset data = Some (length head)"
    using find_crlf2_heads [of ?ls "take room body"] ls by (simp add: find_body_offset_def data hd)
  have "ascii CR" "ascii LF" by (simp_all add: ascii_def byte_val_def)
  then have "list_all ascii head" using ls(2) by (auto simp: hd list_all_iff)
  then have "lines (utf8_lossy data) = ?ls @ [] # lines (utf8_lossy (take room body))"
    using lines_heads [of ?ls] ls(2) by (simp add: data utf8_lossy_ascii_append) (simp add: hd)
  then have lines: "lines (utf8_lossy data) = request_line parts # map (\<lambda>(k, v). k @ '': '' @ v) (all_fields parts n custom_host) @
      [] # lines (utf8_lossy (take room body))"
    by (simp add: head_lines_def)
  have bd: "capture_body data limit = (if body = [] then None else Some (take limit body))"
    using room limit by (simp add: capture_body_def off [unfolded data] data min_def)
  obtain cap where c: "parse_request_for_capture uuid now data limit = Some cap" "req_method cap = rq_method parts \<and> req_url cap = path_of parts"
      "req_headers cap = sanitize_headers (all_fields parts n custom_host)" "req_body cap = (if body = [] then None else Some (take limit body))"
  proof -
    have "\<exists>cap. parse_request_for_capture uuid now data limit = Some cap \<and> req_method cap = rq_method parts \<and>
      req_url cap = path_of parts \<and> req_headers cap = sanitize_headers (all_fields parts n custom_host) \<and>
      req_body cap = (if body = [] then None else Some (take limit body))"
    using capture_fields_read [OF all_fields_plain [OF plain]]
      by (simp add: parse_request_for_capture_def lines request_line_words [OF plain] bd)
    with that show thesis by blast
  qed
  have "truncated_by data (length (head @ body)) limit \<longleftrightarrow> limit < length body" by (simp add: truncated_by_def off)
  then show ?thesis unfolding data_def [symmetric] using c by (cases "response = []") (simp_all add: finished_capture_def Let_def)
qed

definition posted :: prepared_request where
  "posted = \<lparr>rq_method = ''POST'', rq_path_and_query = Some ''/a?b=1'', rq_headers = [], rq_body = ''hello''\<rparr>"

lemma capture_shows_request_witness:
  "\<exists>cap. finished_capture ''u'' 1 2 3 (take (3 + HEADER_CAPTURE_ALLOWANCE) (serialize_http_request posted 5 (Some ''localhost'') @ ''hello''))
      (length (serialize_http_request posted 5 (Some ''localhost'') @ ''hello'')) [] 0 = Some cap \<and>
    req_method cap = ''POST'' \<and> req_url cap = ''/a?b=1'' \<and> req_body cap = Some ''hel'' \<and> req_body_truncated cap"
proof -
  have "plain_request posted (Some ''localhost'')"
    by (simp add: plain_request_def posted_def graphic_def value_byte_def byte_val_def)
  moreover have "length (serialize_http_request posted 5 (Some ''localhost'')) \<le> HEADER_CAPTURE_ALLOWANCE"
    by (simp add: serialize_http_request_def posted_def header_line_def HEADER_CAPTURE_ALLOWANCE_def Let_def show_nat.simps)
  ultimately obtain cap where c: "finished_capture ''u'' 1 2 3 (take (3 + HEADER_CAPTURE_ALLOWANCE) (serialize_http_request posted 5 (Some ''localhost'') @ ''hello''))
      (length (serialize_http_request posted 5 (Some ''localhost'') @ ''hello'')) [] 0 = Some cap"
      "req_method cap = rq_method posted" "req_url cap = path_of posted" "req_body cap = (if ''hello'' = [] then None else Some (take 3 ''hello''))"
      "req_body_truncated cap \<longleftrightarrow> 3 < length ''hello''"
    using capture_shows_request [of posted "Some ''localhost''" 3, OF _ _ refl, of 5 "''u''" 1 2 "''hello''" "[]" 0] by force
  show ?thesis by (intro exI [of _ cap] conjI, rule c(1)) (simp_all add: c(2-5), simp_all add: posted_def path_of_def)
qed

end
