(* ===== verification/Relay.thy ===== *)
theory Relay
  imports Proxy_Response Capture_Fidelity
begin

text \<open>
  The whole way of a public request: the handler of \<open>proxy.rs\<close> on the server, the bridge of
  \<open>local_proxy.rs\<close> on the client, the service behind it, and back. The yamux stream between the
  two may cut what is written into it in any way.
\<close>

section \<open>Client and service as the tunnel sees them\<close>

text \<open>
  How the stream cuts either direction, the local service (the stream it answers with to the
  bytes it is given), and the client's bridge with its inspector.
\<close>

record client_link =
  ln_up :: "bytes \<Rightarrow> bytes list"
  ln_down :: "bytes \<Rightarrow> bytes list"
  ln_local :: "bytes \<Rightarrow> stream"
  ln_bridge :: bridge_env
  ln_inspect :: inspect_state
  ln_stats :: tunnel_stats

text \<open>
  The bridge when the server has written \<open>data\<close> and now waits for the response, so the
  direction to the service stays open and silent.
\<close>

definition asking :: "client_link \<Rightarrow> bytes \<Rightarrow> bridge_env" where
  "asking link data = (ln_bridge link)\<lparr>br_upstream := (ln_up link data, Stall)\<rparr>"

definition asked :: "client_link \<Rightarrow> bytes \<Rightarrow> bytes" where
  "asked link data = bo_local_got (bridge_with_capture (asking link data) (ln_inspect link) (ln_stats link))"

definition answering :: "client_link \<Rightarrow> bytes \<Rightarrow> bridge_outcome" where
  "answering link data = bridge_with_capture
     ((asking link data)\<lparr>br_local := ln_local link (asked link data)\<rparr>) (ln_inspect link) (ln_stats link)"

definition tunnelled :: "client_link \<Rightarrow> bytes \<Rightarrow> stream" where
  "tunnelled link data =
     (ln_down link (bo_upstream_got (answering link data)), snd (ln_local link (asked link data)))"

definition link_ok :: "client_link \<Rightarrow> bool" where
  "link_ok link \<longleftrightarrow> (\<forall>x. concat (ln_up link x) = x) \<and> (\<forall>x. concat (ln_down link x) = x) \<and>
     (\<forall>n. wr_write (br_to_local (ln_bridge link)) n = Ok ()) \<and> (\<forall>n. wr_write (br_to_upstream (ln_bridge link)) n = Ok ())"

text \<open>A pump whose writer takes everything hands over everything, however its reader ends.\<close>

lemma forward_loop_all:
  assumes "\<And>n. wr_write w n = Ok ()"
  shows "fst (forward_loop s w out b) = out @ content s"
  using assms
proof (induction s w out b rule: forward_loop.induct)
  case (1 s w out b)
  show ?case
  proof (cases "content s = []")
    case True
    then show ?thesis by (simp add: forward_loop.simps [of s] s_read_end split: stream_end.split)
  next
    case False
    then obtain d s1 where d: "s_read 8192 s = Some (Ok (d, s1))" "d \<noteq> []" "content s = d @ content s1" "snd s1 = snd s"
      using s_read_more [of s 8192] by auto
    have "fst (forward_loop s1 w (out @ d) (capture_append d b)) = (out @ d) @ content s1"
      by (rule "1.IH" [OF d(1) refl refl d(2) "1.prems" "1.prems"])
    then show ?thesis using d "1.prems" by (simp add: forward_loop.simps [of s])
  qed
qed

lemma bridge_got:
  "bo_local_got (bridge_with_capture e ins st) = fst (forward_loop (br_upstream e) (br_to_local e) [] (capture_new (ci_max_body_bytes ins)))"
  "bo_upstream_got (bridge_with_capture e ins st) = fst (forward_loop (br_local e) (br_to_upstream e) [] (capture_new (ci_max_body_bytes ins)))"
  by (simp_all add: bridge_with_capture_def forward_and_capture_def split: prod.split option.split sum.split)

lemma tunnelled_content:
  assumes "link_ok link"
  shows "asked link data = data" "content (tunnelled link data) = content (ln_local link data)"
proof -
  have a: "asked link w = w" for w
    using assms by (simp add: asked_def asking_def bridge_got forward_loop_all link_ok_def content_def)
  then show "asked link data = data" .
  show "content (tunnelled link data) = content (ln_local link data)"
    using assms a by (simp add: tunnelled_def answering_def asking_def bridge_got forward_loop_all link_ok_def content_def)
qed

section \<open>From the visitor to the service and back\<close>

text \<open>The ways a service may frame a body the relay must decode.\<close>

definition framed :: "headers \<Rightarrow> bytes \<Rightarrow> bytes \<Rightarrow> bool" where
  "framed hs body wire \<longleftrightarrow>
     (transfer_codings hs = [] \<and> parse_content_length hs = Ok (Some (length body)) \<and> wire = body) \<or>
     (transfer_codings hs = [''chunked''] \<and> chunk_wire body wire)"

definition well_headed :: "bytes \<Rightarrow> nat \<Rightarrow> headers \<Rightarrow> bool" where
  "well_headed hdr code hs \<longleftrightarrow> find_sub crlf2 hdr = Some (length hdr - 4) \<and> 4 \<le> length hdr \<and>
     length hdr \<le> MAX_RESPONSE_HEADERS \<and> utf8_valid hdr \<and> parse_response_headers hdr = Ok (code, hs)"

lemma read_framed:
  assumes "content s = hdr @ wire @ rest" "well_headed hdr code hs" "framed hs body wire"
    "\<not> response_has_no_body m code" "length body \<le> limit"
  shows "read_http_response s m limit = Some (Ok \<lparr>pr_status_code = code, pr_headers = hs, pr_body = body\<rparr>)"
  using read_fixed_response [of s hdr body rest code hs m limit] read_chunked_response [of s hdr wire rest code hs m body limit] assms
  by (auto simp: framed_def well_headed_def)

lemma authorize_config: "authorize env r hs s = (True, s1) \<Longrightarrow> ss_config s1 = ss_config s"
  by (auto simp: authorize_def Let_def modify_session_def split: option.splits if_splits)

text \<open>What the proxy sends into the tunnel for a request routed to session \<open>t\<close>.\<close>

definition sent_request :: "public_request \<Rightarrow> bytes \<Rightarrow> tunnel_session \<Rightarrow> bytes" where
  "sent_request req b t = serialize_http_request (prepared req b) (length b) (host_header (ts_options t)) @ b"

text \<open>
  C2: the relay as a whole. A visitor whose request is routed to a tunnel, passes its gate and meets
  the limits on bodies, gets the service's own answer: the service is given exactly the
  serialized request and the visitor's body, and whatever status, end-to-end fields and body it
  frames by length or in chunks, the visitor's response has; for every way the stream between
  server and client cuts the bytes, whatever follows the answer and however the service ends,
  with the inspector's copies of any size.
\<close>

theorem visitor_reaches_service:
  assumes route: "routed s req k r" and gate: "authorize env r (pq_headers req) s = (True, s0)"
    and sess: "t = ss_heap (px_waiting env (modify_session r (touch (px_now env)) s0)) r"
    and len: "(case announced_length (pq_headers req) of Some n \<Rightarrow> n | None \<Rightarrow> 0) \<le> max_request_body_bytes (cfg_server (ss_config s))"
    and body: "collect_body_limited (pq_frames req) (max_request_body_bytes (cfg_server (ss_config s))) = Ok b"
    and slots: "\<not> px_slots_closed env" "0 < px_slots env"
    and link: "px_open env = Some (tunnelled link)" "px_write_ok env" "link_ok link"
    and answer: "content (ln_local link (sent_request req b t)) = hdr @ wire @ rest"
    and resp: "well_headed hdr code hs" "framed hs body wire" "\<not> response_has_no_body (pq_method req) code"
      "100 \<le> code" "code \<le> 999" "length body \<le> max_response_body_bytes (cfg_server (ss_config s))"
    and valid: "list_all (\<lambda>(n, v). px_valid env n v) (response_fields (pq_method req)
      \<lparr>pr_status_code = code, pr_headers = hs, pr_body = body\<rparr> (response_header (ts_options t)))"
  shows "asked link (sent_request req b t) = sent_request req b t \<and>
    (\<exists>out s2. proxy_http_request env req s = (Some out, s2) \<and> resp_code out = code \<and> resp_content out = body \<and>
       set (end_to_end hs) \<subseteq> set (resp_fields out))"
proof -
  let ?p = "\<lparr>pr_status_code = code, pr_headers = hs, pr_body = body\<rparr>"
  let ?s1 = "modify_session r (touch (px_now env)) s0"
  have cfg: "ss_config ?s1 = ss_config s" using authorize_config [OF gate] by (simp add: modify_session_def)
  have "content (tunnelled link (sent_request req b t)) = hdr @ wire @ rest"
    by (simp add: tunnelled_content [OF link(3)] answer)
  note rd = read_framed [OF this resp(1-3,6)]
  have host: "(case x of None \<Rightarrow> None | Some h \<Rightarrow> Some h) = x" for x :: "str option" by (cases x) simp_all
  have ex: "\<exists>s2. proxy_request_to_tunnel env (prepared req b) k r None ?s1 =
      (Some (Ok \<lparr>resp_code = code, resp_fields = response_fields (pq_method req) ?p (response_header (ts_options t)), resp_content = body\<rparr>), s2)"
    using rd valid resp(4,5) link(1,2) sess
    by (simp add: proxy_request_to_tunnel_def Let_def sent_request_def prepared_def cfg host)
  then have "\<exists>s2. forward_public_request env req k r ?s1 =
      (Some \<lparr>resp_code = code, resp_fields = response_fields (pq_method req) ?p (response_header (ts_options t)), resp_content = body\<rparr>, s2)"
    using len body slots by (auto simp: forward_public_request_def Let_def cfg prepared_def split: option.splits)
  then show ?thesis
    using tunnelled_content(1) [OF link(3)] by (auto simp: routed_request [OF route] gate response_fields_split)
qed

section \<open>A visitor of a protected tunnel\<close>

text \<open>A link that cuts the answer into single bytes, and a service that says hello.\<close>

definition sample_link :: client_link where
  "sample_link = \<lparr>ln_up = (\<lambda>x. [x]), ln_down = map (\<lambda>c. [c]), ln_local = (\<lambda>_. ([sample_hdr, ''hello''], Stall)),
     ln_bridge = sample_bridge, ln_inspect = with_max_body_bytes ''csrf'' 3000 16,
     ln_stats = \<lparr>st_connections = 1, st_bytes_in = 0, st_bytes_out = 0\<rparr>\<rparr>"

definition linked_env :: proxy_env where
  "linked_env = sample_proxy_env\<lparr>px_open := Some (tunnelled sample_link)\<rparr>"

lemma sample_gate:
  "\<exists>s0. authorize linked_env 0 (pq_headers (demo_request [(''authorization'', ''Basic u:h'')])) protected_state = (True, s0)"
proof -
  have u: "basic_auth_username (ss_heap protected_state 0) = Some ''u''" "basic_auth_hash (ss_heap protected_state 0) = Some ''h''"
    by (simp_all add: protected_facts(3) protected_session_def)
  have h: "get_header (pq_headers (demo_request [(''authorization'', ''Basic u:h'')])) ''authorization'' = Some ''Basic u:h''"
    by (simp add: demo_request_def get_header_def)
  have "value_to_str ''Basic u:h'' = Some ''Basic u:h''" by (simp add: value_to_str_def value_byte_def byte_val_def)
  moreover have "utf8_valid ''u:h''" by (rule utf8_valid_ascii) (simp add: ascii_def byte_val_def)
  then have "check_header (px_b64 linked_env) (px_bcrypt linked_env) ''Basic u:h'' ''u'' ''h''"
    by (simp add: check_header_def parse_basic_auth_header_def strip_prefix.simps split_once_def find_sub.simps
        verify_basic_auth_password_def starts_with_def linked_env_def sample_proxy_env_def)
  moreover have "px_permit linked_env" by (simp add: linked_env_def sample_proxy_env_def)
  ultimately show ?thesis by (simp add: authorize_def u h Let_def)
qed

lemma visitor_reaches_service_witness:
  "\<exists>out s2. proxy_http_request linked_env (demo_request [(''authorization'', ''Basic u:h'')]) protected_state = (Some out, s2) \<and>
     resp_code out = 200 \<and> resp_content out = ''hello''"
proof -
  let ?req = "demo_request [(''authorization'', ''Basic u:h'')]"
  obtain s0 where g: "authorize linked_env 0 (pq_headers ?req) protected_state = (True, s0)" using sample_gate by blast
  have limits: "max_request_body_bytes (cfg_server (ss_config protected_state)) = 16777216"
    "max_response_body_bytes (cfg_server (ss_config protected_state)) = 16777216"
    by (simp_all add: protected_facts tiny_config_def default_config_def default_values)
  have len: "(case announced_length (pq_headers ?req) of Some n \<Rightarrow> n | None \<Rightarrow> 0) \<le>
      max_request_body_bytes (cfg_server (ss_config protected_state))"
    by (simp add: announced_length_def get_header_def demo_request_def)
  have body: "collect_body_limited (pq_frames ?req) (max_request_body_bytes (cfg_server (ss_config protected_state))) = Ok []"
    by (simp add: collect_body_limited_def demo_request_def)
  have env: "\<not> px_slots_closed linked_env" "0 < px_slots linked_env" "px_open linked_env = Some (tunnelled sample_link)"
    "px_write_ok linked_env" "\<And>n v. px_valid linked_env n v"
    by (simp_all add: linked_env_def sample_proxy_env_def)
  have chars: "concat (map (\<lambda>c. [c]) y) = y" for y :: str by (induction y) auto
  have link: "link_ok sample_link" by (simp add: link_ok_def sample_link_def sample_bridge_def chars)
  have answer: "content (ln_local sample_link q) = sample_hdr @ ''hello'' @ []" for q
    by (simp add: sample_link_def content_def)
  have headed: "well_headed sample_hdr 200 [(''Content-Length'', ''5'')]"
    using sample_find sample_small utf8_valid_ascii [OF sample_ascii] sample_parse by (simp add: well_headed_def)
  have framed: "framed [(''Content-Length'', ''5'')] ''hello'' ''hello''"
    using sample_transfer sample_length by (simp add: framed_def)
  have get: "\<not> response_has_no_body (pq_method ?req) 200" by (simp add: response_has_no_body_def demo_request_def)
  show ?thesis
    using visitor_reaches_service [OF demo_routed g refl len body env(1-4) link answer headed framed get]
    by (auto simp: limits list_all_iff env(5))
qed

end
