(* ===== verification/Body_Slots.thy ===== *)
theory Body_Slots
  imports Relay
begin

text \<open>
  The four slots for public requests (\<open>request_body_slots\<close> of \<open>tunnel_manager.rs\<close>, and \<open>PreparedRequest\<close>
  with its guard in \<open>proxy.rs\<close>): a request takes a slot before its body is read and gives it back
  when the value that owns the permit is dropped, which is after the exchange, on every error
  path, and when \<open>hyper\<close> drops the handler because the visitor has gone. The requests of all
  tunnels share the slots, so this is a machine of its own, over the events of all of them.
\<close>

section \<open>The slots\<close>

text \<open>What a request with a slot holds: the part of its body read so far, or the guarded body.\<close>

datatype slot_phase = Collecting bytes | Guarded bytes

record body_slots =
  free_slots :: nat
  in_flight :: "(nat, slot_phase) dmap"
  buffered_gauge :: int
  turned_away :: "nat list"

definition request_body_slots :: nat where
  "request_body_slots = 4"

definition slots_new :: body_slots where
  "slots_new = \<lparr>free_slots = request_body_slots, in_flight = dm_empty, buffered_gauge = 0, turned_away = []\<rparr>"

text \<open>\<open>i64::try_from(..).unwrap_or(i64::MAX)\<close>.\<close>

definition gauge_bytes :: "bytes \<Rightarrow> int" where
  "gauge_bytes b = min (int (length b)) (2 ^ 63 - 1)"

text \<open>\<open>try_acquire_owned\<close>: a request that gets no permit is answered with 503.\<close>

definition try_acquire :: "nat \<Rightarrow> body_slots \<Rightarrow> body_slots" where
  "try_acquire i s =
     (if free_slots s = 0 then s\<lparr>turned_away := turned_away s @ [i]\<rparr>
      else s\<lparr>free_slots := free_slots s - 1, in_flight := dm_insert i (Collecting []) (in_flight s)\<rparr>)"

text \<open>Dropping what a request owns: its permit, and the guard of its body if it has one.\<close>

definition drop_request :: "nat \<Rightarrow> body_slots \<Rightarrow> body_slots" where
  "drop_request i s = (case dm_get (in_flight s) i of
     None \<Rightarrow> s
   | Some (Collecting acc) \<Rightarrow> s\<lparr>free_slots := Suc (free_slots s), in_flight := dm_remove i (in_flight s)\<rparr>
   | Some (Guarded b) \<Rightarrow> s\<lparr>free_slots := Suc (free_slots s), in_flight := dm_remove i (in_flight s),
        buffered_gauge := buffered_gauge s - gauge_bytes b\<rparr>)"

datatype slot_event = Asks nat | BodyFrame nat "(str, bytes) result" | BodyEnds nat | Dropped nat

text \<open>
  A frame that fails or exceeds the limit ends the request with 400 or 413; the end of the body
  makes it a guarded one, counted in the gauge.
\<close>

fun slot_step :: "nat \<Rightarrow> slot_event \<Rightarrow> body_slots \<Rightarrow> body_slots" where
  "slot_step limit (Asks i) s = (if dm_get (in_flight s) i = None then try_acquire i s else s)"
| "slot_step limit (BodyFrame i (Inl e)) s = (case dm_get (in_flight s) i of
     Some (Collecting acc) \<Rightarrow> drop_request i s | _ \<Rightarrow> s)"
| "slot_step limit (BodyFrame i (Inr d)) s = (case dm_get (in_flight s) i of
     Some (Collecting acc) \<Rightarrow>
       (if length d > limit - length acc then drop_request i s
        else s\<lparr>in_flight := dm_insert i (Collecting (acc @ d)) (in_flight s)\<rparr>)
   | _ \<Rightarrow> s)"
| "slot_step limit (BodyEnds i) s = (case dm_get (in_flight s) i of
     Some (Collecting acc) \<Rightarrow> s\<lparr>in_flight := dm_insert i (Guarded acc) (in_flight s),
        buffered_gauge := buffered_gauge s + gauge_bytes acc\<rparr>
   | _ \<Rightarrow> s)"
| "slot_step limit (Dropped i) s = drop_request i s"

definition slots_run :: "nat \<Rightarrow> slot_event list \<Rightarrow> body_slots \<Rightarrow> body_slots" where
  "slots_run limit evs s = fold (slot_step limit) evs s"

section \<open>Sums over the requests in flight\<close>

definition total_of :: "('v \<Rightarrow> int) \<Rightarrow> ('k, 'v) dmap \<Rightarrow> int" where
  "total_of f m = sum_list (map (f \<circ> snd) m)"

lemma total_insert:
  "dm_wf m \<Longrightarrow> total_of f (dm_insert k v m) = total_of f m + f v - (case dm_get m k of None \<Rightarrow> 0 | Some u \<Rightarrow> f u)"
  by (induction m) (auto simp: total_of_def dm_insert_def dm_get_def dm_wf_def)

lemma total_remove:
  "dm_wf m \<Longrightarrow> total_of f (dm_remove k m) = total_of f m - (case dm_get m k of None \<Rightarrow> 0 | Some u \<Rightarrow> f u)"
proof (induction m)
  case (Cons p m)
  have wf: "dm_wf m" "fst p \<notin> fst ` set m" using Cons.prems by (simp_all add: dm_wf_def)
  have "dm_remove (fst p) m = m" using wf(2) by (simp add: dm_remove_def delete_id)
  then show ?case using Cons.IH [OF wf(1)] by (cases p) (auto simp: total_of_def dm_remove_def dm_get_def)
qed (simp add: total_of_def dm_remove_def dm_get_def)

lemma total_bound: "\<forall>(k, v)\<in>set m. f v \<le> b \<Longrightarrow> total_of f m \<le> int (dm_len m) * b"
  by (induction m) (auto simp: total_of_def dm_len_def algebra_simps)

section \<open>Memory is bounded\<close>

fun held_bytes :: "slot_phase \<Rightarrow> int" where
  "held_bytes (Collecting acc) = int (length acc)"
| "held_bytes (Guarded b) = int (length b)"

fun gauged :: "slot_phase \<Rightarrow> int" where
  "gauged (Collecting acc) = 0"
| "gauged (Guarded b) = gauge_bytes b"

definition phases_within :: "nat \<Rightarrow> body_slots \<Rightarrow> bool" where
  "phases_within limit s \<longleftrightarrow> (\<forall>i v. dm_get (in_flight s) i = Some v \<longrightarrow> held_bytes v \<le> int limit)"

definition slots_inv :: "nat \<Rightarrow> body_slots \<Rightarrow> bool" where
  "slots_inv limit s \<longleftrightarrow> dm_wf (in_flight s) \<and> free_slots s + dm_len (in_flight s) = request_body_slots \<and>
     phases_within limit s \<and> buffered_gauge s = total_of gauged (in_flight s)"

lemma slots_inv_new: "slots_inv limit slots_new"
  by (simp add: slots_inv_def slots_new_def phases_within_def total_of_def dm_empty_def dm_wf_def dm_len_def dm_get_def)

lemma drop_inv: "slots_inv limit s \<Longrightarrow> slots_inv limit (drop_request i s)"
  using dm.len_remove_present [of "in_flight s" i] total_remove [of "in_flight s" gauged i]
  by (auto simp: slots_inv_def drop_request_def phases_within_def dm_simps dm_wf_remove split: option.splits slot_phase.splits)

lemma replace_inv:
  assumes "slots_inv limit s" "dm_get (in_flight s) i = Some u" "held_bytes v \<le> int limit"
  shows "slots_inv limit (s\<lparr>in_flight := dm_insert i v (in_flight s), buffered_gauge := buffered_gauge s + gauged v - gauged u\<rparr>)"
  using assms total_insert [of "in_flight s" gauged i v]
  by (auto simp: slots_inv_def phases_within_def dm_simps dm_wf_insert dm_len_insert)

lemma acquire_inv: "slots_inv limit s \<Longrightarrow> dm_get (in_flight s) i = None \<Longrightarrow> slots_inv limit (try_acquire i s)"
  using total_insert [of "in_flight s" gauged i "Collecting []"]
  by (auto simp: slots_inv_def try_acquire_def phases_within_def dm_simps dm_wf_insert dm_len_insert)

lemma step_slots_inv: "slots_inv limit s \<Longrightarrow> slots_inv limit (slot_step limit e s)"
proof (induction limit e s rule: slot_step.induct)
  case (3 limit i d s)
  show ?case
  proof (cases "\<exists>acc. dm_get (in_flight s) i = Some (Collecting acc) \<and> \<not> length d > limit - length acc")
    case True
    then obtain acc where a: "dm_get (in_flight s) i = Some (Collecting acc)" "length d \<le> limit - length acc" by auto
    have "held_bytes (Collecting acc) \<le> int limit" using 3 a(1) unfolding slots_inv_def phases_within_def by blast
    then show ?thesis using replace_inv [OF 3 a(1), of "Collecting (acc @ d)"] a by simp
  qed (use 3 in \<open>auto simp: drop_inv split: option.splits slot_phase.splits\<close>)
next
  case (4 limit i s)
  show ?case
  proof (cases "\<exists>acc. dm_get (in_flight s) i = Some (Collecting acc)")
    case True
    then obtain acc where a: "dm_get (in_flight s) i = Some (Collecting acc)" by blast
    have "held_bytes (Collecting acc) \<le> int limit" using 4 a unfolding slots_inv_def phases_within_def by blast
    then show ?thesis using replace_inv [OF 4 a, of "Guarded acc"] a by simp
  qed (use 4 in \<open>auto split: option.splits slot_phase.splits\<close>)
qed (auto simp: acquire_inv drop_inv split: option.splits slot_phase.splits)

interpretation slot_machine: event_machine "slot_step limit" "slots_inv limit" for limit
  by unfold_locales (rule step_slots_inv)

lemma run_slots_inv: "slots_inv limit s \<Longrightarrow> slots_inv limit (slots_run limit evs s)"
  unfolding slots_run_def by (rule slot_machine.run_keeps)

text \<open>
  C22: the memory public bodies take is bounded, whatever visitors do. In every run of any number of
  requests, with frames, errors, ends and disconnections in any order: the slots in use and the free
  ones are four, no body holds more than the limit, so all bodies together never hold more than
  four times the configured limit; and the gauge of buffered bytes is exactly the sum of the
  guarded bodies, so no slot and no byte is leaked when a request ends, in whatever way.
\<close>

theorem buffered_bodies_bounded:
  assumes "s = slots_run limit evs slots_new"
  shows "free_slots s + dm_len (in_flight s) = 4 \<and> total_of held_bytes (in_flight s) \<le> 4 * int limit \<and>
    buffered_gauge s = total_of gauged (in_flight s) \<and> 0 \<le> buffered_gauge s \<and> buffered_gauge s \<le> 4 * int limit \<and>
    (dm_len (in_flight s) = 0 \<longrightarrow> free_slots s = 4 \<and> buffered_gauge s = 0)"
proof -
  have i: "slots_inv limit s" unfolding assms by (rule run_slots_inv [OF slots_inv_new])
  then have four: "free_slots s + dm_len (in_flight s) = 4" by (simp add: slots_inv_def request_body_slots_def)
  have each: "\<forall>(k, v)\<in>set (in_flight s). held_bytes v \<le> int limit"
    using i by (auto simp: slots_inv_def phases_within_def dm_get_in)
  have gauge: "0 \<le> gauged v \<and> gauged v \<le> held_bytes v" for v by (cases v) (simp_all add: gauge_bytes_def)
  have n: "int (dm_len (in_flight s)) * int limit \<le> 4 * int limit" using four by (intro mult_right_mono) simp_all
  have "total_of held_bytes (in_flight s) \<le> 4 * int limit" using total_bound [OF each] n by linarith
  moreover have "\<forall>(k, v)\<in>set (in_flight s). gauged v \<le> int limit" using each gauge by (fastforce intro: order_trans)
  then have "total_of gauged (in_flight s) \<le> 4 * int limit" using total_bound n by (metis order_trans)
  moreover have "0 \<le> total_of gauged (in_flight s)" using gauge by (auto simp: total_of_def intro!: sum_list_nonneg)
  moreover have "dm_len (in_flight s) = 0 \<longrightarrow> total_of gauged (in_flight s) = 0" by (simp add: dm_len_def total_of_def)
  moreover have "buffered_gauge s = total_of gauged (in_flight s)" using i by (simp add: slots_inv_def)
  ultimately show ?thesis using four by simp
qed

text \<open>A visitor who sends a body, one whose body is too large and one who goes away.\<close>

theorem buffered_bodies_bounded_witness:
  "free_slots (slots_run 3 [Asks 1, BodyFrame 1 (Ok ''ab''), BodyEnds 1, Asks 2, BodyFrame 2 (Ok ''long''), Asks 3, Dropped 3] slots_new) = 3 \<and>
   buffered_gauge (slots_run 3 [Asks 1, BodyFrame 1 (Ok ''ab''), BodyEnds 1, Asks 2, BodyFrame 2 (Ok ''long''), Asks 3, Dropped 3] slots_new) \<le> 12"
proof -
  let ?evs = "[Asks 1, BodyFrame 1 (Ok ''ab''), BodyEnds 1, Asks 2, BodyFrame 2 (Ok ''long''), Asks 3, Dropped 3]"
  have "free_slots (slots_run 3 ?evs slots_new) = 3"
    by (simp add: slots_run_def slots_new_def request_body_slots_def try_acquire_def drop_request_def dm_simps)
  with buffered_bodies_bounded [OF refl, of 3 ?evs] show ?thesis by simp
qed

section \<open>Four exchanges at a time\<close>









end
