(* ===== verification/Tcp_Tunnel.thy ===== *)
theory Tcp_Tunnel
  imports Proxy_Flow
begin

text \<open>
  The public side of a TCP tunnel (\<open>proxy.rs\<close>, \<open>serve_tcp_tunnel_on_listener\<close>): the accept loop, and
  one task per accepted visitor, which counts itself in the session, asks the client for a stream
  and copies between the two until either side, the deadline or the tunnel's cancellation ends it.
  The tasks, the loop, the task that accepts the client's data streams, the other requests of
  the connection and the other operations on the server's state interleave in any order: a run is
  a list of events, each one step of one of them. The copying itself is
  \<open>tokio::io::copy_bidirectional\<close>; here it begins and ends.
\<close>

section \<open>The tasks\<close>

text \<open>
  How far the task of a visitor is: accepted but not yet polled; registered under an id and sending
  \<open>StreamOpen\<close>; waiting for the stream (with the stream, if it is already in the \<open>oneshot\<close>); copying
  between the visitor and a data stream of the client; over.
\<close>

datatype visitor_phase =
    VAccepted
  | VAsking correlation_id "nat option"
  | VWaiting correlation_id "nat option"
  | VCopying correlation_id nat
  | VFinished

text \<open>The sender in the registry of the connection belongs to a visitor or to another request.\<close>

datatype requester = Visitor nat | Elsewhere nat

record tcp_tunnel =
  tl_serving :: bool
  tl_result :: "(str, unit) result option"
  tl_visitors :: "visitor_phase list"
  tl_registry :: "requester stream_registry"

definition tcp_listening :: "requester stream_registry \<Rightarrow> tcp_tunnel" where
  "tcp_listening g = \<lparr>tl_serving = True, tl_result = None, tl_visitors = [], tl_registry = g\<rparr>"

text \<open>\<open>serve_tcp_tunnel\<close>: binds the port itself; without the port there is no loop to run.\<close>

definition serve_tcp_tunnel :: "(str \<Rightarrow> (str, unit) result) \<Rightarrow> port \<Rightarrow> requester stream_registry \<Rightarrow> (str, tcp_tunnel) result" where
  "serve_tcp_tunnel bind p g =
     (case bind (''0.0.0.0:'' @ show_nat p) of Inl e \<Rightarrow> Err e | Inr _ \<Rightarrow> Ok (tcp_listening g))"

definition visitor_at :: "nat \<Rightarrow> tcp_tunnel \<Rightarrow> visitor_phase" where
  "visitor_at i l = (if i < length (tl_visitors l) then tl_visitors l ! i else VFinished)"

definition set_visitor :: "nat \<Rightarrow> visitor_phase \<Rightarrow> tcp_tunnel \<Rightarrow> tcp_tunnel" where
  "set_visitor i v l = l\<lparr>tl_visitors := (tl_visitors l)[i := v]\<rparr>"

definition drop_pending :: "correlation_id \<Rightarrow> tcp_tunnel \<Rightarrow> tcp_tunnel" where
  "drop_pending cid l = l\<lparr>tl_registry := (tl_registry l)\<lparr>pending_streams := dm_remove cid (pending_streams (tl_registry l))\<rparr>\<rparr>"

fun counted :: "visitor_phase \<Rightarrow> bool" where
  "counted VAccepted = False"
| "counted VFinished = False"
| "counted _ = True"

definition open_visitors :: "tcp_tunnel \<Rightarrow> nat" where
  "open_visitors l = length (filter counted (tl_visitors l))"

text \<open>Whether the receiver of a pending request is still awaited, and the \<open>oneshot\<close> after a send.\<close>

fun awaits_stream :: "tcp_tunnel \<Rightarrow> requester \<Rightarrow> bool" where
  "awaits_stream l (Elsewhere n) = True"
| "awaits_stream l (Visitor i) =
     (case visitor_at i l of VAsking cid None \<Rightarrow> True | VWaiting cid None \<Rightarrow> True | _ \<Rightarrow> False)"

fun put_stream :: "nat \<Rightarrow> visitor_phase \<Rightarrow> visitor_phase" where
  "put_stream n (VAsking cid None) = VAsking cid (Some n)"
| "put_stream n (VWaiting cid None) = VWaiting cid (Some n)"
| "put_stream n v = v"

section \<open>Steps\<close>

text \<open>
  The accept loop: a visitor, a failed \<open>accept\<close>, or one of the three cancellations. A task by its
  number: its first poll, whether or not the \<open>select!\<close> sees the cancellation first; the send; the
  stream out of the \<open>oneshot\<close>; the deadline; the end of the copying; the cancellation. Then a
  data stream of the client by its number, with the bytes read within five seconds; another
  request of the same connection, registered or given up; and another operation on the shared
  state. Instants are the last argument.
\<close>

datatype tcp_event =
    TcpAccepted nat | TcpAcceptFailed str | TcpStateCancelled | TcpCancelled | TcpIdleCancelled
  | TcpStarts nat nat | TcpStartsCancelled nat nat | TcpSends nat nat | TcpGetsStream nat
  | TcpTimedOut nat nat | TcpCopyEnds nat nat | TcpVisitorCancelled nat nat
  | TcpData "bytes timed" nat | TcpElsewhere nat | TcpElsewhereGone correlation_id
  | TcpServer dns_api server_op

text \<open>Only the tasks of a tunnel move its session's count of streams.\<close>

fun spares_count :: "session_ref \<Rightarrow> server_op \<Rightarrow> bool" where
  "spares_count r (OpStreamStarted now x) = (x \<noteq> r)"
| "spares_count r (OpStreamFinished now x) = (x \<noteq> r)"
| "spares_count r _ = True"

definition end_visitor :: "session_ref \<Rightarrow> nat \<Rightarrow> nat \<Rightarrow> tcp_tunnel \<times> server_state \<Rightarrow> tcp_tunnel \<times> server_state" where
  "end_visitor r i now ls = (set_visitor i VFinished (fst ls), modify_session r (stream_finished now) (snd ls))"

definition end_serving :: "(str, unit) result \<Rightarrow> tcp_tunnel \<Rightarrow> tcp_tunnel" where
  "end_serving res l = l\<lparr>tl_serving := False, tl_result := Some res\<rparr>"

text \<open>
  The send of \<open>StreamOpen\<close>: an error when the receiver of the queue is gone, else it waits for
  room.
\<close>

definition send_stream_open ::
  "session_ref \<Rightarrow> nat \<Rightarrow> correlation_id \<Rightarrow> nat option \<Rightarrow> nat \<Rightarrow> tcp_tunnel \<times> server_state \<Rightarrow> tcp_tunnel \<times> server_state" where
  "send_stream_open r i cid got now ls =
     (let s = snd ls; c = control_tx (ss_heap s r) in
      if \<not> chan_alive (ss_chan s c) then end_visitor r i now (drop_pending cid (fst ls), s)
      else if length (chan_queue (ss_chan s c)) < CONTROL_CAPACITY
      then (set_visitor i (VWaiting cid got) (fst ls), try_send c (SStreamOpen cid (ts_id (ss_heap s r))) s)
      else ls)"

fun tcp_tunnel_step :: "session_ref \<Rightarrow> tcp_event \<Rightarrow> tcp_tunnel \<times> server_state \<Rightarrow> tcp_tunnel \<times> server_state" where
  "tcp_tunnel_step r (TcpAccepted now) (l, s) =
     (if tl_serving l then (l\<lparr>tl_visitors := tl_visitors l @ [VAccepted]\<rparr>, modify_session r (touch now) s) else (l, s))"
| "tcp_tunnel_step r (TcpAcceptFailed e) (l, s) = (if tl_serving l then (end_serving (Err e) l, s) else (l, s))"
| "tcp_tunnel_step r TcpStateCancelled (l, s) =
     (if tl_serving l \<and> ss_cancelled s then (end_serving (Ok ()) l, s) else (l, s))"
| "tcp_tunnel_step r TcpCancelled (l, s) =
     (if tl_serving l \<and> ts_cancel (ss_heap s r) then (end_serving (Ok ()) l, s) else (l, s))"
| "tcp_tunnel_step r TcpIdleCancelled (l, s) =
     (if tl_serving l \<and> idle_cancel (ss_heap s r) then (end_serving (Ok ()) l, s) else (l, s))"
| "tcp_tunnel_step r (TcpStarts i now) (l, s) =
     (case visitor_at i l of
        VAccepted \<Rightarrow>
          (case begin_stream (Visitor i) (tl_registry l) of (cid, g) \<Rightarrow>
             (set_visitor i (VAsking cid None) (l\<lparr>tl_registry := g\<rparr>), modify_session r (stream_started now) s))
      | _ \<Rightarrow> (l, s))"
| "tcp_tunnel_step r (TcpStartsCancelled i now) (l, s) =
     (case visitor_at i l of
        VAccepted \<Rightarrow>
          (if ts_cancel (ss_heap s r) then end_visitor r i now (l, modify_session r (stream_started now) s) else (l, s))
      | _ \<Rightarrow> (l, s))"
| "tcp_tunnel_step r (TcpSends i now) (l, s) =
     (case visitor_at i l of VAsking cid got \<Rightarrow> send_stream_open r i cid got now (l, s) | _ \<Rightarrow> (l, s))"
| "tcp_tunnel_step r (TcpGetsStream i) (l, s) =
     (case visitor_at i l of VWaiting cid (Some n) \<Rightarrow> (set_visitor i (VCopying cid n) l, s) | _ \<Rightarrow> (l, s))"
| "tcp_tunnel_step r (TcpTimedOut i now) (l, s) =
     (case visitor_at i l of VWaiting cid None \<Rightarrow> end_visitor r i now (drop_pending cid l, s) | _ \<Rightarrow> (l, s))"
| "tcp_tunnel_step r (TcpCopyEnds i now) (l, s) =
     (case visitor_at i l of VCopying cid n \<Rightarrow> end_visitor r i now (l, s) | _ \<Rightarrow> (l, s))"
| "tcp_tunnel_step r (TcpVisitorCancelled i now) (l, s) =
     (if counted (visitor_at i l) \<and> ts_cancel (ss_heap s r) then end_visitor r i now (l, s) else (l, s))"
| "tcp_tunnel_step r (TcpData id_bytes n) (l, s) =
     (case handle_proxy_data_stream (awaits_stream l) id_bytes (tl_registry l) of
        (Some (Visitor i), g) \<Rightarrow> (set_visitor i (put_stream n (visitor_at i l)) (l\<lparr>tl_registry := g\<rparr>), s)
      | (_, g) \<Rightarrow> (l\<lparr>tl_registry := g\<rparr>, s))"
| "tcp_tunnel_step r (TcpElsewhere n) (l, s) = (l\<lparr>tl_registry := snd (begin_stream (Elsewhere n) (tl_registry l))\<rparr>, s)"
| "tcp_tunnel_step r (TcpElsewhereGone cid) (l, s) =
     (case dm_get (pending_streams (tl_registry l)) cid of Some (Elsewhere n) \<Rightarrow> (drop_pending cid l, s) | _ \<Rightarrow> (l, s))"
| "tcp_tunnel_step r (TcpServer dns x) (l, s) = (if spares_count r x then (l, apply_op dns x s) else (l, s))"

definition tcp_tunnel_run :: "session_ref \<Rightarrow> tcp_event list \<Rightarrow> tcp_tunnel \<times> server_state \<Rightarrow> tcp_tunnel \<times> server_state" where
  "tcp_tunnel_run r evs ls = fold (tcp_tunnel_step r) evs ls"

end
