(* ===== verification/Tcp_Properties.thy ===== *)
theory Tcp_Properties
  imports Tcp_Tunnel
begin

text \<open>
  What holds in every interleaving of a TCP tunnel's tasks with the rest of the server: the
  session counts exactly the visitors being served, so the reaper spares a tunnel in use and
  only that; a visitor is joined to a stream the client opened for it, and to no other visitor's;
  and a loop that has ended serves nobody new.
\<close>

section \<open>Counting the visitors\<close>

lemma filter_update_count:
  "i < length xs \<Longrightarrow> length (filter p (xs[i := x])) + (if p (xs ! i) then 1 else 0) =
     length (filter p xs) + (if p x then 1 else 0)"
proof (induction xs arbitrary: i)
  case (Cons a xs)
  then show ?case by (cases i) auto
qed simp

lemma open_set_visitor:
  "open_visitors (set_visitor i v l) + (if counted (visitor_at i l) then 1 else 0) =
     open_visitors l + (if i < length (tl_visitors l) \<and> counted v then 1 else 0)"
  using filter_update_count [of i "tl_visitors l" counted v]
  by (cases "i < length (tl_visitors l)") (simp_all add: open_visitors_def set_visitor_def visitor_at_def list_update_beyond)

lemma counted_in_range: "counted (visitor_at i l) \<Longrightarrow> i < length (tl_visitors l)"
  by (auto simp: visitor_at_def split: if_splits)

lemma accepted_in_range: "visitor_at i l = VAccepted \<Longrightarrow> i < length (tl_visitors l)"
  by (auto simp: visitor_at_def split: if_splits)

text \<open>The three ways a step moves the number of visitors served.\<close>

lemma open_starts:
  "visitor_at i l = VAccepted \<Longrightarrow> counted v \<Longrightarrow> open_visitors (set_visitor i v l) = Suc (open_visitors l)"
  using open_set_visitor [of i v l] accepted_in_range [of i l] by simp

lemma open_goes_on:
  "counted (visitor_at i l) \<Longrightarrow> counted v \<Longrightarrow> open_visitors (set_visitor i v l) = open_visitors l"
  using open_set_visitor [of i v l] counted_in_range [of i l] by simp

lemma open_ends:
  "counted (visitor_at i l) \<Longrightarrow> Suc (open_visitors (set_visitor i VFinished l)) = open_visitors l"
  using open_set_visitor [of i VFinished l] by simp

lemma open_never_started:
  "visitor_at i l = VAccepted \<Longrightarrow> open_visitors (set_visitor i VFinished l) = open_visitors l"
  using open_set_visitor [of i VFinished l] by simp

lemma counted_put_stream [simp]: "counted (put_stream n v) = counted v"
  by (cases "(n, v)" rule: put_stream.cases) simp_all

lemma open_put_stream: "open_visitors (set_visitor i (put_stream n (visitor_at i l)) l) = open_visitors l"
  using open_set_visitor [of i "put_stream n (visitor_at i l)" l] counted_in_range [of i l]
  by (cases "counted (visitor_at i l)") simp_all

lemma open_registry [simp]:
  "open_visitors (l\<lparr>tl_registry := g\<rparr>) = open_visitors l" "visitor_at i (l\<lparr>tl_registry := g\<rparr>) = visitor_at i l"
  "open_visitors (drop_pending cid l) = open_visitors l" "visitor_at i (drop_pending cid l) = visitor_at i l"
  "open_visitors (end_serving res l) = open_visitors l" "visitor_at i (end_serving res l) = visitor_at i l"
  by (simp_all add: open_visitors_def visitor_at_def drop_pending_def end_serving_def)

lemma set_visitor_registry [simp]: "set_visitor i v (l\<lparr>tl_registry := g\<rparr>) = (set_visitor i v l)\<lparr>tl_registry := g\<rparr>"
  by (simp add: set_visitor_def)

text \<open>No other operation moves the count.\<close>

lemma apply_op_count:
  "spares_count r x \<Longrightarrow> r < ss_next s \<Longrightarrow> active_streams (ss_heap (apply_op dns x s) r) = active_streams (ss_heap s r)"
  by (cases x) (auto simp: op_defs split: option.splits sum.splits prod.splits)

definition count_ok :: "session_ref \<Rightarrow> tcp_tunnel \<times> server_state \<Rightarrow> bool" where
  "count_ok r ls \<longleftrightarrow> r < ss_next (snd ls) \<and>
     active_streams (ss_heap (snd ls) r) = of_nat (open_visitors (fst ls)) \<and> server_inv (snd ls)"

lemma session_moves [simp]:
  "active_streams (touch now t) = active_streams t"
  "active_streams (stream_started now t) = active_streams t + 1"
  "active_streams (stream_finished now t) = active_streams t - 1"
  by (simp_all add: touch_def stream_started_def stream_finished_def)

lemma modify_session_frame [simp]:
  "ss_next (modify_session r f s) = ss_next s" "ss_heap (modify_session r f s) r = f (ss_heap s r)"
  "ss_chan (modify_session r f s) = ss_chan s"
  by (simp_all add: modify_session_def)

lemma try_send_frame [simp]: "ss_next (try_send c m s) = ss_next s" "ss_heap (try_send c m s) = ss_heap s"
  by (simp_all add: try_send_def)

lemma inv_moves:
  "server_inv s \<Longrightarrow> server_inv (modify_session r (touch now) s)"
  "server_inv s \<Longrightarrow> server_inv (modify_session r (stream_started now) s)"
  "server_inv s \<Longrightarrow> server_inv (modify_session r (stream_finished now) s)"
  using apply_op_inv [of s undefined "OpTouch now r"] apply_op_inv [of s undefined "OpStreamStarted now r"]
    apply_op_inv [of s undefined "OpStreamFinished now r"] by simp_all

lemma count_ends:
  assumes "count_ok r (l, s)" "counted (visitor_at i l)"
  shows "count_ok r (end_visitor r i now (l, s))" "count_ok r (end_visitor r i now (drop_pending cid l, s))"
proof -
  have "of_nat (open_visitors l) - 1 = (of_nat (open_visitors (set_visitor i VFinished l)) :: 64 word)"
    using open_ends [OF assms(2)] by (metis of_nat_Suc add_diff_cancel_left')
  then show "count_ok r (end_visitor r i now (l, s))"
    using assms(1) by (simp add: count_ok_def end_visitor_def inv_moves)
  then show "count_ok r (end_visitor r i now (drop_pending cid l, s))"
    by (simp add: count_ok_def end_visitor_def drop_pending_def)
qed

lemma count_sends:
  assumes "count_ok r (l, s)" "visitor_at i l = VAsking cid got"
  shows "count_ok r (send_stream_open r i cid got now (l, s))"
  using assms count_ends(2) [OF assms(1), of i now cid] open_goes_on [of i l "VWaiting cid got"]
  by (auto simp: send_stream_open_def Let_def count_ok_def inv_try_send)

lemma count_step:
  assumes "count_ok r ls"
  shows "count_ok r (tcp_tunnel_step r ev ls)"
proof -
  obtain l s where ls: "ls = (l, s)" by (cases ls)
  note ok = assms [unfolded ls]
  note base = ok [unfolded count_ok_def, simplified]
  note goes = count_ends [OF ok]
  show ?thesis
  proof (cases ev)
    case (TcpAccepted now)
    then show ?thesis using base by (simp add: ls count_ok_def inv_moves open_visitors_def)
  next
    case (TcpStarts i now)
    then show ?thesis
      using base open_starts [of i l] by (auto simp: ls count_ok_def inv_moves split: visitor_phase.split prod.split)
  next
    case (TcpStartsCancelled i now)
    then show ?thesis
      using base open_never_started [of i l]
      by (auto simp: ls count_ok_def inv_moves end_visitor_def split: visitor_phase.split)
  next
    case (TcpSends i now)
    then show ?thesis using ok count_sends [OF ok] by (auto simp: ls split: visitor_phase.split)
  next
    case (TcpGetsStream i)
    then show ?thesis
      using ok open_goes_on [of i l] by (auto simp: ls count_ok_def split: visitor_phase.split option.split)
  next
    case (TcpTimedOut i now)
    then show ?thesis using ok goes by (auto simp: ls split: visitor_phase.split option.split)
  next
    case (TcpCopyEnds i now)
    then show ?thesis using ok goes by (auto simp: ls split: visitor_phase.split)
  next
    case (TcpVisitorCancelled i now)
    then show ?thesis using ok goes by (auto simp: ls)
  next
    case (TcpData b n)
    then show ?thesis
      using ok by (auto simp: ls count_ok_def open_put_stream split: option.split prod.split requester.split)
  next
    case (TcpServer dns x)
    then show ?thesis
      using base apply_op_count [of r x s dns] apply_op_next [of s dns x] apply_op_inv [of s dns x]
      by (auto simp: ls count_ok_def)
  qed (use ok in \<open>auto simp: ls count_ok_def split: option.split requester.split\<close>)
qed

interpretation tcp_count: event_machine "tcp_tunnel_step r" "count_ok r" for r
  by unfold_locales (rule count_step)

lemma count_run: "count_ok r ls \<Longrightarrow> count_ok r (tcp_tunnel_run r evs ls)"
  unfolding tcp_tunnel_run_def by (rule tcp_count.run_keeps)

text \<open>
  C17: a tunnel in use is not reaped, and an unused one is. However the tasks of a TCP tunnel, its
  accept loop, the data streams of the client and every other operation of the server interleave,
  the session's count is the number of visitors being served, with no drift through failures,
  deadlines and cancellations; so a round of the reaper leaves the tunnel registered exactly while a
  visitor is served or the last activity is recent.
\<close>

theorem tcp_streams_counted:
  assumes start: "server_reach api c s" "r < ss_next s" "active_streams (ss_heap s r) = 0"
    and run: "tcp_tunnel_run r evs (tcp_listening g, s) = (l, s')"
    and few: "length (tl_visitors l) < 2 ^ 64" and registered: "dm_get (tcp_tunnels s') p = Some r"
  shows "unat (active_streams (ss_heap s' r)) = open_visitors l \<and>
    dm_get (tcp_tunnels (reap_idle_tunnels api (\<lambda>u. u) in_time now s')) p =
      (if 0 < open_visitors l \<or> now - last_activity (ss_heap s' r) < idle_timeout s' then Some r else None)"
proof -
  have "count_ok r (tcp_listening g, s)"
    using start server_reach_inv by (simp add: count_ok_def tcp_listening_def open_visitors_def)
  from count_run [OF this, of evs] have ok: "active_streams (ss_heap s' r) = of_nat (open_visitors l)" "server_inv s'"
    by (simp_all add: run count_ok_def)
  have "open_visitors l < 2 ^ 64" using few length_filter_le [of counted "tl_visitors l"] unfolding open_visitors_def by linarith
  then have u: "unat (active_streams (ss_heap s' r)) = open_visitors l"
    by (simp add: ok(1) unat_of_nat take_bit_nat_eq_self_iff)
  then have "(active_streams (ss_heap s' r) = 0) = (open_visitors l = 0)" by (metis unat_eq_0)
  with u show ?thesis
    using reap_round(2) [OF ok(2), where api = api and in_time = in_time and now = now and p = p] by (auto simp: registered is_idle_def)
qed

definition tcp_state :: server_state where
  "tcp_state = run_ops no_dns [OpConnect 0, OpNewSession (sample_session ''1'' []), OpRegisterTcp 10000 0] (new_server_state default_config)"

definition one_visitor :: "tcp_event list" where
  "one_visitor = [TcpAccepted 5, TcpStarts 0 6, TcpSends 0 6, TcpData (Completed (u32_to_be 1)) 7, TcpGetsStream 0]"

lemma tcp_state_reach: "server_reach no_dns default_config tcp_state"
  unfolding tcp_state_def by (intro run_ops_reach SStart)

lemmas tcp_eval = tcp_tunnel_run_def one_visitor_def tcp_listening_def tcp_state_def run_ops_def new_session_def new_server_state_def
  try_register_tcp_tunnel_def sample_session_def Let_def owns_reservation_def at_capacity_def slots_used_def max_slots_def
  default_config_def default_values dm_empty_def dm_get_def dm_insert_def dm_len_def dm_remove_def dm_contains_def
  in_range_def port_start_def port_end_def no_session_def begin_stream_def take_correlation_id_def
  new_stream_registry_def visitor_at_def set_visitor_def send_stream_open_def try_send_def CONTROL_CAPACITY_def
  modify_session_def handle_proxy_data_stream_def resolve_pending_stream_def
  stream_started_def stream_finished_def touch_def end_visitor_def

lemma one_visitor_state:
  "\<exists>l s. tcp_tunnel_run 0 one_visitor (tcp_listening new_stream_registry, tcp_state) = (l, s) \<and>
     tl_visitors l = [VCopying 1 7] \<and> dm_get (tcp_tunnels s) 10000 = Some 0 \<and> tl_serving l"
  by (simp add: tcp_eval read_exact_def)

theorem tcp_streams_counted_witness:
  "\<exists>l s. tcp_tunnel_run 0 one_visitor (tcp_listening new_stream_registry, tcp_state) = (l, s) \<and>
     dm_get (tcp_tunnels (reap_idle_tunnels no_dns (\<lambda>u. u) (\<lambda>_. True) 900000 s)) 10000 = Some 0"
proof -
  obtain l s where r: "tcp_tunnel_run 0 one_visitor (tcp_listening new_stream_registry, tcp_state) = (l, s)"
      "tl_visitors l = [VCopying 1 7]" "dm_get (tcp_tunnels s) 10000 = Some 0"
    using one_visitor_state by blast
  have i: "0 < ss_next tcp_state" "active_streams (ss_heap tcp_state 0) = 0" by (simp_all add: tcp_eval)
  show ?thesis
    using tcp_streams_counted [OF tcp_state_reach i r(1) _ r(3), where in_time = "\<lambda>_. True" and now = 900000] r
    by (auto simp: open_visitors_def)
qed

section \<open>Which stream a visitor gets\<close>

fun asked_id :: "visitor_phase \<Rightarrow> correlation_id option" where
  "asked_id (VAsking cid got) = Some cid"
| "asked_id (VWaiting cid got) = Some cid"
| "asked_id (VCopying cid n) = Some cid"
| "asked_id _ = None"

fun got_stream :: "visitor_phase \<Rightarrow> nat option" where
  "got_stream (VAsking cid got) = got"
| "got_stream (VWaiting cid got) = got"
| "got_stream (VCopying cid n) = Some n"
| "got_stream _ = None"

text \<open>The requests registered by a run, and the data streams of the client in it.\<close>

fun registers :: "tcp_event \<Rightarrow> bool" where
  "registers (TcpStarts i now) = True"
| "registers (TcpElsewhere n) = True"
| "registers _ = False"

definition opened_for :: "tcp_event set \<Rightarrow> correlation_id \<Rightarrow> nat \<Rightarrow> bool" where
  "opened_for evs cid n \<longleftrightarrow> (\<exists>b. TcpData (Completed b) n \<in> evs \<and> 4 \<le> length b \<and> u32_from_be (take 4 b) = cid)"

definition issued :: "nat \<Rightarrow> correlation_id \<Rightarrow> bool" where
  "issued n cid \<longleftrightarrow> (\<exists>k<n. cid = 1 + of_nat k)"

lemma issued_Suc: "issued n c \<Longrightarrow> issued (Suc n) c" "issued (Suc n) (1 + of_nat n)"
  by (auto simp: issued_def intro: less_SucI)

lemma next_not_issued:
  assumes "n < 2 ^ 32"
  shows "\<not> issued n (1 + of_nat n)"
proof
  assume "issued n (1 + of_nat n)"
  then obtain k where k: "k < n" "(of_nat n :: correlation_id) = of_nat k" by (auto simp: issued_def)
  then have "(2 :: nat) ^ 32 dvd n - k"
    using word_of_nat_eq_0_iff [where ?'a = 32 and n = "n - k"] by simp
  then show False using k assms by (auto dest: dvd_imp_le)
qed

definition ids_ok :: "nat \<Rightarrow> tcp_event set \<Rightarrow> tcp_tunnel \<Rightarrow> bool" where
  "ids_ok n evs l \<longleftrightarrow> next_correlation_id (tl_registry l) = 1 + of_nat n \<and>
     (\<forall>c q. dm_get (pending_streams (tl_registry l)) c = Some q \<longrightarrow> issued n c) \<and>
     (\<forall>i c. asked_id (visitor_at i l) = Some c \<longrightarrow> issued n c) \<and>
     (\<forall>i j c. asked_id (visitor_at i l) = Some c \<longrightarrow> asked_id (visitor_at j l) = Some c \<longrightarrow> i = j) \<and>
     (\<forall>c i. dm_get (pending_streams (tl_registry l)) c = Some (Visitor i) \<longrightarrow>
        i < length (tl_visitors l) \<and> visitor_at i l \<noteq> VAccepted \<and> (\<forall>c'. asked_id (visitor_at i l) = Some c' \<longrightarrow> c' = c)) \<and>
     (\<forall>i c m. asked_id (visitor_at i l) = Some c \<longrightarrow> got_stream (visitor_at i l) = Some m \<longrightarrow> opened_for evs c m)"

lemma visitor_at_set: "visitor_at j (set_visitor i v l) = (if j = i \<and> i < length (tl_visitors l) then v else visitor_at j l)"
  by (simp add: visitor_at_def set_visitor_def)

lemma set_visitor_serving: "tl_serving (set_visitor i v l) = tl_serving l"
  by (simp add: set_visitor_def)

lemma set_visitor_frame [simp]:
  "tl_registry (set_visitor i v l) = tl_registry l" "length (tl_visitors (set_visitor i v l)) = length (tl_visitors l)"
  by (simp_all add: set_visitor_def)

lemma drop_pending_frame [simp]:
  "next_correlation_id (tl_registry (drop_pending c l)) = next_correlation_id (tl_registry l)"
  "dm_get (pending_streams (tl_registry (drop_pending c l))) c' =
     (if c' = c then None else dm_get (pending_streams (tl_registry l)) c')"
  "tl_visitors (drop_pending c l) = tl_visitors l"
  by (simp_all add: drop_pending_def dm_simps)

lemma ids_mono: "ids_ok n evs l \<Longrightarrow> evs \<subseteq> evs' \<Longrightarrow> ids_ok n evs' l"
  unfolding ids_ok_def opened_for_def by (elim conjE, intro conjI) (assumption | blast)+

lemma ids_end: "ids_ok n evs l \<Longrightarrow> ids_ok n evs (set_visitor i VFinished l)"
  unfolding ids_ok_def by (elim conjE, intro conjI) (auto simp: visitor_at_set split: if_splits)

lemma ids_drop: "ids_ok n evs l \<Longrightarrow> ids_ok n evs (drop_pending c l)"
  unfolding ids_ok_def by (elim conjE, intro conjI) (simp_all split: if_splits)

lemma ids_phase:
  assumes "ids_ok n evs l" "asked_id v = asked_id (visitor_at i l)" "asked_id v \<noteq> None"
    "\<And>m. got_stream v = Some m \<Longrightarrow> got_stream (visitor_at i l) = Some m \<or> opened_for evs (the (asked_id v)) m"
  shows "ids_ok n evs (set_visitor i v l)"
proof -
  have "v \<noteq> VAccepted" using assms(3) by auto
  then show ?thesis
    using assms unfolding ids_ok_def
    by (elim conjE, intro conjI) (auto simp: visitor_at_set split: if_splits)
qed

lemma ids_starts:
  assumes ok: "ids_ok n evs l" and n: "n < 2 ^ 32" and at: "visitor_at i l = VAccepted"
  shows "ids_ok (Suc n) evs (set_visitor i (VAsking (1 + of_nat n) None)
    (l\<lparr>tl_registry := snd (begin_stream (Visitor i) (tl_registry l))\<rparr>))"
  using ok at next_not_issued [OF n] accepted_in_range [OF at] unfolding ids_ok_def
  by (elim conjE, intro conjI)
    (auto simp: visitor_at_set begin_stream_def take_correlation_id_def dm_simps issued_Suc split: if_splits)

lemma ids_elsewhere:
  assumes ok: "ids_ok n evs l" and n: "n < 2 ^ 32"
  shows "ids_ok (Suc n) evs (l\<lparr>tl_registry := snd (begin_stream (Elsewhere q) (tl_registry l))\<rparr>)"
  using ok next_not_issued [OF n] unfolding ids_ok_def
  by (elim conjE, intro conjI)
    (auto simp: begin_stream_def take_correlation_id_def dm_simps issued_Suc split: if_splits)

lemma visitor_at_accept:
  "visitor_at j (l\<lparr>tl_visitors := tl_visitors l @ [VAccepted]\<rparr>) = (if j = length (tl_visitors l) then VAccepted else visitor_at j l)"
  by (auto simp: visitor_at_def nth_append)

lemma ids_accept: "ids_ok n evs l \<Longrightarrow> ids_ok n evs (l\<lparr>tl_visitors := tl_visitors l @ [VAccepted]\<rparr>)"
  unfolding ids_ok_def by (elim conjE, intro conjI) (auto simp: visitor_at_accept intro: less_SucI split: if_splits)

lemma end_serving_frame [simp]: "tl_visitors (end_serving res l) = tl_visitors l" "tl_registry (end_serving res l) = tl_registry l"
  by (simp_all add: end_serving_def)

lemma ids_serving: "ids_ok n evs l \<Longrightarrow> ids_ok n evs (end_serving res l)"
  by (simp add: ids_ok_def)

lemma asked_put_stream [simp]: "asked_id (put_stream m v) = asked_id v"
  by (cases "(m, v)" rule: put_stream.cases) simp_all

lemma data_stream_cases:
  assumes "handle_proxy_data_stream (awaits_stream l) b (tl_registry l) = (q, g)"
  shows "l\<lparr>tl_registry := g\<rparr> = l \<or> (\<exists>cid. l\<lparr>tl_registry := g\<rparr> = drop_pending cid l)"
    "q = Some (Visitor i) \<Longrightarrow> awaits_stream l (Visitor i) \<and>
      (\<exists>d. b = Completed d \<and> 4 \<le> length d \<and> dm_get (pending_streams (tl_registry l)) (u32_from_be (take 4 d)) = Some (Visitor i))"
  using assms
  by (auto simp: handle_proxy_data_stream_def resolve_pending_stream_def read_exact_def drop_pending_def
      split: timed.splits option.splits if_splits)

lemma ids_data:
  assumes ok: "ids_ok n evs l"
  shows "ids_ok n (insert (TcpData b m) evs) (fst (tcp_tunnel_step r (TcpData b m) (l, s)))"
proof -
  let ?E = "insert (TcpData b m) evs"
  obtain q g where h: "handle_proxy_data_stream (awaits_stream l) b (tl_registry l) = (q, g)" by fastforce
  have ok1: "ids_ok n ?E l" by (rule ids_mono [OF ok]) blast
  have ok2: "ids_ok n ?E (l\<lparr>tl_registry := g\<rparr>)"
    using data_stream_cases(1) [OF h] ids_drop [OF ok1] ok1 by metis
  show ?thesis
  proof (cases "\<exists>i. q = Some (Visitor i)")
    case True
    then obtain i where i: "q = Some (Visitor i)" by blast
    obtain d where d: "awaits_stream l (Visitor i)" "b = Completed d" "4 \<le> length d"
        "dm_get (pending_streams (tl_registry l)) (u32_from_be (take 4 d)) = Some (Visitor i)"
      using data_stream_cases(2) [OF h i] by blast
    have c: "asked_id (visitor_at i l) = Some c \<Longrightarrow> u32_from_be (take 4 d) = c" for c
      using ok d(4) unfolding ids_ok_def by blast
    have "ids_ok n ?E (set_visitor i (put_stream m (visitor_at i l)) (l\<lparr>tl_registry := g\<rparr>))"
    proof (rule ids_phase [OF ok2])
      show "asked_id (put_stream m (visitor_at i l)) \<noteq> None"
        using d(1) by (auto split: visitor_phase.splits option.splits)
      fix m' assume "got_stream (put_stream m (visitor_at i l)) = Some m'"
      then have "m' = m" using d(1) by (auto split: visitor_phase.splits option.splits)
      moreover have "opened_for ?E (the (asked_id (visitor_at i l))) m"
        using d(1-3) c by (auto simp: opened_for_def split: visitor_phase.splits option.splits)
      ultimately show "got_stream (visitor_at i (l\<lparr>tl_registry := g\<rparr>)) = Some m' \<or>
          opened_for ?E (the (asked_id (put_stream m (visitor_at i l)))) m'" by simp
    qed simp
    then show ?thesis by (simp add: h i)
  next
    case False
    then show ?thesis using ok2 by (auto simp: h split: option.split requester.split)
  qed
qed

lemma ids_send:
  assumes "ids_ok n evs l" "visitor_at i l = VAsking cid got"
  shows "ids_ok n evs (fst (send_stream_open r i cid got now (l, s)))"
  using assms ids_end [OF ids_drop [OF assms(1)], of i cid]
  by (auto simp: send_stream_open_def end_visitor_def Let_def intro: ids_phase)

lemma ids_step:
  assumes ok: "ids_ok n evs l" and n: "registers ev \<Longrightarrow> n < 2 ^ 32"
  shows "\<exists>n'\<le>n + of_bool (registers ev). ids_ok n' (insert ev evs) (fst (tcp_tunnel_step r ev (l, s)))"
proof -
  have ok1: "ids_ok n (insert ev evs) l" by (rule ids_mono [OF ok]) blast
  note same = exI [where x = n]
  show ?thesis
  proof (cases ev)
    case (TcpStarts i now)
    show ?thesis
    proof (cases "visitor_at i l = VAccepted")
      case True
      have "1 + of_nat n = next_correlation_id (tl_registry l)" using ok by (simp add: ids_ok_def)
      then show ?thesis
        using ids_starts [OF ok1 n True] TcpStarts True
        by (auto simp: begin_stream_def take_correlation_id_def intro!: exI [where x = "Suc n"])
    next
      case False
      then have "fst (tcp_tunnel_step r ev (l, s)) = l" using TcpStarts by (cases "visitor_at i l") simp_all
      then show ?thesis using ok1 by (intro same) simp
    qed
  next
    case (TcpElsewhere q)
    then show ?thesis using ids_elsewhere [OF ok1 n, of q] by (auto intro!: exI [where x = "Suc n"])
  next
    case (TcpData b m)
    then show ?thesis using ids_data [OF ok, of b m r s] by (intro same) simp
  next
    case (TcpSends i now)
    then show ?thesis
      using ok1 ids_send [OF ok1, of i] by (intro same) (auto split: visitor_phase.split)
  next
    case (TcpGetsStream i)
    then show ?thesis
      using ok1 by (intro same) (auto split: visitor_phase.split option.split intro!: ids_phase)
  qed (use ok1 in \<open>intro same; auto simp: end_visitor_def ids_accept ids_serving ids_end ids_drop
      split: visitor_phase.split option.split requester.split\<close>)+
qed

lemma ids_run:
  assumes "ids_ok n evs0 l" "n + length (filter registers evs) \<le> 2 ^ 32"
  shows "\<exists>n'. ids_ok n' (evs0 \<union> set evs) (fst (tcp_tunnel_run r evs (l, s)))"
  using assms
proof (induction evs arbitrary: n evs0 l s)
  case (Cons ev evs)
  obtain l1 s1 where st: "tcp_tunnel_step r ev (l, s) = (l1, s1)" by fastforce
  have "registers ev \<Longrightarrow> n < 2 ^ 32" using Cons.prems(2) by simp
  then obtain n1 where n1: "n1 \<le> n + of_bool (registers ev)" "ids_ok n1 (insert ev evs0) l1"
    using ids_step [OF Cons.prems(1), of ev r s] st by auto
  have "n1 + length (filter registers evs) \<le> 2 ^ 32" using n1(1) Cons.prems(2) by (simp split: if_splits)
  from Cons.IH [OF n1(2) this, of s1] show ?case by (simp add: tcp_tunnel_run_def st)
qed (auto simp: tcp_tunnel_run_def)

lemma ids_start: "ids_ok 0 {} (tcp_listening new_stream_registry)"
  by (simp add: ids_ok_def tcp_listening_def new_stream_registry_def visitor_at_def dm_get_def dm_empty_def)

fun data_streams :: "tcp_event list \<Rightarrow> nat list" where
  "data_streams [] = []"
| "data_streams (TcpData b n # evs) = n # data_streams evs"
| "data_streams (ev # evs) = data_streams evs"

lemma in_data_streams: "TcpData b n \<in> set evs \<Longrightarrow> n \<in> set (data_streams evs)"
  by (induction evs rule: data_streams.induct) auto

lemma data_stream_once: "distinct (data_streams evs) \<Longrightarrow> TcpData b n \<in> set evs \<Longrightarrow> TcpData b' n \<in> set evs \<Longrightarrow> b' = b"
  by (induction evs rule: data_streams.induct) (auto dest: in_data_streams)

text \<open>
  C10: no visitor gets another's stream. A connection has fewer than 2 to the 32 requests, each data
  stream the client opens is taken from the connection once, and everything interleaves in any
  order, with sends that fail, deadlines, cancellations and requests of other tunnels in between.
  Then a visitor that is joined to a stream has one that the client opened for exactly its
  correlation id, and no two visitors have the same id or the same stream.
\<close>

theorem tcp_visitors_not_crossed:
  assumes run: "tcp_tunnel_run r evs (tcp_listening new_stream_registry, s) = (l, s')"
    and few: "length (filter registers evs) \<le> 2 ^ 32" and once: "distinct (data_streams evs)"
    and copying: "visitor_at i l = VCopying cid n"
  shows "opened_for (set evs) cid n \<and> (\<forall>j c m. visitor_at j l = VCopying c m \<and> (c = cid \<or> m = n) \<longrightarrow> j = i)"
proof -
  obtain n' where ok: "ids_ok n' (set evs) l"
    using ids_run [OF ids_start, of evs r s] few run by auto
  have one: "opened_for (set evs) c m" if "visitor_at j l = VCopying c m" for j c m
    using ok that unfolding ids_ok_def by (metis asked_id.simps(3) got_stream.simps(3))
  have same: "j = i" if "visitor_at j l = VCopying cid m" for j m
    using ok that copying unfolding ids_ok_def by (metis asked_id.simps(3))
  have "c = cid" if "visitor_at j l = VCopying c n" for j c
    using one [OF that] one [OF copying] data_stream_once [OF once] by (fastforce simp: opened_for_def)
  then show ?thesis using one [OF copying] same by blast
qed

theorem tcp_visitors_not_crossed_witness:
  "\<exists>l s. tcp_tunnel_run 0 one_visitor (tcp_listening new_stream_registry, tcp_state) = (l, s) \<and>
     visitor_at 0 l = VCopying 1 7 \<and> opened_for (set one_visitor) 1 7"
proof -
  obtain l s where r: "tcp_tunnel_run 0 one_visitor (tcp_listening new_stream_registry, tcp_state) = (l, s)"
      "tl_visitors l = [VCopying 1 7]"
    using one_visitor_state by blast
  have v: "visitor_at 0 l = VCopying 1 7" by (simp add: visitor_at_def r)
  show ?thesis using tcp_visitors_not_crossed [OF r(1) _ _ v] r(1) v by (simp add: one_visitor_def)
qed

section \<open>The end of the loop\<close>

lemma none_served: "open_visitors l = 0 \<longleftrightarrow> (\<forall>j. \<not> counted (visitor_at j l))"
  by (auto simp: open_visitors_def visitor_at_def filter_empty_conv all_set_conv_all_nth)

definition cancel_visitors :: "nat \<Rightarrow> nat \<Rightarrow> tcp_event list" where
  "cancel_visitors now n = map (\<lambda>i. TcpVisitorCancelled i now) [0..<n]"

lemma cancelled_visitors:
  assumes "ts_cancel (ss_heap s r)"
  shows "\<exists>l' s'. tcp_tunnel_run r (map (\<lambda>i. TcpVisitorCancelled i now) ns) (l, s) = (l', s') \<and>
    length (tl_visitors l') = length (tl_visitors l) \<and> tl_serving l' = tl_serving l \<and> ts_cancel (ss_heap s' r) \<and>
    (\<forall>j. counted (visitor_at j l') \<longleftrightarrow> counted (visitor_at j l) \<and> j \<notin> set ns)"
  using assms
proof (induction ns arbitrary: l s)
  case (Cons i ns)
  obtain l1 s1 where st: "tcp_tunnel_step r (TcpVisitorCancelled i now) (l, s) = (l1, s1)" by fastforce
  have 1: "length (tl_visitors l1) = length (tl_visitors l)" "tl_serving l1 = tl_serving l" "ts_cancel (ss_heap s1 r)"
      "\<forall>j. counted (visitor_at j l1) \<longleftrightarrow> counted (visitor_at j l) \<and> j \<noteq> i"
    using st Cons.prems counted_in_range [of i l]
    by (auto simp: end_visitor_def visitor_at_set stream_finished_def touch_def set_visitor_serving split: if_splits)
  have "tcp_tunnel_run r (map (\<lambda>i. TcpVisitorCancelled i now) (i # ns)) (l, s) =
      tcp_tunnel_run r (map (\<lambda>i. TcpVisitorCancelled i now) ns) (l1, s1)"
    by (simp add: tcp_tunnel_run_def st del: tcp_tunnel_step.simps)
  with Cons.IH [OF 1(3), of l1] 1 show ?case by auto
qed (simp add: tcp_tunnel_run_def)

text \<open>A loop that has ended accepts nobody.\<close>

lemma step_not_serving:
  "\<not> tl_serving l \<Longrightarrow> tcp_tunnel_step r ev (l, s) = (l', s') \<Longrightarrow>
     \<not> tl_serving l' \<and> tl_result l' = tl_result l \<and> length (tl_visitors l') = length (tl_visitors l)"
  by (cases ev)
    (auto simp: end_visitor_def send_stream_open_def Let_def set_visitor_def drop_pending_def
      split: if_splits visitor_phase.splits option.splits prod.splits requester.splits)

lemma run_not_serving:
  "\<not> tl_serving l \<Longrightarrow> tcp_tunnel_run r evs (l, s) = (l', s') \<Longrightarrow>
     \<not> tl_serving l' \<and> tl_result l' = tl_result l \<and> length (tl_visitors l') = length (tl_visitors l)"
proof (induction evs arbitrary: l s)
  case (Cons ev evs)
  obtain l1 s1 where st: "tcp_tunnel_step r ev (l, s) = (l1, s1)" by fastforce
  from step_not_serving [OF Cons.prems(1) st] Cons.IH [of l1 s1] Cons.prems(2) show ?case
    by (simp add: tcp_tunnel_run_def st)
qed (simp add: tcp_tunnel_run_def)

text \<open>
  C37: one failed \<open>accept\<close> closes a TCP tunnel and cuts everyone off. The loop returns the error and
  no visitor is accepted again, whatever happens later; the listener's task then takes the tunnel out
  of the registry and cancels its session, upon which the tasks of all its visitors end; and
  nothing is queued for the client, which keeps its connection and a public port nobody serves.
\<close>

theorem failed_accept_closes_tcp_tunnel:
  assumes serving: "tl_serving l" and reg: "dm_get (tcp_tunnels s) p = Some r"
    and failed: "tcp_tunnel_step r (TcpAcceptFailed e) (l, s) = (l1, s1)"
    and after: "s2 = tcp_listener_done dns p r tx s1"
  shows "tl_result l1 = Some (Err e) \<and>
    (\<forall>evs l' s'. tcp_tunnel_run r evs (l1, s2) = (l', s') \<longrightarrow> length (tl_visitors l') = length (tl_visitors l)) \<and>
    dm_get (tcp_tunnels s2) p = None \<and> ss_chan s2 = ss_chan s \<and>
    open_visitors (fst (tcp_tunnel_run r (cancel_visitors now (length (tl_visitors l))) (l1, s2))) = 0"
proof -
  have l1: "l1 = end_serving (Err e) l" "s1 = s" using failed serving by simp_all
  have ns: "\<not> tl_serving l1" "length (tl_visitors l1) = length (tl_visitors l)" "tl_result l1 = Some (Err e)"
    by (simp_all add: l1 end_serving_def)
  have s2: "dm_get (tcp_tunnels s2) p = None" "ss_chan s2 = ss_chan s" "ts_cancel (ss_heap s2 r)"
    using reg
    by (auto simp: after l1 tcp_listener_done_def remove_tcp_tunnel_if_owner_def delete_dns_record_def
        release_tcp_port_reservation_def release_reservation_def cancel_session_def modify_session_def dm_simps
        split: option.splits)
  obtain l' s' where c: "tcp_tunnel_run r (cancel_visitors now (length (tl_visitors l))) (l1, s2) = (l', s')"
      "\<forall>j. counted (visitor_at j l') \<longleftrightarrow> counted (visitor_at j l1) \<and> j \<notin> set [0..<length (tl_visitors l)]"
    using cancelled_visitors [OF s2(3), of now "[0..<length (tl_visitors l)]" l1] unfolding cancel_visitors_def by blast
  have "\<not> counted (visitor_at j l')" for j using c(2) ns(2) counted_in_range [of j l1] by auto
  then show ?thesis using ns s2 c(1) run_not_serving [OF ns(1)] by (auto simp: none_served)
qed

theorem failed_accept_closes_tcp_tunnel_witness:
  "\<exists>l s s2. tcp_tunnel_run 0 (one_visitor @ [TcpAcceptFailed ''Too many open files'']) (tcp_listening new_stream_registry, tcp_state) = (l, s) \<and>
     s2 = tcp_listener_done no_dns 10000 0 3 s \<and> open_visitors l = 1 \<and> dm_get (tcp_tunnels s2) 10000 = None \<and>
     open_visitors (fst (tcp_tunnel_run 0 (cancel_visitors 8 1) (l, s2))) = 0"
proof -
  obtain l s where r: "tcp_tunnel_run 0 one_visitor (tcp_listening new_stream_registry, tcp_state) = (l, s)"
      "tl_visitors l = [VCopying 1 7]" "dm_get (tcp_tunnels s) 10000 = Some 0" "tl_serving l"
    using one_visitor_state by blast
  obtain l1 s1 where f: "tcp_tunnel_step 0 (TcpAcceptFailed ''Too many open files'') (l, s) = (l1, s1)" by fastforce
  have "open_visitors l1 = 1" using f r(2,4) by (auto simp: open_visitors_def)
  then show ?thesis
    using failed_accept_closes_tcp_tunnel [OF r(4,3) f refl, of no_dns 3 8] r(1) f
    by (auto simp: tcp_tunnel_run_def r(2))
qed

end
