(* ===== verification/Tasks.thy ===== *)
theory Tasks
  imports Prelude
begin

text \<open>
  Spawned tasks as both ends keep them: a list of states, a handle being a position. A task ends by
  itself or is aborted through its handle; aborting a task that is over changes nothing.
\<close>

datatype task_state = TaskRunning | TaskEnded | TaskAborted

definition abort_task :: "task_state \<Rightarrow> task_state" where
  "abort_task t = (case t of TaskRunning \<Rightarrow> TaskAborted | _ \<Rightarrow> t)"

definition live_tasks :: "task_state list \<Rightarrow> nat" where
  "live_tasks ts = length (filter (\<lambda>t. t = TaskRunning) ts)"

definition spawn :: "task_state list \<Rightarrow> nat \<times> task_state list" where
  "spawn ts = (length ts, ts @ [TaskRunning])"

definition abort_at :: "nat \<Rightarrow> task_state list \<Rightarrow> task_state list" where
  "abort_at h ts = ts[h := abort_task (ts ! h)]"

definition end_at :: "nat \<Rightarrow> task_state list \<Rightarrow> task_state list" where
  "end_at h ts = ts[h := TaskEnded]"

lemma abort_task_over [simp]: "abort_task t \<noteq> TaskRunning"
  by (simp add: abort_task_def split: task_state.split)

lemma live_tasks_snoc [simp]: "live_tasks (ts @ [t]) = live_tasks ts + (if t = TaskRunning then 1 else 0)"
  by (simp add: live_tasks_def)

text \<open>The handle of the task spawned last reaches it, and nothing else.\<close>

lemma abort_last [simp]: "abort_at (length ts) (ts @ [t]) = ts @ [abort_task t]"
  by (simp add: abort_at_def)

lemma end_last [simp]: "end_at (length ts) (ts @ [t]) = ts @ [TaskEnded]"
  by (simp add: end_at_def)

end
