(* ===== verification/Connection_Life.thy ===== *)
theory Connection_Life
  imports Control_Properties Tasks
begin

text \<open>
  The life of one client connection on the server, \<open>handle_client\<close> of \<open>control.rs\<close> as a whole: the guard of
  the gauge, the yamux driver, authentication, the control loop, the task that accepts data
  streams, and the cleanup. What is shown is that nothing of a connection outlives it: the gauge
  is back, its tasks are ended, and no name and no port leads to a session of it any more.
\<close>

section \<open>The guard and the tasks\<close>




section \<open>The connection\<close>








section \<open>What a connection owns\<close>









lemma apply_op_control:
  "r < ss_next s \<Longrightarrow> control_tx (ss_heap (apply_op dns x s) r) = control_tx (ss_heap s r)"
  by (cases x) (auto simp: op_defs split: option.splits sum.splits prod.splits)




section \<open>The loop and its handler\<close>



















section \<open>The cleanup\<close>










end
