(* ===== verification/Client_Config.thy ===== *)
theory Client_Config
  imports Proto_Messages Server_Auth
begin

text \<open>
  The client before it connects: \<open>config.rs\<close> (the configuration file), \<open>cli.rs\<close> (the command
  line) and \<open>main.rs\<close> (overrides, and the tunnel each command asks for). The file system, the
  TOML codec and the home directory are parameters; \<open>clap\<close> hands over the parsed arguments.
\<close>

section \<open>The configuration file\<close>

record server_section =
  cs_host :: str
  cs_port :: port
  cs_insecure :: bool

record defaults_section =
  inspect_port :: port
  ds_inspect :: bool
  ds_max_body_bytes :: nat

record logging_section =
  ls_level :: str
  ls_format :: str

record client_config =
  cc_server :: server_section
  cc_token :: str
  cc_defaults :: defaults_section
  cc_logging :: logging_section

definition default_port :: port where "default_port = 7835"
definition default_inspect_port :: port where "default_inspect_port = 4040"
definition default_inspect :: bool where "default_inspect = True"
definition default_max_body_bytes :: nat where "default_max_body_bytes = 1048576"
definition default_client_log_level :: str where "default_client_log_level = ''info''"
definition default_client_log_format :: str where "default_client_log_format = ''pretty''"

definition default_defaults :: defaults_section where
  "default_defaults = \<lparr>inspect_port = default_inspect_port, ds_inspect = default_inspect,
     ds_max_body_bytes = default_max_body_bytes\<rparr>"

definition default_client_logging :: logging_section where
  "default_client_logging = \<lparr>ls_level = default_client_log_level, ls_format = default_client_log_format\<rparr>"

definition default_client_config :: client_config where
  "default_client_config =
     \<lparr>cc_server = \<lparr>cs_host = ''tunnel.example.com'', cs_port = default_port, cs_insecure = False\<rparr>,
      cc_token = [], cc_defaults = default_defaults, cc_logging = default_client_logging\<rparr>"

definition expand_tilde :: "str option \<Rightarrow> str \<Rightarrow> str" where
  "expand_tilde home path =
     (if starts_with ''~/'' path \<or> starts_with [CHR ''~'', CHR 0x5C] path
      then (case home of Some h \<Rightarrow> path_join h (drop 2 path) | None \<Rightarrow> path)
      else path)"

text \<open>\<open>default_path\<close>: under the configuration directory of the user, if the system names one.\<close>

definition default_path :: "str option \<Rightarrow> str" where
  "default_path config_dir = path_join (path_join (case config_dir of Some d \<Rightarrow> d | None \<Rightarrow> ''.'') ''rgrok'') ''config.toml''"

record file_system =
  fs_home :: "str option"
  fs_exists :: "str \<Rightarrow> bool"
  fs_read :: "str \<Rightarrow> (str, str) result"
  fs_parent :: "str \<Rightarrow> str option"
  fs_mkdirs :: "str \<Rightarrow> (str, unit) result"
  fs_write :: "str \<Rightarrow> (str, unit) result"
  fs_chmod :: "str \<Rightarrow> (str, unit) result"

definition load_client_config ::
  "file_system \<Rightarrow> (str \<Rightarrow> (str, client_config) result) \<Rightarrow> str \<Rightarrow> (str, client_config) result" where
  "load_client_config fs from_toml path =
     (let expanded = expand_tilde (fs_home fs) path in
      if \<not> fs_exists fs expanded then Ok default_client_config
      else and_then (fs_read fs expanded) from_toml)"

text \<open>What \<open>save\<close> does to the file system, in order, up to the first failure.\<close>

datatype fs_effect = MkDirs str | WriteFile str str | SetMode str nat

definition save_client_config ::
  "file_system \<Rightarrow> (client_config \<Rightarrow> (str, str) result) \<Rightarrow> client_config \<Rightarrow> str \<Rightarrow> (str, unit) result \<times> fs_effect list" where
  "save_client_config fs to_toml c path =
     (let expanded = expand_tilde (fs_home fs) path;
          dirs = (case fs_parent fs expanded of Some d \<Rightarrow> [MkDirs d] | None \<Rightarrow> [])
      in case (case fs_parent fs expanded of Some d \<Rightarrow> fs_mkdirs fs d | None \<Rightarrow> Ok ()) of
           Inl e \<Rightarrow> (Err e, [])
         | Inr _ \<Rightarrow>
             (case to_toml c of
                Inl e \<Rightarrow> (Err e, dirs)
              | Inr content \<Rightarrow>
                  (case fs_write fs expanded of
                     Inl e \<Rightarrow> (Err e, dirs)
                   | Inr _ \<Rightarrow>
                       (case fs_chmod fs expanded of
                          Inl e \<Rightarrow> (Err e, dirs @ [WriteFile expanded content])
                        | Inr _ \<Rightarrow> (Ok (), dirs @ [WriteFile expanded content, SetMode expanded 384])))))"

section \<open>The command line\<close>

datatype command =
    CmdHttp port "str option" "basic_auth_config option" bool "str option" port
  | CmdHttps port "str option" "basic_auth_config option"
  | CmdTcp port "port option"
  | CmdConfig
  | CmdAuthtoken str

record cli =
  cli_config :: str
  cli_server :: "str option"
  cli_insecure :: bool
  cli_command :: command

definition parse_basic_auth :: "str \<Rightarrow> (str, basic_auth_config) result" where
  "parse_basic_auth v =
     (case split_once '':'' v of
        None \<Rightarrow> Err (''basic auth must use USER:PASSWORD format (password may contain '' @ [CHR 0x27] @ '':'' @ [CHR 0x27] @ '')'')
      | Some (user, pass) \<Rightarrow>
          (if user = [] then Err ''basic auth username must not be empty''
           else if pass = [] then Err ''basic auth password must not be empty''
           else Ok \<lparr>username = user, password = pass\<rparr>))"

section \<open>Overrides\<close>

definition validate_transport_overrides :: "str option \<Rightarrow> bool \<Rightarrow> (str, unit) result" where
  "validate_transport_overrides server insecure =
     (if insecure \<and> (case server of None \<Rightarrow> False
          | Some sv \<Rightarrow> (case split_once ''://'' sv of None \<Rightarrow> False | Some (scheme, _) \<Rightarrow> eq_ignore_ascii_case scheme ''wss''))
      then Err ''--insecure conflicts with an explicit wss:// --server address'' else Ok ())"

definition quoted :: "str \<Rightarrow> str" where
  "quoted x = [CHR 0x27] @ x @ [CHR 0x27]"

definition parse_server_port :: "str \<Rightarrow> str \<Rightarrow> (str, port) result" where
  "parse_server_port p server =
     (if p = [] then Err (''Invalid server address '' @ quoted server @ '': port is empty'')
      else (case parse_u16 p of
          None \<Rightarrow> Err (''Invalid server port '' @ quoted p @ '' in '' @ quoted server @ '': expected 1-65535'')
        | Some n \<Rightarrow>
            (if n = 0 then Err (''Invalid server port '' @ quoted ''0'' @ '' in '' @ quoted server @ '': expected 1-65535'')
             else Ok n)))"

text \<open>The scheme of the address, in lower case, and the rest.\<close>

definition split_scheme :: "str \<Rightarrow> (str, str option \<times> str) result" where
  "split_scheme server =
     (case split_once ''://'' server of
        None \<Rightarrow> Ok (None, server)
      | Some (scheme, authority) \<Rightarrow>
          (let scheme = to_ascii_lowercase scheme in
           if scheme \<noteq> ''ws'' \<and> scheme \<noteq> ''wss''
           then Err (''Unsupported server URL scheme '' @ quoted scheme @ ''; use ws:// or wss://'')
           else Ok (Some scheme, authority)))"

definition invalid_server :: "str \<Rightarrow> str \<Rightarrow> str" where
  "invalid_server server why = ''Invalid server address '' @ quoted server @ why"

definition split_host_port :: "str \<Rightarrow> str \<Rightarrow> (str, str \<times> port option) result" where
  "split_host_port server authority =
     (case strip_prefix ''['' authority of
        Some bracketed \<Rightarrow>
          (case split_once '']'' bracketed of
             None \<Rightarrow> Err (''Invalid IPv6 server address '' @ quoted server @ '': missing '' @ quoted '']'')
           | Some (host, remainder) \<Rightarrow>
               (if host = [] then Err (invalid_server server '': host is empty'')
                else if remainder = [] then Ok (host, None)
                else (case strip_prefix '':'' remainder of
                    Some p \<Rightarrow> and_then (parse_server_port p server) (\<lambda>n. Ok (host, Some n))
                  | None \<Rightarrow> Err (invalid_server server '': unexpected text after IPv6 host''))))
      | None \<Rightarrow>
          (if count_list authority (CHR '':'') > 1 then
             Err (invalid_server server ('': IPv6 addresses must be enclosed in '' @ quoted ''['' @ '' and '' @ quoted '']''))
           else (case rsplit_once (CHR '':'') authority of
               Some (host, p) \<Rightarrow>
                 (if host = [] then Err (invalid_server server '': host is empty'')
                  else and_then (parse_server_port p server) (\<lambda>n. Ok (host, Some n)))
             | None \<Rightarrow> Ok (authority, None))))"

definition apply_server_override :: "client_config \<Rightarrow> str \<Rightarrow> (str, client_config) result" where
  "apply_server_override c server =
     and_then (split_scheme server) (\<lambda>(scheme, authority).
       if authority = [] \<or> CHR ''/'' \<in> set authority \<or> CHR ''?'' \<in> set authority \<or> CHR ''#'' \<in> set authority
       then Err (invalid_server server ''; expected host[:port] or ws[s]://host[:port]'')
       else and_then (split_host_port server authority) (\<lambda>(host, p).
         Ok (c\<lparr>cc_server := (cc_server c)\<lparr>cs_host := host,
            cs_port := (case p of Some n \<Rightarrow> n | None \<Rightarrow> cs_port (cc_server c)),
            cs_insecure := (case scheme of Some x \<Rightarrow> x = ''ws'' | None \<Rightarrow> cs_insecure (cc_server c))\<rparr>\<rparr>)))"

section \<open>The commands\<close>

record tunnel_config =
  tc_local_port :: port
  tc_tunnel_type :: tunnel_type
  tc_subdomain :: "str option"
  tc_basic_auth :: "basic_auth_config option"
  tc_options :: tunnel_options
  tc_inspect_port :: port

datatype client_action = RunTunnel client_config tunnel_config | PrintConfig client_config | SaveToken client_config str

text \<open>The configuration a command works with: the file, then the overrides.\<close>

definition effective_config :: "cli \<Rightarrow> client_config \<Rightarrow> (str, client_config) result" where
  "effective_config a c =
     and_then (validate_transport_overrides (cli_server a) (cli_insecure a)) (\<lambda>_.
     and_then (case cli_server a of Some sv \<Rightarrow> apply_server_override c sv | None \<Rightarrow> Ok c) (\<lambda>c1.
       Ok (if cli_insecure a then c1\<lparr>cc_server := (cc_server c1)\<lparr>cs_insecure := True\<rparr>\<rparr> else c1)))"

fun tunnel_of :: "command \<Rightarrow> client_config \<Rightarrow> tunnel_config option" where
  "tunnel_of (CmdHttp p sub auth no_inspect host_hdr ui) c =
     Some \<lparr>tc_local_port = p, tc_tunnel_type = Http, tc_subdomain = sub, tc_basic_auth = auth,
       tc_options = \<lparr>host_header = host_hdr, inspect_on = (\<not> no_inspect \<and> ds_inspect (cc_defaults c)), response_header = []\<rparr>,
       tc_inspect_port = (if no_inspect then 0 else ui)\<rparr>"
| "tunnel_of (CmdHttps p sub auth) c =
     Some \<lparr>tc_local_port = p, tc_tunnel_type = Https, tc_subdomain = sub, tc_basic_auth = auth,
       tc_options = \<lparr>host_header = None, inspect_on = ds_inspect (cc_defaults c), response_header = []\<rparr>,
       tc_inspect_port = inspect_port (cc_defaults c)\<rparr>"
| "tunnel_of (CmdTcp p remote) c =
     Some \<lparr>tc_local_port = p, tc_tunnel_type = Tcp remote, tc_subdomain = None, tc_basic_auth = None,
       tc_options = default_tunnel_options, tc_inspect_port = 0\<rparr>"
| "tunnel_of CmdConfig c = None"
| "tunnel_of (CmdAuthtoken tok) c = None"

definition client_main :: "cli \<Rightarrow> (str, client_config) result \<Rightarrow> (str, client_action) result" where
  "client_main a loaded =
     and_then loaded (\<lambda>c0. and_then (effective_config a c0) (\<lambda>c.
       (case cli_command a of
          CmdConfig \<Rightarrow> Ok (PrintConfig c)
        | CmdAuthtoken tok \<Rightarrow> Ok (SaveToken (c\<lparr>cc_token := tok\<rparr>) (cli_config a))
        | cmd \<Rightarrow> (case tunnel_of cmd c of Some t \<Rightarrow> Ok (RunTunnel c t) | None \<Rightarrow> Ok (PrintConfig c)))))"

end
