(* ===== verification/Client_Tunnel.thy ===== *)
theory Client_Tunnel
  imports Client_Config Proto_Transport
begin

text \<open>
  \<open>tunnel.rs\<close> of the client: connecting with retries, the handshake, the session loop, the
  reconnect loop around them as rounds, and the data streams; the tasks of a session are in
  \<open>Client_Session\<close>. What the network and the other tasks do is
  input: the outcome of each connection attempt, the answers of the server, the events a
  \<open>select!\<close> picks. Delays are in seconds.
\<close>

definition INITIAL_RECONNECT_DELAY :: nat where "INITIAL_RECONNECT_DELAY = 1"
definition MAX_RECONNECT_DELAY :: nat where "MAX_RECONNECT_DELAY = 60"
definition MAX_CONNECT_ATTEMPTS :: nat where "MAX_CONNECT_ATTEMPTS = 10"
definition STABLE_SESSION_THRESHOLD :: nat where "STABLE_SESSION_THRESHOLD = 30"
definition MAX_CONTROL_MESSAGE_BYTES :: nat where "MAX_CONTROL_MESSAGE_BYTES = 1048576"

datatype session_failure = Transient str | Permanent str

datatype session_exit = Disconnected | Shutdown

section \<open>Backoff\<close>

record reconnect_backoff =
  bo_next :: nat
  bo_max :: nat

definition default_backoff :: reconnect_backoff where
  "default_backoff = \<lparr>bo_next = INITIAL_RECONNECT_DELAY, bo_max = MAX_RECONNECT_DELAY\<rparr>"

definition next_delay :: "reconnect_backoff \<Rightarrow> nat \<times> reconnect_backoff" where
  "next_delay b = (bo_next b, b\<lparr>bo_next := min (bo_next b * 2) (bo_max b)\<rparr>)"

definition reset_backoff :: "reconnect_backoff \<Rightarrow> reconnect_backoff" where
  "reset_backoff b = b\<lparr>bo_next := INITIAL_RECONNECT_DELAY\<rparr>"

section \<open>Configuration checks\<close>

definition validate_client_config :: "client_config \<Rightarrow> (str, unit) result" where
  "validate_client_config c =
     (if cc_token c = [] then Err ''No auth token configured. Run: rgrok authtoken <your-token>''
      else if trim (cs_host (cc_server c)) = [] then Err ''Server host cannot be empty''
      else if cs_port (cc_server c) = 0 then Err ''Server port cannot be zero''
      else Ok ())"

definition server_websocket_url :: "client_config \<Rightarrow> (str, str) result" where
  "server_websocket_url c =
     (let h = cs_host (cc_server c) in
      if h = [] \<or> contains ''://'' h \<or> CHR ''/'' \<in> set h \<or> CHR ''?'' \<in> set h \<or> CHR ''#'' \<in> set h
      then Err (''Invalid server host '' @ quoted h @ ''; configure a hostname or IP address without a URL scheme'')
      else (let host = (if CHR '':'' \<in> set h \<and> \<not> starts_with ''['' h then ''['' @ h @ '']'' else h);
                scheme = (if cs_insecure (cc_server c) then ''ws'' else ''wss'')
            in Ok (scheme @ ''://'' @ host @ '':'' @ show_nat (cs_port (cc_server c)) @ ''/tunnel'')))"

section \<open>Connecting\<close>

text \<open>What ends an attempt, and whether the shutdown interrupts the wait after it.\<close>

datatype 'ws attempt = AttemptShutdown | Connected 'ws | AttemptFailed str

text \<open>The result with the delays waited for; \<open>None\<close> is the \<open>unreachable!\<close> after the loop.\<close>

function connect_loop ::
  "(nat \<Rightarrow> 'ws attempt) \<Rightarrow> (nat \<Rightarrow> bool) \<Rightarrow> str \<Rightarrow> nat \<Rightarrow> reconnect_backoff \<Rightarrow>
   (str, 'ws option) result option \<times> nat list" where
  "connect_loop outcome interrupted url attempt b =
     (if attempt > MAX_CONNECT_ATTEMPTS then (None, [])
      else (case outcome attempt of
          AttemptShutdown \<Rightarrow> (Some (Ok None), [])
        | Connected ws \<Rightarrow> (Some (Ok (Some ws)), [])
        | AttemptFailed e \<Rightarrow>
            (if attempt = MAX_CONNECT_ATTEMPTS then
               (Some (Err (''Cannot reach server at '' @ url @ '' after '' @ show_nat MAX_CONNECT_ATTEMPTS @ '' attempts: '' @ e)), [])
             else (case next_delay b of (delay, b1) \<Rightarrow>
               (if interrupted attempt then (Some (Ok None), [delay])
                else (case connect_loop outcome interrupted url (attempt + 1) b1 of (r, ds) \<Rightarrow> (r, delay # ds)))))))"
  by pat_completeness auto
termination by (relation "measure (\<lambda>(_, _, _, attempt, _). MAX_CONNECT_ATTEMPTS + 1 - attempt)") auto

declare connect_loop.simps [simp del]

definition connect_with_retry_inner ::
  "(nat \<Rightarrow> 'ws attempt) \<Rightarrow> (nat \<Rightarrow> bool) \<Rightarrow> str \<Rightarrow> (str, 'ws option) result option \<times> nat list" where
  "connect_with_retry_inner outcome interrupted url = connect_loop outcome interrupted url 1 default_backoff"

section \<open>The handshake\<close>

record tunnel_registration =
  tr_public_url :: str
  tr_tunnel_type :: tunnel_type

fun classify_auth_response :: "server_msg \<Rightarrow> (session_failure, str) result" where
  "classify_auth_response (SAuthOk sid) = Ok sid"
| "classify_auth_response (SAuthErr reason) = Err (Permanent (''Authentication failed: '' @ reason))"
| "classify_auth_response _ = Err (Permanent ''Unexpected server response during auth'')"

fun classify_registration_response :: "server_msg \<Rightarrow> (session_failure, tunnel_registration) result" where
  "classify_registration_response (STunnelAck i url tt) = Ok \<lparr>tr_public_url = url, tr_tunnel_type = tt\<rparr>"
| "classify_registration_response (SError code message) =
     (if code \<ge> 500 \<or> code = 409 \<or> code = 429
      then Err (Transient (''Tunnel creation temporarily failed ('' @ show_nat code @ ''): '' @ message))
      else Err (Permanent (''Tunnel creation failed ('' @ show_nat code @ ''): '' @ message)))"
| "classify_registration_response _ = Err (Permanent ''Unexpected server response during tunnel registration'')"

text \<open>
  How each step of the handshake ends; a read that takes 30 seconds is \<open>Elapsed\<close>. An error shows
  as its outermost context, like an \<open>anyhow::Error\<close>.
\<close>

record handshake_env =
  hs_open :: "(str, unit) result"
  hs_write_auth :: "(str, unit) result"
  hs_auth :: "(str, server_msg) result timed"
  hs_uuid :: str
  hs_write_request :: "(str, unit) result"
  hs_registration :: "(str, server_msg) result timed"

definition await_response :: "str \<Rightarrow> str \<Rightarrow> (str, server_msg) result timed \<Rightarrow> (session_failure, server_msg) result" where
  "await_response late failed r = (case r of
     Elapsed \<Rightarrow> Err (Transient late)
   | Completed (Inl e) \<Rightarrow> Err (Transient failed)
   | Completed (Inr m) \<Rightarrow> Ok m)"

definition transiently :: "(str \<Rightarrow> str) \<Rightarrow> (str, unit) result \<Rightarrow> (session_failure, unit) result" where
  "transiently failed r = (case r of Inl e \<Rightarrow> Err (Transient (failed e)) | Inr _ \<Rightarrow> Ok ())"

definition auth_message :: "client_config \<Rightarrow> client_msg" where
  "auth_message c = CAuth (cc_token c) CONTROL_PROTOCOL_VERSION"

definition request_message :: "str \<Rightarrow> tunnel_config \<Rightarrow> client_msg" where
  "request_message i t = CTunnelRequest i (tc_tunnel_type t) (tc_subdomain t) (tc_basic_auth t) (tc_options t)"

text \<open>The messages written, and the registration.\<close>

definition authenticate_and_register ::
  "handshake_env \<Rightarrow> client_config \<Rightarrow> tunnel_config \<Rightarrow> client_msg list \<times> (session_failure, tunnel_registration) result" where
  "authenticate_and_register env c t =
     (case transiently (\<lambda>e. ''Failed to open control stream: '' @ e) (hs_open env) of
        Inl e \<Rightarrow> ([], Err e)
      | Inr _ \<Rightarrow>
     (case transiently (\<lambda>e. ''Failed to send authentication'') (hs_write_auth env) of
        Inl e \<Rightarrow> ([], Err e)
      | Inr _ \<Rightarrow>
     (case and_then (await_response ''Timed out awaiting authentication response''
             ''Failed to read authentication response'' (hs_auth env)) classify_auth_response of
        Inl e \<Rightarrow> ([auth_message c], Err e)
      | Inr sid \<Rightarrow>
     (case transiently (\<lambda>e. ''Failed to register tunnel'') (hs_write_request env) of
        Inl e \<Rightarrow> ([auth_message c], Err e)
      | Inr _ \<Rightarrow>
          ([auth_message c, request_message (hs_uuid env) t],
           and_then (await_response ''Timed out awaiting tunnel registration response''
             ''Failed to read tunnel registration response'' (hs_registration env)) classify_registration_response)))))"

section \<open>The session loop\<close>

datatype session_event =
    EvShutdown
  | EvServer "server_msg option"
  | EvControlDone
  | EvInbound bool
  | EvDriverStopped
  | EvProxyDone nat

text \<open>The proxy tasks running, by number, with their correlation ids, and how the loop ended.\<close>

record session_state =
  proxy_tasks :: "(nat \<times> correlation_id) list"
  opened :: "correlation_id list"
  logged_errors :: "(nat \<times> str) list"
  session_end :: "session_exit option"

definition session_start :: session_state where
  "session_start = \<lparr>proxy_tasks = [], opened = [], logged_errors = [], session_end = None\<rparr>"

fun on_server_msg :: "server_msg \<Rightarrow> session_state \<Rightarrow> session_state" where
  "on_server_msg (SStreamOpen cid tid) x =
     x\<lparr>proxy_tasks := proxy_tasks x @ [(length (opened x), cid)], opened := opened x @ [cid]\<rparr>"
| "on_server_msg (SError code message) x = x\<lparr>logged_errors := logged_errors x @ [(code, message)]\<rparr>"
| "on_server_msg _ x = x"

fun session_step :: "session_event \<Rightarrow> session_state \<Rightarrow> session_state" where
  "session_step ev x =
     (if session_end x \<noteq> None then x
      else (case ev of
          EvShutdown \<Rightarrow> x\<lparr>session_end := Some Shutdown\<rparr>
        | EvServer None \<Rightarrow> x\<lparr>session_end := Some Disconnected\<rparr>
        | EvServer (Some m) \<Rightarrow> on_server_msg m x
        | EvControlDone \<Rightarrow> x\<lparr>session_end := Some Disconnected\<rparr>
        | EvInbound True \<Rightarrow> x
        | EvInbound False \<Rightarrow> x\<lparr>session_end := Some Disconnected\<rparr>
        | EvDriverStopped \<Rightarrow> x\<lparr>session_end := Some Disconnected\<rparr>
        | EvProxyDone n \<Rightarrow> x\<lparr>proxy_tasks := filter (\<lambda>(i, _). i \<noteq> n) (proxy_tasks x)\<rparr>))"

text \<open>The heartbeat task: \<open>n\<close> ticks.\<close>

definition heartbeats :: "nat \<Rightarrow> client_msg list" where
  "heartbeats n = map CPing [1..<Suc n]"

text \<open>
  \<open>run_control_io\<close>: frames in, messages out. A frame of the codec is decoded or not; the codec
  refuses a message of more than 1 MiB.
\<close>

datatype control_io_event = FrameIn "(str, bytes) result" | FrameEnd | OutMsg client_msg | OutClosed

record control_io =
  io_received :: "server_msg list"
  io_sent :: "bytes list"
  io_result :: "(str, unit) result option"

definition control_io_start :: control_io where
  "control_io_start = \<lparr>io_received = [], io_sent = [], io_result = None\<rparr>"

fun control_io_step ::
  "(bytes \<Rightarrow> (str, server_msg) result) \<Rightarrow> (client_msg \<Rightarrow> (str, bytes) result) \<Rightarrow> (nat \<Rightarrow> bool) \<Rightarrow>
   (bytes \<Rightarrow> (str, unit) result) \<Rightarrow> control_io_event \<Rightarrow> control_io \<Rightarrow> control_io" where
  "control_io_step decode encode receiver_alive send ev x =
     (if io_result x \<noteq> None then x
      else (case ev of
          FrameEnd \<Rightarrow> x\<lparr>io_result := Some (Err ''control stream closed'')\<rparr>
        | FrameIn (Inl e) \<Rightarrow> x\<lparr>io_result := Some (Err e)\<rparr>
        | FrameIn (Inr frame) \<Rightarrow>
            (case decode frame of
               Inl e \<Rightarrow> x\<lparr>io_result := Some (Err e)\<rparr>
             | Inr m \<Rightarrow>
                 (if receiver_alive (length (io_received x)) then x\<lparr>io_received := io_received x @ [m]\<rparr>
                  else x\<lparr>io_result := Some (Ok ())\<rparr>))
        | OutClosed \<Rightarrow> x\<lparr>io_result := Some (Ok ())\<rparr>
        | OutMsg m \<Rightarrow>
            (case encode m of
               Inl e \<Rightarrow> x\<lparr>io_result := Some (Err e)\<rparr>
             | Inr b \<Rightarrow>
                 (if length b > MAX_CONTROL_MESSAGE_BYTES then x\<lparr>io_result := Some (Err ''frame size too big'')\<rparr>
                  else (case send b of
                      Inl e \<Rightarrow> x\<lparr>io_result := Some (Err e)\<rparr>
                    | Inr _ \<Rightarrow> x\<lparr>io_sent := io_sent x @ [b]\<rparr>)))))"

section \<open>Pinning the endpoint\<close>

definition assigned_subdomain_from_url :: "str \<Rightarrow> str option" where
  "assigned_subdomain_from_url url =
     (case split_once ''://'' url of
        None \<Rightarrow> None
      | Some (_, rest) \<Rightarrow>
          (let authority = hd (split_on (CHR ''/'') rest);
               host = hd (split_on (CHR '':'') authority);
               subdomain = trim (hd (split_on (CHR ''.'') host))
           in if subdomain = [] then None else Some subdomain))"

definition assigned_tcp_port_from_url :: "str \<Rightarrow> port option" where
  "assigned_tcp_port_from_url url =
     (case split_once ''://'' url of
        None \<Rightarrow> None
      | Some (_, rest) \<Rightarrow>
          (case rsplit_once (CHR '':'') (hd (split_on (CHR ''/'') rest)) of
             None \<Rightarrow> None
           | Some (_, p) \<Rightarrow> parse_u16 p))"

definition pin_assigned_endpoint :: "tunnel_config \<Rightarrow> tunnel_registration \<Rightarrow> tunnel_config" where
  "pin_assigned_endpoint t reg =
     (case tc_tunnel_type t of
        Tcp None \<Rightarrow> t\<lparr>tc_tunnel_type := Tcp (case tr_tunnel_type reg of
            Tcp (Some p) \<Rightarrow> Some p
          | _ \<Rightarrow> assigned_tcp_port_from_url (tr_public_url reg))\<rparr>
      | Tcp (Some p) \<Rightarrow> t
      | _ \<Rightarrow> (if tc_subdomain t = None then t\<lparr>tc_subdomain := assigned_subdomain_from_url (tr_public_url reg)\<rparr> else t))"

section \<open>The reconnect loop\<close>

text \<open>
  One round: how establishing a session ended (it depends on the tunnel asked for), whether the
  shutdown interrupts the wait after the round, how the session ended and how long it lasted.
\<close>

record 'ws round =
  rd_establish :: "tunnel_config \<Rightarrow> (session_failure, ('ws \<times> tunnel_registration) option) result"
  rd_exit :: session_exit
  rd_elapsed :: nat
  rd_interrupted :: bool

record client_state =
  cl_backoff :: reconnect_backoff
  cl_tunnel :: tunnel_config
  cl_announced :: "str option"
  cl_delays :: "nat list"
  cl_result :: "(str, unit) result option"

definition client_start :: "tunnel_config \<Rightarrow> client_state" where
  "client_start t = \<lparr>cl_backoff = default_backoff, cl_tunnel = t, cl_announced = None, cl_delays = [], cl_result = None\<rparr>"

definition wait_round :: "bool \<Rightarrow> client_state \<Rightarrow> client_state" where
  "wait_round interrupted x =
     (case next_delay (cl_backoff x) of (delay, b) \<Rightarrow>
        x\<lparr>cl_backoff := b, cl_delays := cl_delays x @ [delay],
          cl_result := (if interrupted then Some (Ok ()) else None)\<rparr>)"

definition run_round :: "'ws round \<Rightarrow> client_state \<Rightarrow> client_state" where
  "run_round rd x =
     (if cl_result x \<noteq> None then x
      else (case rd_establish rd (cl_tunnel x) of
          Inl (Permanent e) \<Rightarrow> x\<lparr>cl_result := Some (Err e)\<rparr>
        | Inl (Transient e) \<Rightarrow> wait_round (rd_interrupted rd) x
        | Inr None \<Rightarrow> x\<lparr>cl_result := Some (Ok ())\<rparr>
        | Inr (Some (ws, reg)) \<Rightarrow>
            (let x1 = x\<lparr>cl_tunnel := pin_assigned_endpoint (cl_tunnel x) reg,
                   cl_announced := (case cl_announced x of None \<Rightarrow> Some (tr_public_url reg) | Some u \<Rightarrow> Some u)\<rparr>
             in case rd_exit rd of
                  Shutdown \<Rightarrow> x1\<lparr>cl_result := Some (Ok ())\<rparr>
                | Disconnected \<Rightarrow>
                    wait_round (rd_interrupted rd)
                      (if rd_elapsed rd \<ge> STABLE_SESSION_THRESHOLD
                       then x1\<lparr>cl_backoff := reset_backoff (cl_backoff x1)\<rparr> else x1))))"

text \<open>\<open>run\<close> up to any number of rounds; without a result the loop goes on.\<close>

definition run_client :: "client_config \<Rightarrow> tunnel_config \<Rightarrow> 'ws round list \<Rightarrow> (str, client_state) result" where
  "run_client c t rounds =
     and_then (validate_client_config c) (\<lambda>_.
     and_then (server_websocket_url c) (\<lambda>url. Ok (fold run_round rounds (client_start t))))"

section \<open>A data stream\<close>

record log_entry =
  le_method :: str
  le_url :: str
  le_status :: nat
  le_duration_ms :: nat

text \<open>
  The bytes written before the bridge, the bridge's result and the dashboard entry; opening the
  stream, writing, connecting and the bridge are inputs.
\<close>

definition open_proxy_stream ::
  "(str, unit) result \<Rightarrow> (str, unit) result \<Rightarrow> (str, unit) result \<Rightarrow> (str, unit) result \<Rightarrow> nat \<Rightarrow> correlation_id \<Rightarrow> port \<Rightarrow>
   bytes \<times> (str, unit) result \<times> log_entry option" where
  "open_proxy_stream opens writes connects bridge ms cid local_port =
     (case opens of
        Inl e \<Rightarrow> ([], Err (''Failed to open yamux stream: '' @ e), None)
      | Inr _ \<Rightarrow>
          (case writes of
             Inl e \<Rightarrow> ([], Err e, None)
           | Inr _ \<Rightarrow>
               (case connects of
                  Inl e \<Rightarrow> (u32_to_be cid, Err e, None)
                | Inr _ \<Rightarrow> (u32_to_be cid, bridge,
                    Some \<lparr>le_method = ''GET'', le_url = ''localhost:'' @ show_nat local_port,
                      le_status = (if is_ok bridge then 200 else 502), le_duration_ms = ms\<rparr>))))"

end
