(* ===== verification/Client_Properties.thy ===== *)
theory Client_Properties
  imports Client_Tunnel
begin

text \<open>
  What the client guarantees: bounded and growing delays, a connection phase that always ends, a
  run that stops only for a shutdown or a permanent failure, a control URL that is plaintext only
  on request, and command lines whose credentials a browser can use.
\<close>

section \<open>Delays\<close>

lemma next_delay_default:
  assumes "bo_next b = min (2 ^ k) MAX_RECONNECT_DELAY" "bo_max b = MAX_RECONNECT_DELAY"
  shows "fst (next_delay b) = min (2 ^ k) MAX_RECONNECT_DELAY"
    "bo_next (snd (next_delay b)) = min (2 ^ Suc k) MAX_RECONNECT_DELAY" "bo_max (snd (next_delay b)) = MAX_RECONNECT_DELAY"
  using assms by (auto simp: next_delay_def min_def MAX_RECONNECT_DELAY_def)

definition backoff_at :: "nat \<Rightarrow> reconnect_backoff \<Rightarrow> bool" where
  "backoff_at k b \<longleftrightarrow> bo_next b = min (2 ^ k) MAX_RECONNECT_DELAY \<and> bo_max b = MAX_RECONNECT_DELAY"

lemma backoff_start: "backoff_at 0 default_backoff"
  by (simp add: backoff_at_def default_backoff_def INITIAL_RECONNECT_DELAY_def MAX_RECONNECT_DELAY_def)

lemma backoff_step: "backoff_at k b \<Longrightarrow> next_delay b = (min (2 ^ k) MAX_RECONNECT_DELAY, snd (next_delay b)) \<and> backoff_at (Suc k) (snd (next_delay b))"
  using next_delay_default [of b k] unfolding backoff_at_def by (metis prod.collapse)

lemma backoff_reset: "bo_max b = MAX_RECONNECT_DELAY \<Longrightarrow> backoff_at 0 (reset_backoff b)"
  by (simp add: backoff_at_def reset_backoff_def INITIAL_RECONNECT_DELAY_def MAX_RECONNECT_DELAY_def)

definition delays_from :: "nat \<Rightarrow> nat \<Rightarrow> nat list" where
  "delays_from k n = map (\<lambda>i. min (2 ^ i) MAX_RECONNECT_DELAY) [k..<k + n]"

lemma delays_from_Cons: "min (2 ^ k) MAX_RECONNECT_DELAY # delays_from (Suc k) n = delays_from k (Suc n)"
  by (simp add: delays_from_def upt_conv_Cons del: upt.simps)

lemma delays_from_1: "delays_from k (Suc 0) = [min (2 ^ k) MAX_RECONNECT_DELAY]"
  by (simp add: delays_from_def)

section \<open>Connecting ends\<close>

lemma connect_loop_outcome:
  assumes "backoff_at (a - 1) b" "1 \<le> a" "a \<le> MAX_CONNECT_ATTEMPTS"
  shows "\<exists>r n. connect_loop outcome interrupted url a b = (Some r, delays_from (a - 1) n) \<and>
    a + n \<le> MAX_CONNECT_ATTEMPTS \<and>
    (\<forall>i\<in>{a..<a + n}. \<exists>e. outcome i = AttemptFailed e) \<and>
    (case r of
       Inl _ \<Rightarrow> a + n = MAX_CONNECT_ATTEMPTS \<and> (\<exists>e. outcome (a + n) = AttemptFailed e)
     | Inr (Some ws) \<Rightarrow> outcome (a + n) = Connected ws
     | Inr None \<Rightarrow> outcome (a + n) = AttemptShutdown \<or> (0 < n \<and> interrupted (a + n - 1)))"
  using assms
proof (induction "MAX_CONNECT_ATTEMPTS - a" arbitrary: a b rule: less_induct)
  case less
  show ?case
  proof (cases "outcome a")
    case AttemptShutdown
    then show ?thesis using less.prems
      by (intro exI [of _ "Ok None"] exI [of _ 0]) (simp add: connect_loop.simps delays_from_def)
  next
    case (Connected ws)
    then show ?thesis using less.prems
      by (intro exI [of _ "Ok (Some ws)"] exI [of _ 0]) (simp add: connect_loop.simps delays_from_def)
  next
    case (AttemptFailed e)
    note step = backoff_step [OF less.prems(1)]
    show ?thesis
    proof (cases "a = MAX_CONNECT_ATTEMPTS")
      case True
      have "\<exists>m. connect_loop outcome interrupted url a b = (Some (Err m), [])"
        using AttemptFailed True by (simp add: connect_loop.simps)
      then obtain m where "connect_loop outcome interrupted url a b = (Some (Err m), [])" by blast
      then show ?thesis using AttemptFailed True
        by (intro exI [of _ "Err m"] exI [of _ 0]) (simp add: delays_from_def)
    next
      case False
      show ?thesis
      proof (cases "interrupted a")
        case True
        then show ?thesis using AttemptFailed False less.prems step
          by (intro exI [of _ "Ok None"] exI [of _ 1])
            (subst connect_loop.simps, auto simp: delays_from_1 split: prod.splits)
      next
        case no: False
        have "MAX_CONNECT_ATTEMPTS - Suc a < MAX_CONNECT_ATTEMPTS - a" using less.prems False by simp
        moreover have "backoff_at (Suc a - 1) (snd (next_delay b))" using step less.prems by (cases a) simp_all
        ultimately obtain r n where r: "connect_loop outcome interrupted url (Suc a) (snd (next_delay b)) = (Some r, delays_from a n)"
            "Suc a + n \<le> MAX_CONNECT_ATTEMPTS" "\<forall>i\<in>{Suc a..<Suc a + n}. \<exists>e. outcome i = AttemptFailed e"
            "case r of Inl _ \<Rightarrow> Suc a + n = MAX_CONNECT_ATTEMPTS \<and> (\<exists>e. outcome (Suc a + n) = AttemptFailed e)
              | Inr (Some ws) \<Rightarrow> outcome (Suc a + n) = Connected ws
              | Inr None \<Rightarrow> outcome (Suc a + n) = AttemptShutdown \<or> (0 < n \<and> interrupted (Suc a + n - 1))"
          using less.hyps [of "Suc a" "snd (next_delay b)"] less.prems False by auto
        have "connect_loop outcome interrupted url a b = (Some r, min (2 ^ (a - 1)) MAX_RECONNECT_DELAY # delays_from a n)"
          using AttemptFailed no False less.prems step r(1) by (subst connect_loop.simps) (auto split: prod.splits)
        moreover have "min (2 ^ (a - 1)) MAX_RECONNECT_DELAY # delays_from a n = delays_from (a - 1) (Suc n)"
          using delays_from_Cons [of "a - 1" n] less.prems(2) by simp
        moreover have "\<forall>i\<in>{a..<a + Suc n}. \<exists>e. outcome i = AttemptFailed e"
          using r(3) AttemptFailed by (auto simp: Suc_le_eq le_less)
        ultimately show ?thesis using r(2,4)
          by (intro exI [of _ r] exI [of _ "Suc n"]) (auto split: sum.splits option.splits)
      qed
    qed
  qed
qed

lemma total_delay: "n \<le> 9 \<Longrightarrow> sum_list (delays_from 0 n) \<le> 243"
proof -
  have "sum_list (delays_from 0 n) \<le> sum_list (delays_from 0 (n + m))" for m
    by (induction m) (auto simp: delays_from_def)
  moreover have "sum_list (delays_from 0 9) = 243" by (simp add: delays_from_def MAX_RECONNECT_DELAY_def upt_rec)
  moreover assume "n \<le> 9"
  ultimately show ?thesis by (metis le_add_diff_inverse)
qed

lemma connect_never_panics: "\<exists>r. fst (connect_with_retry_inner outcome interrupted url) = Some r"
  using connect_loop_outcome [of 1 default_backoff outcome interrupted url] backoff_start
  by (auto simp: connect_with_retry_inner_def MAX_CONNECT_ATTEMPTS_def)

text \<open>
  The connection phase ends. Whatever the network and the user do, it returns after at most
  ten attempts, having waited the delays 1, 2, 4, ... capped at 60 seconds, at most 243 in all; it
  returns the socket of the first attempt that succeeds, nothing when the shutdown came, and an
  error exactly when all ten attempts failed. The \<open>unreachable!\<close> after the loop is unreachable.
\<close>

theorem connect_bounded:
  "\<exists>r n. connect_with_retry_inner outcome interrupted url = (Some r, map (\<lambda>i. min (2 ^ i) 60) [0..<n]) \<and>
     n < 10 \<and> sum_list (map (\<lambda>i. min (2 ^ i) 60) [0..<n]) \<le> (243 :: nat) \<and>
     (\<forall>i\<in>{1..n}. \<exists>e. outcome i = AttemptFailed e) \<and>
     (case r of
        Inl _ \<Rightarrow> n = 9 \<and> (\<exists>e. outcome 10 = AttemptFailed e)
      | Inr (Some ws) \<Rightarrow> outcome (n + 1) = Connected ws
      | Inr None \<Rightarrow> outcome (n + 1) = AttemptShutdown \<or> (0 < n \<and> interrupted n))"
proof -
  have "backoff_at (1 - 1) default_backoff" "(1::nat) \<le> 1" "1 \<le> MAX_CONNECT_ATTEMPTS"
    by (simp_all add: backoff_start MAX_CONNECT_ATTEMPTS_def)
  from connect_loop_outcome [OF this, of outcome interrupted url] obtain r n
    where r: "connect_with_retry_inner outcome interrupted url = (Some r, delays_from 0 n)" "1 + n \<le> MAX_CONNECT_ATTEMPTS"
      "\<forall>i\<in>{1..<1 + n}. \<exists>e. outcome i = AttemptFailed e"
      "case r of Inl _ \<Rightarrow> 1 + n = MAX_CONNECT_ATTEMPTS \<and> (\<exists>e. outcome (1 + n) = AttemptFailed e)
        | Inr (Some ws) \<Rightarrow> outcome (1 + n) = Connected ws
        | Inr None \<Rightarrow> outcome (1 + n) = AttemptShutdown \<or> (0 < n \<and> interrupted (1 + n - 1))"
    unfolding connect_with_retry_inner_def by auto
  have "n \<le> 9" using r(2) by (simp add: MAX_CONNECT_ATTEMPTS_def)
  moreover have "{1..n} = {1..<1 + n}" by auto
  moreover have "delays_from 0 n = map (\<lambda>i. min (2 ^ i) 60) [0..<n]" by (simp add: delays_from_def MAX_RECONNECT_DELAY_def)
  ultimately show ?thesis using r total_delay [of n]
    by (intro exI [of _ r] exI [of _ n]) (auto simp: MAX_CONNECT_ATTEMPTS_def split: sum.splits option.splits)
qed

theorem connect_bounded_witness:
  "\<exists>e. connect_with_retry_inner (\<lambda>_. AttemptFailed ''refused'' :: nat attempt) (\<lambda>_. False) ''u'' =
     (Some (Err e), [1, 2, 4, 8, 16, 32, 60, 60, 60])"
proof -
  obtain r n where r: "connect_with_retry_inner (\<lambda>_. AttemptFailed ''refused'' :: nat attempt) (\<lambda>_. False) ''u'' =
      (Some r, map (\<lambda>i. min (2 ^ i) 60) [0..<n])"
    and c: "case r of Inl _ \<Rightarrow> n = 9 \<and> (\<exists>e. AttemptFailed ''refused'' = (AttemptFailed e :: nat attempt))
      | Inr (Some ws) \<Rightarrow> AttemptFailed ''refused'' = Connected ws
      | Inr None \<Rightarrow> AttemptFailed ''refused'' = (AttemptShutdown :: nat attempt) \<or> (0 < n \<and> False)"
    using connect_bounded [of "\<lambda>_. AttemptFailed ''refused'' :: nat attempt" "\<lambda>_. False" "''u''"] by blast
  obtain e where "r = Inl e" "n = 9" using c by (cases r) (auto split: option.splits)
  moreover have "map (\<lambda>i. min (2 ^ i) 60) [0..<9] = [1, 2, 4, 8, 16, 32, 60, 60, 60 :: nat]" by (simp add: upt_rec)
  ultimately show ?thesis using r by simp
qed

section \<open>The reconnect loop\<close>

text \<open>Delays stay between one second and a minute, and the number of the next delay is bounded by the rounds.\<close>

definition delays_ok :: "client_state \<Rightarrow> bool" where
  "delays_ok x \<longleftrightarrow> (\<exists>k. backoff_at k (cl_backoff x)) \<and> list_all (\<lambda>d. 1 \<le> d \<and> d \<le> MAX_RECONNECT_DELAY) (cl_delays x)"

lemma min_delay: "1 \<le> min (2 ^ k) MAX_RECONNECT_DELAY"
  by (simp add: MAX_RECONNECT_DELAY_def)

lemma wait_round_ok: "delays_ok x \<Longrightarrow> delays_ok (wait_round i x)"
  using backoff_step min_delay
  by (fastforce simp: delays_ok_def wait_round_def split: prod.splits)

lemma run_round_ok: "delays_ok x \<Longrightarrow> delays_ok (run_round rd x)"
proof -
  assume x: "delays_ok x"
  have reset: "delays_ok (x\<lparr>cl_tunnel := t, cl_announced := u, cl_backoff := reset_backoff (cl_backoff x)\<rparr>)" for t u
    using x backoff_reset unfolding delays_ok_def backoff_at_def by (auto intro: exI [of _ 0])
  have keep: "delays_ok (x\<lparr>cl_tunnel := t, cl_announced := u\<rparr>)" "delays_ok (x\<lparr>cl_result := r\<rparr>)"
    "delays_ok (x\<lparr>cl_tunnel := t, cl_announced := u, cl_result := r\<rparr>)" for t u r
    using x by (simp_all add: delays_ok_def)
  show ?thesis
    using x wait_round_ok keep wait_round_ok [OF reset]
    by (auto simp: run_round_def Let_def split: sum.splits session_failure.splits option.splits session_exit.splits)
qed

text \<open>What ends the client: a permanent failure, or a shutdown.\<close>

fun ends_with_error :: "'ws round \<Rightarrow> tunnel_config \<Rightarrow> str option" where
  "ends_with_error rd t = (case rd_establish rd t of Inl (Permanent e) \<Rightarrow> Some e | _ \<Rightarrow> None)"

definition shut_down :: "'ws round \<Rightarrow> tunnel_config \<Rightarrow> bool" where
  "shut_down rd t \<longleftrightarrow> (case rd_establish rd t of
      Inl (Permanent e) \<Rightarrow> False
    | Inl (Transient e) \<Rightarrow> rd_interrupted rd
    | Inr None \<Rightarrow> True
    | Inr (Some _) \<Rightarrow> rd_exit rd = Shutdown \<or> rd_interrupted rd)"

lemma run_round_result:
  assumes "cl_result x = None"
  shows "cl_result (run_round rd x) =
    (case ends_with_error rd (cl_tunnel x) of Some e \<Rightarrow> Some (Err e) | None \<Rightarrow>
       if shut_down rd (cl_tunnel x) then Some (Ok ()) else None)"
  using assms
  by (auto simp: run_round_def shut_down_def wait_round_def Let_def
      split: sum.splits session_failure.splits option.splits session_exit.splits prod.splits)

definition client_after :: "tunnel_config \<Rightarrow> 'ws round list \<Rightarrow> client_state" where
  "client_after t rounds = fold run_round rounds (client_start t)"

lemma client_after_snoc: "client_after t (rounds @ [rd]) = run_round rd (client_after t rounds)"
  by (simp add: client_after_def)

lemma client_after_Nil [simp]: "client_after t [] = client_start t"
  by (simp add: client_after_def)

interpretation reconnect_machine: event_machine run_round delays_ok
  by unfold_locales (rule run_round_ok)

lemma client_after_ok: "delays_ok (client_after t rounds)"
proof -
  have "delays_ok (client_start t)" using backoff_start by (auto simp: delays_ok_def client_start_def)
  then show ?thesis unfolding client_after_def by (rule reconnect_machine.run_keeps)
qed

lemma run_round_ended: "cl_result x \<noteq> None \<Longrightarrow> run_round rd x = x"
  by (simp add: run_round_def)

text \<open>The round that decides.\<close>

definition decides :: "tunnel_config \<Rightarrow> 'ws round list \<Rightarrow> 'ws round \<Rightarrow> (str, unit) result \<Rightarrow> bool" where
  "decides t pre rd res \<longleftrightarrow> cl_result (client_after t pre) = None \<and>
     (case ends_with_error rd (cl_tunnel (client_after t pre)) of
        Some e \<Rightarrow> res = Err e
      | None \<Rightarrow> shut_down rd (cl_tunnel (client_after t pre)) \<and> res = Ok ())"

lemma decides_step:
  "cl_result (client_after t pre) = None \<Longrightarrow> decides t pre rd res \<longleftrightarrow> cl_result (client_after t (pre @ [rd])) = Some res"
  unfolding decides_def client_after_snoc by (auto simp: run_round_result split: option.splits)

lemma client_result_iff:
  "cl_result (client_after t rounds) = Some res \<longleftrightarrow> (\<exists>i<length rounds. decides t (take i rounds) (rounds ! i) res)"
proof (induction rounds rule: rev_induct)
  case Nil
  then show ?case by (simp add: client_start_def)
next
  case (snoc rd rounds)
  have split: "(\<exists>i<length (rounds @ [rd]). decides t (take i (rounds @ [rd])) ((rounds @ [rd]) ! i) res) \<longleftrightarrow>
      (\<exists>i<length rounds. decides t (take i rounds) (rounds ! i) res) \<or> decides t rounds rd res"
  proof -
    let ?P = "\<lambda>i. decides t (take i (rounds @ [rd])) ((rounds @ [rd]) ! i) res"
    have "?P i = decides t (take i rounds) (rounds ! i) res" if "i < length rounds" for i
      using that by (simp add: nth_append)
    moreover have "?P (length rounds) = decides t rounds rd res" by simp
    moreover have "(\<exists>i<Suc (length rounds). ?P i) \<longleftrightarrow> (\<exists>i<length rounds. ?P i) \<or> ?P (length rounds)"
      by (metis less_Suc_eq)
    ultimately show ?thesis unfolding length_append_singleton by metis
  qed
  show ?case
  proof (cases "cl_result (client_after t rounds)")
    case None
    then show ?thesis using snoc unfolding split decides_step [OF None] by auto
  next
    case (Some r)
    then have "\<not> decides t rounds rd res" by (simp add: decides_def)
    moreover have "client_after t (rounds @ [rd]) = client_after t rounds"
      unfolding client_after_snoc by (rule run_round_ended) (simp add: Some)
    ultimately show ?thesis using snoc unfolding split by simp
  qed
qed

text \<open>
  C11: the client gives up only for a reason. Over any number of rounds of the reconnect loop it
  returns an error exactly when some round, reached without a result, failed permanently, and
  then with that error; it returns without one exactly when a shutdown ended a round or
  interrupted the wait after it; a transient failure or a lost session never ends it. Every delay
  it waits is between one second and one minute.
\<close>

theorem client_gives_up_only_for_a_reason:
  assumes "run_client c t rounds = Ok x"
  shows "(\<forall>res. cl_result x = Some res \<longleftrightarrow> (\<exists>i<length rounds.
        cl_result (client_after t (take i rounds)) = None \<and>
        (case rd_establish (rounds ! i) (cl_tunnel (client_after t (take i rounds))) of
           Inl (Permanent e) \<Rightarrow> res = Err e
         | Inl (Transient e) \<Rightarrow> rd_interrupted (rounds ! i) \<and> res = Ok ()
         | Inr None \<Rightarrow> res = Ok ()
         | Inr (Some _) \<Rightarrow> (rd_exit (rounds ! i) = Shutdown \<or> rd_interrupted (rounds ! i)) \<and> res = Ok ()))) \<and>
    list_all (\<lambda>d. 1 \<le> d \<and> d \<le> 60) (cl_delays x)"
proof -
  have x: "x = client_after t rounds" using assms by (auto simp: run_client_def and_then_Ok_iff client_after_def)
  have d: "decides t pre rd res \<longleftrightarrow> cl_result (client_after t pre) = None \<and>
      (case rd_establish rd (cl_tunnel (client_after t pre)) of
           Inl (Permanent e) \<Rightarrow> res = Err e
         | Inl (Transient e) \<Rightarrow> rd_interrupted rd \<and> res = Ok ()
         | Inr None \<Rightarrow> res = Ok ()
         | Inr (Some _) \<Rightarrow> (rd_exit rd = Shutdown \<or> rd_interrupted rd) \<and> res = Ok ())" for pre rd res
    by (auto simp: decides_def shut_down_def split: sum.splits session_failure.splits option.splits)
  have "list_all (\<lambda>d. 1 \<le> d \<and> d \<le> 60) (cl_delays x)"
    using client_after_ok [of t rounds] by (simp add: x delays_ok_def MAX_RECONNECT_DELAY_def)
  moreover have "\<forall>res. cl_result x = Some res \<longleftrightarrow> (\<exists>i<length rounds. decides t (take i rounds) (rounds ! i) res)"
    unfolding x client_result_iff by simp
  ultimately show ?thesis unfolding d by blast
qed

definition sample_client :: client_config where
  "sample_client = default_client_config\<lparr>cc_token := ''jwt''\<rparr>"

definition sample_tunnel :: tunnel_config where
  "sample_tunnel = \<lparr>tc_local_port = 3000, tc_tunnel_type = Http, tc_subdomain = None, tc_basic_auth = None,
     tc_options = default_tunnel_options, tc_inspect_port = 0\<rparr>"

definition failing_round :: "session_failure \<Rightarrow> nat round" where
  "failing_round f = \<lparr>rd_establish = (\<lambda>_. Err f), rd_exit = Disconnected, rd_elapsed = 0, rd_interrupted = False\<rparr>"

lemma sample_run:
  "\<exists>x. run_client sample_client sample_tunnel rounds = Ok x"
  by (auto simp: run_client_def validate_client_config_def server_websocket_url_def sample_client_def default_client_config_def
      default_port_def trim_all_graphic graphic_def byte_val_def starts_with_def Let_def)

theorem client_gives_up_only_for_a_reason_witness:
  "\<exists>x. run_client sample_client sample_tunnel [failing_round (Transient ''a''), failing_round (Permanent ''b'')] = Ok x \<and>
     cl_result x = Some (Err ''b'')"
proof -
  let ?rs = "[failing_round (Transient ''a''), failing_round (Permanent ''b'')]"
  obtain x where x: "run_client sample_client sample_tunnel ?rs = Ok x" using sample_run by blast
  have "cl_result (client_after sample_tunnel [failing_round (Transient ''a'')]) = None"
    by (simp add: client_after_def run_round_def failing_round_def wait_round_def client_start_def split: prod.splits)
  moreover have "cl_result x = Some (Err ''b'') \<longleftrightarrow> (\<exists>i<length ?rs.
        cl_result (client_after sample_tunnel (take i ?rs)) = None \<and>
        (case rd_establish (?rs ! i) (cl_tunnel (client_after sample_tunnel (take i ?rs))) of
           Inl (Permanent e) \<Rightarrow> Err ''b'' = (Err e :: (str, unit) result)
         | Inl (Transient e) \<Rightarrow> rd_interrupted (?rs ! i) \<and> Err ''b'' = Ok ()
         | Inr None \<Rightarrow> Err ''b'' = Ok ()
         | Inr (Some _) \<Rightarrow> (rd_exit (?rs ! i) = Shutdown \<or> rd_interrupted (?rs ! i)) \<and> Err ''b'' = Ok ()))"
    using client_gives_up_only_for_a_reason [OF x] by blast
  ultimately have "cl_result x = Some (Err ''b'')"
    by (auto intro!: exI [of _ 1] simp: failing_round_def)
  with x show ?thesis by blast
qed

section \<open>The control URL\<close>

text \<open>Where plaintext was asked for: the flag, a \<open>ws\<close> address, or the file when no scheme is given.\<close>

definition scheme_of :: "str option \<Rightarrow> str option" where
  "scheme_of server = (case server of None \<Rightarrow> None | Some sv \<Rightarrow> map_option fst (split_once ''://'' sv))"

definition plaintext_asked :: "cli \<Rightarrow> client_config \<Rightarrow> bool" where
  "plaintext_asked a c0 \<longleftrightarrow> cli_insecure a \<or>
     (case scheme_of (cli_server a) of Some sch \<Rightarrow> eq_ignore_ascii_case sch ''ws'' | None \<Rightarrow> cs_insecure (cc_server c0))"

lemma lower_ws: "to_ascii_lowercase ''ws'' = ''ws''" "to_ascii_lowercase ''wss'' = ''wss''"
  by (simp_all add: to_ascii_lowercase_def lower_char_def byte_val_def)

lemma override_insecure:
  assumes "apply_server_override c sv = Ok c1"
  shows "cs_insecure (cc_server c1) \<longleftrightarrow>
    (case scheme_of (Some sv) of Some sch \<Rightarrow> eq_ignore_ascii_case sch ''ws'' | None \<Rightarrow> cs_insecure (cc_server c))"
proof -
  have ws: "eq_ignore_ascii_case sch ''ws'' \<longleftrightarrow> to_ascii_lowercase sch = ''ws''" for sch
    by (simp add: eq_ignore_ascii_case_def lower_ws)
  show ?thesis
    using assms
    by (cases "split_once ''://'' sv")
      (auto simp: apply_server_override_def split_scheme_def scheme_of_def and_then_Ok_iff ws Let_def split: if_splits)
qed

lemma effective_insecure:
  assumes "effective_config a c0 = Ok c"
  shows "cs_insecure (cc_server c) \<longleftrightarrow> plaintext_asked a c0"
proof (cases "cli_server a")
  case None
  then show ?thesis using assms
    by (auto simp: effective_config_def and_then_Ok_iff plaintext_asked_def scheme_of_def split: if_splits)
next
  case (Some sv)
  then obtain c1 where c1: "apply_server_override c0 sv = Ok c1"
      "c = (if cli_insecure a then c1\<lparr>cc_server := (cc_server c1)\<lparr>cs_insecure := True\<rparr>\<rparr> else c1)"
    using assms by (auto simp: effective_config_def and_then_Ok_iff)
  show ?thesis using override_insecure [OF c1(1)] c1(2) Some by (auto simp: plaintext_asked_def)
qed

lemma effective_wss:
  assumes "effective_config a c0 = Ok c" "scheme_of (cli_server a) = Some sch" "eq_ignore_ascii_case sch ''wss''"
  shows "\<not> plaintext_asked a c0"
proof -
  have "\<not> eq_ignore_ascii_case sch ''ws''" using assms(3) by (simp add: eq_ignore_ascii_case_def lower_ws)
  moreover have "\<not> cli_insecure a"
    using assms by (auto simp: effective_config_def and_then_Ok_iff validate_transport_overrides_def scheme_of_def
        split: option.splits if_splits)
  ultimately show ?thesis using assms(2) by (simp add: plaintext_asked_def)
qed

lemma client_main_run: "client_main a (Ok c0) = Ok (RunTunnel c t) \<Longrightarrow> effective_config a c0 = Ok c"
  by (cases "cli_command a") (auto simp: client_main_def and_then_Ok_iff)

lemma client_main_save:
  "client_main a (Ok c0) = Ok (SaveToken c path) \<Longrightarrow>
   \<exists>c' tok. effective_config a c0 = Ok c' \<and> c = c'\<lparr>cc_token := tok\<rparr> \<and> cli_command a = CmdAuthtoken tok"
  by (cases "cli_command a") (auto simp: client_main_def and_then_Ok_iff)

lemma websocket_url_form:
  assumes "server_websocket_url c = Ok url"
  obtains h where "url = (if cs_insecure (cc_server c) then ''ws'' else ''wss'') @ ''://'' @ h @ '':'' @
      show_nat (cs_port (cc_server c)) @ ''/tunnel''"
    "h = cs_host (cc_server c) \<or> h = ''['' @ cs_host (cc_server c) @ '']''"
    "CHR ''/'' \<notin> set h" "CHR ''?'' \<notin> set h" "CHR ''#'' \<notin> set h"
  using assms by (auto simp: server_websocket_url_def Let_def split: if_splits)

text \<open>
  The token is never sent in clear unless that was asked for. For every command line and
  configuration file that start a tunnel, the control address the client dials is \<open>ws://\<close> exactly
  when \<open>--insecure\<close> was given, the address given has the scheme \<open>ws\<close>, or it has no scheme and the
  file says so; an address with the scheme \<open>wss\<close> is always dialled with TLS; and between the
  scheme and \<open>/tunnel\<close> stand only the configured host and port, with no path, query or fragment.
\<close>

theorem control_url_plaintext_only_on_request:
  assumes run: "client_main a (Ok c0) = Ok (RunTunnel c t)" and url: "server_websocket_url c = Ok url"
  shows "(starts_with ''ws://'' url \<longleftrightarrow> plaintext_asked a c0) \<and> (starts_with ''wss://'' url \<longleftrightarrow> \<not> plaintext_asked a c0) \<and>
    (\<forall>sch. scheme_of (cli_server a) = Some sch \<and> eq_ignore_ascii_case sch ''wss'' \<longrightarrow> starts_with ''wss://'' url) \<and>
    (\<exists>h. url = (if plaintext_asked a c0 then ''ws'' else ''wss'') @ ''://'' @ h @ '':'' @ show_nat (cs_port (cc_server c)) @ ''/tunnel'' \<and>
       (h = cs_host (cc_server c) \<or> h = ''['' @ cs_host (cc_server c) @ '']'') \<and>
       CHR ''/'' \<notin> set h \<and> CHR ''?'' \<notin> set h \<and> CHR ''#'' \<notin> set h)"
proof -
  have "effective_config a c0 = Ok c"
    by (rule client_main_run [OF run])
  note e = effective_insecure [OF this] effective_wss [OF this]
  obtain h where h: "url = (if plaintext_asked a c0 then ''ws'' else ''wss'') @ ''://'' @ h @ '':'' @ show_nat (cs_port (cc_server c)) @ ''/tunnel''"
    "h = cs_host (cc_server c) \<or> h = ''['' @ cs_host (cc_server c) @ '']''"
    "CHR ''/'' \<notin> set h" "CHR ''?'' \<notin> set h" "CHR ''#'' \<notin> set h"
    by (rule websocket_url_form [OF url, unfolded e(1)])
  have "starts_with ''ws://'' url \<longleftrightarrow> plaintext_asked a c0" "starts_with ''wss://'' url \<longleftrightarrow> \<not> plaintext_asked a c0"
    unfolding h(1) by (simp_all add: starts_with_def)
  with e(2) h show ?thesis by blast
qed

definition sample_cli :: "str option \<Rightarrow> bool \<Rightarrow> command \<Rightarrow> cli" where
  "sample_cli server insecure cmd = \<lparr>cli_config = ''c.toml'', cli_server = server, cli_insecure = insecure, cli_command = cmd\<rparr>"

theorem control_url_plaintext_only_on_request_witness:
  "\<exists>c t url. client_main (sample_cli None False (CmdTcp 22 None)) (Ok sample_client) = Ok (RunTunnel c t) \<and>
     server_websocket_url c = Ok url \<and> starts_with ''wss://'' url"
proof -
  obtain t where r: "client_main (sample_cli None False (CmdTcp 22 None)) (Ok sample_client) = Ok (RunTunnel sample_client t)"
    by (simp add: client_main_def sample_cli_def effective_config_def validate_transport_overrides_def)
  obtain url where u: "server_websocket_url sample_client = Ok url"
    by (auto simp: server_websocket_url_def sample_client_def default_client_config_def starts_with_def Let_def)
  have "\<not> plaintext_asked (sample_cli None False (CmdTcp 22 None)) sample_client"
    by (simp add: plaintext_asked_def sample_cli_def scheme_of_def sample_client_def default_client_config_def)
  with control_url_plaintext_only_on_request [OF r u] r u show ?thesis by blast
qed

section \<open>Credentials on the command line\<close>

text \<open>
  What \<open>--auth USER:PASSWORD\<close> accepts, a browser can use. It is accepted exactly when user and
  password are non-empty, the user name ending at the first colon; and a browser's Basic header
  for that user and password passes the server's check against the stored hash if and only if
  bcrypt accepts the password for it.
\<close>

theorem auth_flag_usable:
  assumes "parse_basic_auth v = Ok ba" "utf8_valid v" "b64_decode enc = Some v"
  shows "v = username ba @ '':'' @ password ba \<and> CHR '':'' \<notin> set (username ba) \<and> username ba \<noteq> [] \<and> password ba \<noteq> [] \<and>
    (check_header b64_decode bcrypt_verify (''Basic '' @ enc) (username ba) hash \<longleftrightarrow> bcrypt_verify (password ba) hash = Ok True)"
proof -
  obtain u p where s: "split_once '':'' v = Some (u, p)" "ba = \<lparr>username = u, password = p\<rparr>" "u \<noteq> []" "p \<noteq> []"
    using assms(1) by (auto simp: parse_basic_auth_def split: option.splits if_splits)
  have "parse_basic_auth_header b64_decode (''Basic '' @ enc) = Some (u, p)"
    unfolding parse_basic_auth_header_def strip_prefix_append using assms(2,3) s(1) by simp
  then show ?thesis
    using s split_once_Some [OF s(1)] split_once_char_Some [OF s(1)]
    by (auto simp: check_header_def verify_basic_auth_password_def split: sum.splits)
qed

theorem auth_flag_usable_witness:
  "check_header (\<lambda>e. if e = ''dTpwOnE='' then Some ''u:p:q'' else None) (\<lambda>p h. Ok (h = ''$'' @ p)) (''Basic '' @ ''dTpwOnE='') ''u'' ''$p:q''"
proof -
  have "utf8_valid ''u:p:q''" by (rule utf8_valid_ascii) (simp add: ascii_def byte_val_def)
  moreover have "parse_basic_auth ''u:p:q'' = Ok \<lparr>username = ''u'', password = ''p:q''\<rparr>"
    by (simp add: parse_basic_auth_def split_once_def starts_with_def)
  ultimately show ?thesis
    using auth_flag_usable [of "''u:p:q''" "\<lparr>username = ''u'', password = ''p:q''\<rparr>"
        "\<lambda>e. if e = ''dTpwOnE='' then Some ''u:p:q'' else None" "''dTpwOnE=''" "\<lambda>p h. Ok (h = ''$'' @ p)" "''$p:q''"]
    by simp
qed

section \<open>Saving the token\<close>

text \<open>\<open>authtoken\<close> saves the configuration with the one-off overrides of its command line in it.\<close>

lemma authtoken_saves_overrides:
  assumes "client_main a (Ok c0) = Ok (SaveToken c path)"
  shows "cs_insecure (cc_server c) \<longleftrightarrow> plaintext_asked a c0"
proof -
  obtain c' tok where "effective_config a c0 = Ok c'" "c = c'\<lparr>cc_token := tok\<rparr>"
    using client_main_save [OF assms] by blast
  then show ?thesis using effective_insecure [of a c0 c'] by simp
qed

end
