(* ===== verification/Client_Session.thy ===== *)
theory Client_Session
  imports Client_Properties Tasks
begin

text \<open>
  The sessions of the client (\<open>tunnel.rs\<close>) with the tasks they own: the yamux driver that is spawned with
  the connection, the heartbeat, the task of the control stream and the proxy tasks; how each way
  out of \<open>establish_session\<close> and \<open>run_session\<close> ends them; and \<open>run\<close> as the loop over both, which refines the
  rounds of \<open>Client_Tunnel\<close>.
\<close>

section \<open>A session and its tasks\<close>

record client_tasks =
  ct_drivers :: "task_state list"
  ct_heartbeats :: "task_state list"
  ct_controls :: "task_state list"

definition no_tasks :: client_tasks where
  "no_tasks = \<lparr>ct_drivers = [], ct_heartbeats = [], ct_controls = []\<rparr>"

record 'ws established_session =
  es_ws :: 'ws
  es_driver :: "nat option"
  es_ctrl_stream :: bool

definition start_yamux_session :: "'ws \<Rightarrow> client_tasks \<Rightarrow> 'ws established_session \<times> client_tasks" where
  "start_yamux_session ws w = (case spawn (ct_drivers w) of (h, ds) \<Rightarrow>
     (\<lparr>es_ws = ws, es_driver = Some h, es_ctrl_stream = False\<rparr>, w\<lparr>ct_drivers := ds\<rparr>))"

text \<open>\<open>abort\<close> takes the handle, aborts the driver and waits for it.\<close>

definition abort_session :: "'ws established_session \<Rightarrow> client_tasks \<Rightarrow> client_tasks" where
  "abort_session es w = (case es_driver es of None \<Rightarrow> w | Some h \<Rightarrow> w\<lparr>ct_drivers := abort_at h (ct_drivers w)\<rparr>)"

text \<open>
  \<open>snd hs\<close>: the shutdown comes before the handshake is over. The outer \<open>None\<close> is the \<open>unreachable!\<close> of
  the connection loop, the inner one the shutdown.
\<close>

definition establish_session ::
  "(nat \<Rightarrow> 'ws attempt) \<Rightarrow> (nat \<Rightarrow> bool) \<Rightarrow> str \<Rightarrow> handshake_env \<times> bool \<Rightarrow> client_config \<Rightarrow> tunnel_config \<Rightarrow> client_tasks \<Rightarrow>
   (session_failure, ('ws established_session \<times> tunnel_registration) option) result option \<times> client_tasks" where
  "establish_session outcome interrupted url hs c t w =
     (case fst (connect_with_retry_inner outcome interrupted url) of
        None \<Rightarrow> (None, w)
      | Some (Inl e) \<Rightarrow> (Some (Err (Transient e)), w)
      | Some (Inr None) \<Rightarrow> (Some (Ok None), w)
      | Some (Inr (Some ws)) \<Rightarrow>
          (case start_yamux_session ws w of (session, w1) \<Rightarrow>
             (if snd hs then (Some (Ok None), abort_session session w1)
              else (case snd (authenticate_and_register (fst hs) c t) of
                  Inl e \<Rightarrow> (Some (Err e), abort_session session w1)
                | Inr reg \<Rightarrow> (Some (Ok (Some (session\<lparr>es_ctrl_stream := True\<rparr>, reg))), w1)))))"

section \<open>Running a session\<close>

text \<open>
  The loop with its tasks: the control task or the driver may end by itself, which ends the loop; the
  driver's handle is then taken. The flag says whether the control task has finished.
\<close>

record 'ws session_run =
  sr_state :: session_state
  sr_session :: "'ws established_session"
  sr_control_finished :: bool
  sr_tasks :: client_tasks

definition session_begin :: "'ws established_session \<Rightarrow> client_tasks \<Rightarrow> 'ws session_run" where
  "session_begin es w =
     \<lparr>sr_state = session_start, sr_session = es\<lparr>es_ctrl_stream := False\<rparr>, sr_control_finished = False,
      sr_tasks = w\<lparr>ct_heartbeats := snd (spawn (ct_heartbeats w)), ct_controls := snd (spawn (ct_controls w))\<rparr>\<rparr>"

fun session_task_step :: "nat \<Rightarrow> session_event \<Rightarrow> 'ws session_run \<Rightarrow> 'ws session_run" where
  "session_task_step control EvControlDone x =
     (if session_end (sr_state x) \<noteq> None then x
      else x\<lparr>sr_state := session_step EvControlDone (sr_state x), sr_control_finished := True,
        sr_tasks := (sr_tasks x)\<lparr>ct_controls := end_at control (ct_controls (sr_tasks x))\<rparr>\<rparr>)"
| "session_task_step control EvDriverStopped x =
     (if session_end (sr_state x) \<noteq> None then x
      else x\<lparr>sr_state := session_step EvDriverStopped (sr_state x), sr_session := (sr_session x)\<lparr>es_driver := None\<rparr>,
        sr_tasks := (case es_driver (sr_session x) of None \<Rightarrow> sr_tasks x
          | Some h \<Rightarrow> (sr_tasks x)\<lparr>ct_drivers := end_at h (ct_drivers (sr_tasks x))\<rparr>)\<rparr>)"
| "session_task_step control ev x = x\<lparr>sr_state := session_step ev (sr_state x)\<rparr>"

text \<open>After the loop: the proxy tasks and the heartbeat are aborted and joined, then the control task if it still runs, then the driver.\<close>

definition end_session :: "nat \<Rightarrow> nat \<Rightarrow> 'ws session_run \<Rightarrow> 'ws session_run" where
  "end_session heartbeat control x =
     (let w1 = (sr_tasks x)\<lparr>ct_heartbeats := abort_at heartbeat (ct_heartbeats (sr_tasks x))\<rparr>;
          w2 = (if sr_control_finished x then w1 else w1\<lparr>ct_controls := abort_at control (ct_controls w1)\<rparr>)
      in x\<lparr>sr_state := (sr_state x)\<lparr>proxy_tasks := []\<rparr>, sr_tasks := abort_session (sr_session x) w2\<rparr>)"

text \<open>The two \<open>expect\<close>s, of the control stream and of the driver, would panic: \<open>None\<close>.\<close>

definition run_session ::
  "session_event list \<Rightarrow> 'ws established_session \<Rightarrow> client_tasks \<Rightarrow> (session_exit option \<times> session_state \<times> client_tasks) option" where
  "run_session evs es w =
     (if \<not> es_ctrl_stream es \<or> es_driver es = None then None
      else (let heartbeat = fst (spawn (ct_heartbeats w)); control = fst (spawn (ct_controls w));
                x = fold (session_task_step control) evs (session_begin es w)
            in Some (case session_end (sr_state x) of
                 None \<Rightarrow> (None, sr_state x, sr_tasks x)
               | Some exit \<Rightarrow> (case end_session heartbeat control x of y \<Rightarrow> (Some exit, sr_state y, sr_tasks y)))))"

section \<open>The whole client\<close>

text \<open>What one pass of the loop of \<open>run\<close> meets.\<close>

record 'ws client_round =
  cr_outcome :: "nat \<Rightarrow> 'ws attempt"
  cr_attempt_interrupted :: "nat \<Rightarrow> bool"
  cr_handshake :: handshake_env
  cr_shutdown :: bool
  cr_events :: "session_event list"
  cr_elapsed :: nat
  cr_interrupted :: bool

text \<open>\<open>None\<close> is a panic. A session whose events are used up still runs: the loop is in it.\<close>

fun client_loop ::
  "str \<Rightarrow> client_config \<Rightarrow> 'ws client_round list \<Rightarrow> client_state \<Rightarrow> client_tasks \<Rightarrow> (client_state \<times> client_tasks) option" where
  "client_loop url c [] x w = Some (x, w)"
| "client_loop url c (rd # rounds) x w =
     (if cl_result x \<noteq> None then Some (x, w)
      else (case establish_session (cr_outcome rd) (cr_attempt_interrupted rd) url (cr_handshake rd, cr_shutdown rd) c (cl_tunnel x) w of
          (None, w1) \<Rightarrow> None
        | (Some (Inl (Permanent e)), w1) \<Rightarrow> Some (x\<lparr>cl_result := Some (Err e)\<rparr>, w1)
        | (Some (Inl (Transient e)), w1) \<Rightarrow> client_loop url c rounds (wait_round (cr_interrupted rd) x) w1
        | (Some (Inr None), w1) \<Rightarrow> Some (x\<lparr>cl_result := Some (Ok ())\<rparr>, w1)
        | (Some (Inr (Some (session, reg))), w1) \<Rightarrow>
            (let x1 = x\<lparr>cl_tunnel := pin_assigned_endpoint (cl_tunnel x) reg,
                   cl_announced := (case cl_announced x of None \<Rightarrow> Some (tr_public_url reg) | Some u \<Rightarrow> Some u)\<rparr>
             in case run_session (cr_events rd) session w1 of
                  None \<Rightarrow> None
                | Some (None, _, w2) \<Rightarrow> Some (x1, w2)
                | Some (Some Shutdown, _, w2) \<Rightarrow> Some (x1\<lparr>cl_result := Some (Ok ())\<rparr>, w2)
                | Some (Some Disconnected, _, w2) \<Rightarrow>
                    client_loop url c rounds
                      (wait_round (cr_interrupted rd)
                        (if cr_elapsed rd \<ge> STABLE_SESSION_THRESHOLD
                         then x1\<lparr>cl_backoff := reset_backoff (cl_backoff x1)\<rparr> else x1)) w2)))"

text \<open>\<open>run\<close>: the checks of the configuration come before the loop.\<close>

definition client_run_tasks ::
  "client_config \<Rightarrow> tunnel_config \<Rightarrow> 'ws client_round list \<Rightarrow> (str, (client_state \<times> client_tasks) option) result" where
  "client_run_tasks c t rounds =
     and_then (validate_client_config c) (\<lambda>_.
     and_then (server_websocket_url c) (\<lambda>url. Ok (client_loop url c rounds (client_start t) no_tasks)))"

section \<open>What is shown\<close>

definition idle :: "client_tasks \<Rightarrow> bool" where
  "idle w \<longleftrightarrow> live_tasks (ct_drivers w) = 0 \<and> live_tasks (ct_heartbeats w) = 0 \<and> live_tasks (ct_controls w) = 0"

definition one_session :: "client_tasks \<Rightarrow> bool" where
  "one_session w \<longleftrightarrow> live_tasks (ct_drivers w) \<le> 1 \<and> live_tasks (ct_heartbeats w) \<le> 1 \<and> live_tasks (ct_controls w) \<le> 1"

lemma idle_one: "idle w \<Longrightarrow> one_session w"
  by (simp add: idle_def one_session_def)

text \<open>A session is handed out with its driver, the only one running; every other exit leaves none.\<close>

lemma establish_cases:
  assumes "idle w" "establish_session outcome interrupted url hs c t w = (res, w1)"
  shows "(\<exists>es reg. res = Some (Ok (Some (es, reg))) \<and> es_ctrl_stream es \<and> es_driver es = Some (length (ct_drivers w)) \<and>
      w1 = w\<lparr>ct_drivers := ct_drivers w @ [TaskRunning]\<rparr>) \<or>
    ((\<exists>e. res = Some (Err e)) \<or> res = Some (Ok None)) \<and> idle w1"
proof -
  obtain r where r: "fst (connect_with_retry_inner outcome interrupted url) = Some r"
    using connect_never_panics by blast
  show ?thesis
    using assms
    by (auto simp: establish_session_def r start_yamux_session_def abort_session_def spawn_def idle_def
        split: sum.splits option.splits if_splits prod.splits)
qed

text \<open>While the loop of a session runs, its three tasks do, each the last of its kind.\<close>

definition session_tasks_ok :: "client_tasks \<Rightarrow> 'ws session_run \<Rightarrow> bool" where
  "session_tasks_ok w x \<longleftrightarrow>
     (case es_driver (sr_session x) of
        Some h \<Rightarrow> h = length (ct_drivers w) \<and> ct_drivers (sr_tasks x) = ct_drivers w @ [TaskRunning]
      | None \<Rightarrow> ct_drivers (sr_tasks x) = ct_drivers w @ [TaskEnded] \<and> session_end (sr_state x) \<noteq> None) \<and>
     ct_heartbeats (sr_tasks x) = ct_heartbeats w @ [TaskRunning] \<and>
     ct_controls (sr_tasks x) = ct_controls w @ [if sr_control_finished x then TaskEnded else TaskRunning] \<and>
     (sr_control_finished x \<longrightarrow> session_end (sr_state x) \<noteq> None)"

lemma session_step_ended: "session_end x \<noteq> None \<Longrightarrow> session_step ev x = x"
  by (cases ev) auto

lemma session_task_step_ok:
  assumes "session_tasks_ok w x"
  shows "session_tasks_ok w (session_task_step (length (ct_controls w)) ev x)"
proof (cases "session_end (sr_state x)")
  case None
  then show ?thesis using assms
    by (cases "(length (ct_controls w), ev, x)" rule: session_task_step.cases)
      (auto simp: session_tasks_ok_def split: option.splits if_splits)
next
  case (Some e)
  then have "session_task_step (length (ct_controls w)) ev x = x"
    using session_step_ended [of "sr_state x" ev]
    by (cases "(length (ct_controls w), ev, x)" rule: session_task_step.cases) simp_all
  then show ?thesis using assms by simp
qed

interpretation session_machine: event_machine "session_task_step (length (ct_controls w))" "session_tasks_ok w" for w
  by unfold_locales (rule session_task_step_ok)

lemma session_task_state:
  "sr_state (fold (session_task_step n) evs x) = fold session_step evs (sr_state x)"
proof (induction evs arbitrary: x)
  case (Cons ev evs)
  have "sr_state (session_task_step n ev x) = session_step ev (sr_state x)"
    using session_step_ended [of "sr_state x" ev] by (cases "(n, ev, x)" rule: session_task_step.cases) auto
  then show ?case using Cons by simp
qed simp

definition exit_of :: "session_event list \<Rightarrow> session_exit option" where
  "exit_of evs = session_end (fold session_step evs session_start)"

lemma run_session_cases:
  assumes "idle w" "es_ctrl_stream es" "es_driver es = Some (length (ct_drivers w))"
  shows "\<exists>st w2. run_session evs es (w\<lparr>ct_drivers := ct_drivers w @ [TaskRunning]\<rparr>) = Some (exit_of evs, st, w2) \<and>
    one_session w2 \<and> (exit_of evs \<noteq> None \<longrightarrow> idle w2 \<and> proxy_tasks st = [])"
proof -
  let ?w = "w\<lparr>ct_drivers := ct_drivers w @ [TaskRunning]\<rparr>"
  define x where "x = fold (session_task_step (length (ct_controls w))) evs (session_begin es ?w)"
  have "session_tasks_ok w (session_begin es ?w)"
    using assms(3) by (simp add: session_tasks_ok_def session_begin_def spawn_def)
  then have ok: "session_tasks_ok w x" unfolding x_def by (rule session_machine.run_keeps)
  have ex: "session_end (sr_state x) = exit_of evs"
    by (simp add: x_def session_task_state exit_of_def session_begin_def)
  have "one_session (sr_tasks x)"
    using ok assms(1) by (auto simp: session_tasks_ok_def one_session_def idle_def split: option.splits if_splits)
  moreover have "idle (sr_tasks (end_session (length (ct_heartbeats w)) (length (ct_controls w)) x))"
    using ok assms(1)
    by (auto simp: session_tasks_ok_def idle_def end_session_def Let_def abort_session_def split: option.splits if_splits)
  moreover have "run_session evs es ?w = Some (case exit_of evs of
        None \<Rightarrow> (None, sr_state x, sr_tasks x)
      | Some exit \<Rightarrow> (case end_session (length (ct_heartbeats w)) (length (ct_controls w)) x of y \<Rightarrow> (Some exit, sr_state y, sr_tasks y)))"
    using assms(2,3) ex by (cases "exit_of evs") (simp_all add: run_session_def Let_def spawn_def x_def)
  ultimately show ?thesis
    by (auto intro: idle_one simp: end_session_def Let_def split: option.split)
qed

text \<open>The round of \<open>Client_Tunnel\<close> that a pass of the loop amounts to; no part of it depends on the tasks.\<close>

definition round_of :: "str \<Rightarrow> client_config \<Rightarrow> 'ws client_round \<Rightarrow> 'ws round" where
  "round_of url c rd =
     \<lparr>rd_establish = (\<lambda>t. case the (fst (establish_session (cr_outcome rd) (cr_attempt_interrupted rd) url
          (cr_handshake rd, cr_shutdown rd) c t no_tasks)) of
        Inl e \<Rightarrow> Err e
      | Inr None \<Rightarrow> Ok None
      | Inr (Some (es, reg)) \<Rightarrow> Ok (Some (es_ws es, reg))),
      rd_exit = the (exit_of (cr_events rd)), rd_elapsed = cr_elapsed rd, rd_interrupted = cr_interrupted rd\<rparr>"

lemma establish_result:
  "fst (establish_session outcome interrupted url hs c t w) =
     map_option (map_sum id (map_option (\<lambda>(es, reg). (es\<lparr>es_driver := Some (length (ct_drivers w))\<rparr>, reg))))
       (fst (establish_session outcome interrupted url hs c t no_tasks))"
  by (auto simp: establish_session_def start_yamux_session_def spawn_def
      split: option.splits sum.splits prod.splits if_splits)

lemma run_round_via:
  assumes "cl_result x = None" "idle w"
    and "establish_session (cr_outcome rd) (cr_attempt_interrupted rd) url (cr_handshake rd, cr_shutdown rd) c (cl_tunnel x) w = (Some res, w1)"
  shows "rd_establish (round_of url c rd) (cl_tunnel x) =
    (case res of Inl e \<Rightarrow> Err e | Inr None \<Rightarrow> Ok None | Inr (Some (es, reg)) \<Rightarrow> Ok (Some (es_ws es, reg)))"
proof -
  let ?f = "map_sum id (map_option (\<lambda>(es, reg). (es\<lparr>es_driver := Some (length (ct_drivers w))\<rparr>, reg)))"
  obtain y where y: "fst (establish_session (cr_outcome rd) (cr_attempt_interrupted rd) url (cr_handshake rd, cr_shutdown rd) c (cl_tunnel x) no_tasks) = Some y"
      "res = ?f y"
    using establish_result [of "cr_outcome rd" "cr_attempt_interrupted rd" url "(cr_handshake rd, cr_shutdown rd)" c "cl_tunnel x" w,
        unfolded assms(3) fst_conv, symmetric] unfolding map_option_eq_Some by blast
  then show ?thesis by (cases y) (auto simp: round_of_def split: option.split)
qed

lemma client_loop_ok:
  assumes "idle w"
  shows "\<exists>x' w'. client_loop url c (rounds :: 'ws client_round list) x w = Some (x', w') \<and> one_session w' \<and>
    ((\<forall>rd\<in>set rounds. exit_of (cr_events rd) \<noteq> None) \<longrightarrow> idle w' \<and> x' = fold run_round (map (round_of url c) rounds) x) \<and>
    (cl_result x' \<noteq> None \<longrightarrow> idle w')"
  using assms
proof (induction rounds arbitrary: x w)
  case Nil
  then show ?case by (simp add: idle_one)
next
  case (Cons rd rounds)
  let ?g = "round_of url c rd"
  have stays: "fold run_round rs y = y" if "cl_result y \<noteq> None" for rs :: "'ws round list" and y
    using that by (induction rs) (simp_all add: run_round_ended)
  show ?case
  proof (cases "cl_result x")
    case (Some r)
    then show ?thesis using Cons.prems by (simp add: idle_one stays run_round_ended)
  next
    case None
    obtain res w1 where e: "establish_session (cr_outcome rd) (cr_attempt_interrupted rd) url (cr_handshake rd, cr_shutdown rd) c (cl_tunnel x) w = (res, w1)"
      by fastforce
    note None' = None
    note via = run_round_via [OF None Cons.prems, of rd url c]
    from establish_cases [OF Cons.prems e] show ?thesis
    proof (elim disjE exE conjE)
      fix es reg
      assume s: "res = Some (Ok (Some (es, reg)))" "es_ctrl_stream es" "es_driver es = Some (length (ct_drivers w))"
        and w1: "w1 = w\<lparr>ct_drivers := ct_drivers w @ [TaskRunning]\<rparr>"
      obtain st w2 where r: "run_session (cr_events rd) es w1 = Some (exit_of (cr_events rd), st, w2)" "one_session w2"
          "exit_of (cr_events rd) \<noteq> None \<Longrightarrow> idle w2"
        using run_session_cases [OF Cons.prems s(2,3), of "cr_events rd"] w1 by auto
      have g: "rd_establish ?g (cl_tunnel x) = Ok (Some (es_ws es, reg))" using via [OF e [unfolded s(1)]] by simp
      note step = e s(1) r(1) None
      show ?thesis
      proof (cases "exit_of (cr_events rd)")
        case None
        then show ?thesis using step r(2) by (simp add: Let_def)
      next
        case ex: (Some exit)
        have i2: "idle w2" using r(3) ex by simp
        have rd: "rd_exit ?g = exit" "rd_elapsed ?g = cr_elapsed rd" "rd_interrupted ?g = cr_interrupted rd"
          by (simp_all add: round_of_def ex)
        show ?thesis
        proof (cases exit)
          case Shutdown
          let ?x = "x\<lparr>cl_tunnel := pin_assigned_endpoint (cl_tunnel x) reg,
              cl_announced := (case cl_announced x of None \<Rightarrow> Some (tr_public_url reg) | Some u \<Rightarrow> Some u), cl_result := Some (Ok ())\<rparr>"
          have "run_round ?g x = ?x" using None' g rd Shutdown by (simp add: run_round_def Let_def)
          moreover have "client_loop url c (rd # rounds) x w = Some (?x, w2)" using step ex Shutdown by (simp add: Let_def)
          ultimately show ?thesis using i2 stays [of ?x] by (simp add: idle_one)
        next
          case Disconnected
          have st: "client_loop url c (rd # rounds) x w = client_loop url c rounds (run_round ?g x) w2"
            using step ex g rd Disconnected by (simp add: Let_def run_round_def)
          show ?thesis unfolding st using Cons.IH [OF i2, of "run_round ?g x"] by auto
        qed
      qed
    next
      fix err assume err: "res = Some (Err err)" and i1: "idle w1"
      have g: "rd_establish ?g (cl_tunnel x) = Err err" using via [OF e [unfolded err]] by simp
      show ?thesis
      proof (cases err)
        case (Permanent m)
        have "run_round ?g x = x\<lparr>cl_result := Some (Err m)\<rparr>" using None g Permanent by (simp add: run_round_def)
        then show ?thesis using e err i1 None Permanent stays [of "x\<lparr>cl_result := Some (Err m)\<rparr>"] by (simp add: idle_one)
      next
        case (Transient m)
        have st: "client_loop url c (rd # rounds) x w = client_loop url c rounds (run_round ?g x) w1"
          using e err None g Transient by (simp add: run_round_def round_of_def)
        show ?thesis unfolding st using Cons.IH [OF i1, of "run_round ?g x"] by auto
      qed
    next
      assume r: "res = Some (Ok None)" and i1: "idle w1"
      have "rd_establish ?g (cl_tunnel x) = Ok None" using via [OF e [unfolded r]] by simp
      then have "run_round ?g x = x\<lparr>cl_result := Some (Ok ())\<rparr>" using None by (simp add: run_round_def)
      then show ?thesis using e r i1 None stays [of "x\<lparr>cl_result := Some (Ok ())\<rparr>"] by (simp add: idle_one)
    qed
  qed
qed

text \<open>
  C12: the client owns at most one session, and nothing of one it has left. Over any rounds of
  \<open>run\<close>, with any connections, handshakes, events and interruptions, none of its three panics is
  reached; at most one driver, one heartbeat and one control task run at any time, and none once \<open>run\<close>
  has returned or between two sessions, whichever way the last one ended. And the whole is a
  refinement of the reconnect loop: when every session ends, it is that loop over the rounds these
  connections and events amount to.
\<close>

theorem client_owns_one_session:
  assumes "client_run_tasks c t rounds = Ok out"
  shows "\<exists>x w url. out = Some (x, w) \<and> one_session w \<and> (cl_result x \<noteq> None \<longrightarrow> idle w) \<and>
    server_websocket_url c = Ok url \<and>
    ((\<forall>rd\<in>set rounds. exit_of (cr_events rd) \<noteq> None) \<longrightarrow> idle w \<and> run_client c t (map (round_of url c) rounds) = Ok x)"
proof -
  obtain url where u: "validate_client_config c = Ok ()" "server_websocket_url c = Ok url"
      "out = client_loop url c rounds (client_start t) no_tasks"
    using assms by (auto simp: client_run_tasks_def and_then_Ok_iff)
  have "idle no_tasks" by (simp add: idle_def no_tasks_def live_tasks_def)
  from client_loop_ok [OF this, of url c rounds "client_start t"] u show ?thesis
    by (auto simp: run_client_def)
qed

definition connected_round :: "server_msg \<Rightarrow> session_event list \<Rightarrow> str client_round" where
  "connected_round answer evs =
     \<lparr>cr_outcome = (\<lambda>_. Connected ''ws''), cr_attempt_interrupted = (\<lambda>_. False),
      cr_handshake = \<lparr>hs_open = Ok (), hs_write_auth = Ok (), hs_auth = Completed (Ok answer), hs_uuid = ''r1'',
        hs_write_request = Ok (), hs_registration = Completed (Ok (STunnelAck ''r1'' ''https://demo.example.com'' Http))\<rparr>,
      cr_shutdown = False, cr_events = evs, cr_elapsed = 5, cr_interrupted = False\<rparr>"

text \<open>A session whose driver stops, and a second connection that is refused: the error ends \<open>run\<close>, and no task is left.\<close>

theorem client_owns_one_session_witness:
  "\<exists>x w. client_run_tasks sample_client sample_tunnel
      [connected_round (SAuthOk ''s'') [EvServer (Some (SStreamOpen 1 ''r1'')), EvDriverStopped],
       connected_round (SAuthErr ''revoked'') [EvShutdown]] = Ok (Some (x, w)) \<and>
    idle w \<and> length (ct_drivers w) = 2 \<and> cl_result x = Some (Err ''Authentication failed: revoked'')"
proof -
  let ?rs = "[connected_round (SAuthOk ''s'') [EvServer (Some (SStreamOpen 1 ''r1'')), EvDriverStopped],
       connected_round (SAuthErr ''revoked'') [EvShutdown]]"
  obtain x0 where "run_client sample_client sample_tunnel ([] :: str round list) = Ok x0" using sample_run by blast
  then obtain url where "validate_client_config sample_client = Ok ()" "server_websocket_url sample_client = Ok url"
    by (auto simp: run_client_def and_then_Ok_iff)
  then have r: "client_run_tasks sample_client sample_tunnel ?rs = Ok (client_loop url sample_client ?rs (client_start sample_tunnel) no_tasks)"
    by (simp add: client_run_tasks_def)
  obtain x w where xw: "client_loop url sample_client ?rs (client_start sample_tunnel) no_tasks = Some (x, w)" "idle w"
    using client_owns_one_session [OF r] by (auto simp: connected_round_def exit_of_def session_start_def)
  have "cl_result x = Some (Err ''Authentication failed: revoked'') \<and> length (ct_drivers w) = 2"
    using xw(1)
    by (auto simp: connected_round_def establish_session_def connect_with_retry_inner_def connect_loop.simps MAX_CONNECT_ATTEMPTS_def
        start_yamux_session_def spawn_def abort_session_def abort_at_def end_at_def authenticate_and_register_def transiently_def
        await_response_def run_session_def session_begin_def session_start_def end_session_def Let_def no_tasks_def
        client_start_def wait_round_def split: prod.splits)
  then show ?thesis using r xw by auto
qed

end
