(* ===== verification/Client_Output.thy ===== *)
theory Client_Output
  imports Local_Proxy Client_Tunnel
begin

text \<open>
  \<open>output.rs\<close>: the counters, the rows the client prints and the numbers in them. A row is the
  string handed to the terminal; colours, the cursor and the clock are the terminal's. Strings are
  UTF-8 bytes, and the padding of \<open>format!\<close> counts characters.
\<close>

section \<open>The counters\<close>

definition stats_new :: tunnel_stats where
  "stats_new = \<lparr>st_connections = 0, st_bytes_in = 0, st_bytes_out = 0\<rparr>"

definition record_connection :: "tunnel_stats \<Rightarrow> tunnel_stats" where
  "record_connection st = st\<lparr>st_connections := (st_connections st + 1) mod 2 ^ 64\<rparr>"

section \<open>Padding\<close>

text \<open>The number of characters: the bytes that do not continue one.\<close>

definition chars :: "str \<Rightarrow> nat" where
  "chars s = length (filter (\<lambda>c. \<not> cont (byte_val c)) s)"

definition spaces :: "nat \<Rightarrow> str" where
  "spaces n = replicate n (CHR '' '')"

definition pad_left_aligned :: "nat \<Rightarrow> str \<Rightarrow> str" where
  "pad_left_aligned w s = s @ spaces (w - chars s)"

definition pad_centred :: "nat \<Rightarrow> str \<Rightarrow> str" where
  "pad_centred w s = spaces ((w - chars s) div 2) @ s @ spaces ((w - chars s + 1) div 2)"

text \<open>The box-drawing characters of the banner: U+2550, U+2551, U+2554, U+2557, U+255A,
  U+255D, U+2560, U+2563.\<close>

definition box :: "char \<Rightarrow> str" where
  "box c = [CHR 0xE2, CHR 0x95, c]"

definition border :: str where
  "border = concat (replicate 58 (box (CHR 0x90)))"

definition side :: str where
  "side = box (CHR 0x91)"

definition banner_row :: "str \<Rightarrow> str \<Rightarrow> str" where
  "banner_row label_text v = side @ ''  '' @ pad_left_aligned 12 label_text @ '' '' @ pad_left_aligned (58 - 15) v @ side"

definition print_tunnel_info :: "str \<Rightarrow> str \<Rightarrow> port \<Rightarrow> port \<Rightarrow> str list" where
  "print_tunnel_info version url lport iport =
     [[], box (CHR 0x94) @ border @ box (CHR 0x97), side @ pad_centred 58 (''rgrok v'' @ version) @ side,
      box (CHR 0xA0) @ border @ box (CHR 0xA3), banner_row ''Tunnel:'' url,
      banner_row ''Forwarding:'' (''http://localhost:'' @ show_nat lport)] @
     (if iport > 0 then [banner_row ''Inspect:'' (''http://localhost:'' @ show_nat iport)] else []) @
     [box (CHR 0xA0) @ border @ box (CHR 0xA3),
      side @ ''  '' @ pad_left_aligned 14 ''Connections'' @ pad_left_aligned 10 ''Req/min'' @ pad_left_aligned 10 ''Data In'' @
        pad_left_aligned (58 - 36) ''Data Out'' @ side]"

section \<open>Amounts of data\<close>

text \<open>
  \<open>{:.1}\<close> of \<open>bytes / 1024^k\<close>: up to 2^53 the division is exact, and the decimal is rounded to the
  nearest, a tie to the even digit.
\<close>

definition round_div :: "nat \<Rightarrow> nat \<Rightarrow> nat" where
  "round_div a b = (let q = a div b; r = a mod b in
     if 2 * r > b \<or> (2 * r = b \<and> odd q) then q + 1 else q)"

definition one_decimal :: "nat \<Rightarrow> nat \<Rightarrow> str" where
  "one_decimal a b = (let t = round_div (10 * a) b in show_nat (t div 10) @ ''.'' @ show_nat (t mod 10))"

definition format_bytes :: "nat \<Rightarrow> str" where
  "format_bytes n =
     (if n < 1024 then show_nat n @ '' B''
      else if n < 1024 * 1024 then one_decimal n 1024 @ '' KB''
      else if n < 1024 * 1024 * 1024 then one_decimal n (1024 * 1024) @ '' MB''
      else one_decimal n (1024 * 1024 * 1024) @ '' GB'')"

definition print_stats_line :: "str \<Rightarrow> tunnel_stats \<Rightarrow> str" where
  "print_stats_line rpm st =
     side @ ''  '' @ pad_left_aligned 14 (show_nat (st_connections st)) @ pad_left_aligned 10 rpm @
     pad_left_aligned 10 (format_bytes (st_bytes_in st)) @ pad_left_aligned (58 - 36) (format_bytes (st_bytes_out st)) @ side"

section \<open>Request lines\<close>

text \<open>A slice \<open>&s[..n]\<close> panics (\<open>None\<close>) beyond the end and inside a character, and so does a negative \<open>usize\<close>.\<close>

definition char_boundary :: "str \<Rightarrow> nat \<Rightarrow> bool" where
  "char_boundary s n = (n = 0 \<or> n = length s \<or> (n < length s \<and> \<not> cont (byte_at s n)))"

definition truncate_str :: "str \<Rightarrow> nat \<Rightarrow> str option" where
  "truncate_str s m =
     (if length s \<le> m then Some s
      else if 3 \<le> m \<and> char_boundary s (m - 3) then Some (take (m - 3) s @ ''...'') else None)"

datatype colour = Green | Cyan | Yellow | Red

definition status_colour :: "nat \<Rightarrow> colour" where
  "status_colour status =
     (if status \<le> 299 then Green else if status \<le> 399 then Cyan else if status \<le> 499 then Yellow else Red)"

definition print_request_line :: "str \<Rightarrow> log_entry \<Rightarrow> (str \<times> colour) option" where
  "print_request_line now e = map_option
     (\<lambda>url. (''  '' @ pad_left_aligned 8 now @ '' '' @ pad_left_aligned 7 (le_method e) @ '' '' @ pad_left_aligned 30 url @ '' '' @
        pad_left_aligned 5 (show_nat (le_status e)) @ ''  '' @ show_nat (le_duration_ms e) @ ''ms'' @ [LF],
        status_colour (le_status e)))
     (truncate_str (le_url e) 30)"

section \<open>The dashboard\<close>

text \<open>What is printed before the task starts: the row of the counters does not end its line.\<close>

definition spawn_dashboard :: "str \<Rightarrow> tunnel_stats \<Rightarrow> str list" where
  "spawn_dashboard rpm st =
     [print_stats_line rpm st @ box (CHR 0xA0) @ border @ box (CHR 0xA3),
      side @ ''  '' @ pad_left_aligned 8 ''Time'' @ pad_left_aligned 8 ''Method'' @ pad_left_aligned 18 ''URL'' @
        pad_left_aligned 8 ''Status'' @ pad_left_aligned (58 - 44) ''Duration'' @ side,
      box (CHR 0x9A) @ border @ box (CHR 0x9D), []]"

text \<open>
  The task: a tick writes the counters to the debug log (their texts), an entry prints its line
  with the clock's time; a panic ends the task and nothing is printed after it.
\<close>

datatype dashboard_event = Tick str tunnel_stats | Entry str log_entry

record dashboard =
  db_lines :: "(str \<times> colour) list"
  db_debug :: "(nat \<times> str \<times> str \<times> str) list"
  db_panicked :: bool

definition update_stats_line :: "str \<Rightarrow> tunnel_stats \<Rightarrow> nat \<times> str \<times> str \<times> str" where
  "update_stats_line rpm st = (st_connections st, rpm, format_bytes (st_bytes_in st), format_bytes (st_bytes_out st))"

fun dashboard_step :: "dashboard_event \<Rightarrow> dashboard \<Rightarrow> dashboard" where
  "dashboard_step (Tick rpm st) d = (if db_panicked d then d else d\<lparr>db_debug := db_debug d @ [update_stats_line rpm st]\<rparr>)"
| "dashboard_step (Entry now e) d =
     (if db_panicked d then d
      else (case print_request_line now e of
          None \<Rightarrow> d\<lparr>db_panicked := True\<rparr>
        | Some row \<Rightarrow> d\<lparr>db_lines := db_lines d @ [row]\<rparr>))"

definition dashboard_run :: "dashboard_event list \<Rightarrow> dashboard" where
  "dashboard_run evs = fold dashboard_step evs \<lparr>db_lines = [], db_debug = [], db_panicked = False\<rparr>"

section \<open>What is printed\<close>

lemma chars_append [simp]: "chars (a @ b) = chars a + chars b"
  by (simp add: chars_def)

lemma cont_graphic: "byte_val c < 128 \<Longrightarrow> \<not> cont (byte_val c)"
  by (simp add: cont_def)

lemma chars_ascii: "list_all ascii s \<Longrightarrow> chars s = length s"
  by (induction s) (auto simp: chars_def ascii_def cont_graphic)

lemma chars_spaces [simp]: "chars (spaces n) = n"
  using chars_ascii [of "spaces n"] by (simp add: spaces_def list_all_iff ascii_def byte_val_def)

lemma chars_padded: "chars s \<le> w \<Longrightarrow> chars (pad_left_aligned w s) = w"
  by (simp add: pad_left_aligned_def)

lemma chars_space [simp]: "chars (CHR '' '' # s) = Suc (chars s)" "chars [] = 0"
  by (simp_all add: chars_def cont_def byte_val_def)

lemma chars_side [simp]: "chars side = 1"
  by (simp add: chars_def side_def box_def cont_def byte_val_def)

text \<open>The rows of the banner line up when the public URL has at most 43 characters.\<close>

lemma banner_row_width:
  "chars label_text \<le> 12 \<Longrightarrow> chars v \<le> 43 \<Longrightarrow> chars (banner_row label_text v) = 60"
  by (simp add: banner_row_def chars_padded)

lemma byte_at_char: "n < length s \<Longrightarrow> byte_at s n = byte_val (s ! n)"
  by (simp add: byte_at_def)

text \<open>ASCII text is never cut inside a character, so no line the client logs can panic the dashboard.\<close>

lemma truncate_ascii:
  assumes "list_all ascii s" "3 \<le> m"
  shows "\<exists>t. truncate_str s m = Some t \<and> length t \<le> m"
proof (cases "length s \<le> m")
  case False
  then have "m - 3 < length s" by simp
  then have "\<not> cont (byte_at s (m - 3))"
    using assms(1) by (simp add: byte_at_char list_all_length ascii_def cont_graphic)
  then have "truncate_str s m = Some (take (m - 3) s @ ''...'')"
    using False assms(2) \<open>m - 3 < length s\<close> by (simp add: truncate_str_def char_boundary_def)
  moreover have "length (take (m - 3) s @ ''...'') \<le> m" using False assms(2) by simp
  ultimately show ?thesis by blast
qed (simp add: truncate_str_def)

lemma logged_entry_prints:
  assumes "open_proxy_stream opens writes connects bridge ms cid local_port = (out, r, Some e)"
  shows "print_request_line now e \<noteq> None \<and> le_method e = ''GET'' \<and> le_url e = ''localhost:'' @ show_nat local_port"
proof -
  have e: "le_url e = ''localhost:'' @ show_nat local_port" "le_method e = ''GET''"
    using assms by (auto simp: open_proxy_stream_def split: sum.splits)
  have "list_all ascii (''localhost:'' @ show_nat local_port)"
    using show_nat_graphic [of local_port] by (simp add: list_all_iff graphic_ascii) (simp add: ascii_def byte_val_def)
  then show ?thesis using e truncate_ascii [of "le_url e" 30] by (auto simp: print_request_line_def)
qed

text \<open>
  The dashboard of a run survives every entry the client logs, and prints one line for each, in
  order: \<open>logs\<close> are the entries, each with the time its line shows.
\<close>

definition from_a_stream :: "log_entry \<Rightarrow> bool" where
  "from_a_stream e \<longleftrightarrow> (\<exists>opens writes connects bridge ms cid local_port out r.
     open_proxy_stream opens writes connects bridge ms cid local_port = (out, r, Some e))"

fun entries :: "dashboard_event list \<Rightarrow> (str \<times> log_entry) list" where
  "entries [] = []"
| "entries (Tick _ _ # evs) = entries evs"
| "entries (Entry now e # evs) = (now, e) # entries evs"

lemma dashboard_prints_all:
  assumes "\<forall>(now, e)\<in>set (entries evs). from_a_stream e"
  shows "\<not> db_panicked (dashboard_run evs) \<and>
    map Some (db_lines (dashboard_run evs)) = map (\<lambda>(now, e). print_request_line now e) (entries evs)"
proof -
  have "\<not> db_panicked (fold dashboard_step evs d) \<and> map Some (db_lines (fold dashboard_step evs d)) =
      map Some (db_lines d) @ map (\<lambda>(now, e). print_request_line now e) (entries evs)"
    if "\<not> db_panicked d" for d
    using assms that
  proof (induction evs arbitrary: d rule: entries.induct)
    case (3 now e evs)
    have "from_a_stream e" using 3(2) by simp
    then have "print_request_line now e \<noteq> None"
      unfolding from_a_stream_def by (elim exE) (rule conjunct1 [OF logged_entry_prints])
    then obtain row where "print_request_line now e = Some row" by blast
    then show ?case using 3 by simp
  qed simp_all
  then show ?thesis by (simp add: dashboard_run_def)
qed

end
