(* ===== verification/Server_Inspect.thy ===== *)
theory Server_Inspect
  imports Local_Proxy
begin

text \<open>
  \<open>inspect.rs\<close> of the server: the parsers of raw HTTP bytes kept from the time before the server
  parsed requests with \<open>hyper\<close>. They repeat those of the client's \<open>local_proxy.rs\<close>, with the
  truncation flag computed from the bytes at hand.
\<close>

definition MAX_BODY_CAPTURE :: nat where
  "MAX_BODY_CAPTURE = 1048576"

fun raw_fields :: "str list \<Rightarrow> headers" where
  "raw_fields [] = []"
| "raw_fields (l # ls) =
     (if l = [] then []
      else (case split_once '': '' l of None \<Rightarrow> raw_fields ls | Some f \<Rightarrow> f # raw_fields ls))"

definition capture_request_from_bytes :: "str \<Rightarrow> nat \<Rightarrow> bytes \<Rightarrow> str \<Rightarrow> str \<Rightarrow> captured_request option" where
  "capture_request_from_bytes uuid now data tid addr =
     (case lines (utf8_lossy data) of
        [] \<Rightarrow> None
      | first # ls \<Rightarrow>
          (case split_whitespace first of
             meth # url # _ \<Rightarrow>
               (let header_end = map_option (\<lambda>p. p + 4) (find_sub crlf2 data);
                    body_length = (case header_end of None \<Rightarrow> 0 | Some p \<Rightarrow> length data - p);
                    body = (case header_end of
                        None \<Rightarrow> None
                      | Some p \<Rightarrow> (if p < length data then Some (take (min (length data - p) MAX_BODY_CAPTURE) (drop p data)) else None))
                in Some \<lparr>cap_id = uuid, captured_at = now, duration_ms = None, cap_tunnel_id = tid, req_method = meth,
                     req_url = url, req_headers = sanitize_headers (raw_fields ls), req_body = body,
                     req_body_truncated = body_length > MAX_BODY_CAPTURE, resp_status = None, resp_headers = None,
                     resp_body = None, resp_body_truncated = False, remote_addr = addr, tls_version = None\<rparr>)
           | _ \<Rightarrow> None))"

definition server_parse_response_status :: "bytes \<Rightarrow> nat option" where
  "server_parse_response_status data =
     (case lines (utf8_lossy data) of
        [] \<Rightarrow> None
      | first # _ \<Rightarrow> (case split_whitespace first of _ # code # _ \<Rightarrow> parse_u16 code | _ \<Rightarrow> None))"

definition server_parse_response_headers :: "bytes \<Rightarrow> headers" where
  "server_parse_response_headers data =
     (case lines (utf8_lossy data) of [] \<Rightarrow> sanitize_headers [] | _ # ls \<Rightarrow> sanitize_headers (raw_fields ls))"

lemma raw_fields_eq: "raw_fields ls = capture_fields ls"
  by (induction ls) (auto split: option.splits)

text \<open>Both ends read a raw exchange alike.\<close>

lemma server_capture_is_client_capture:
  "capture_request_from_bytes uuid now data tid addr =
     map_option (\<lambda>c. c\<lparr>cap_tunnel_id := tid, remote_addr := addr,
         req_body_truncated := truncated_by data (length data) MAX_BODY_CAPTURE\<rparr>)
       (parse_request_for_capture uuid now data MAX_BODY_CAPTURE)"
  by (auto simp: capture_request_from_bytes_def parse_request_for_capture_def raw_fields_eq truncated_by_def capture_body_def
      find_body_offset_def Let_def split: list.splits option.splits)

lemma server_response_is_client_response:
  "server_parse_response_status data = capture_status data" "server_parse_response_headers data = capture_response_headers data"
  by (simp_all add: server_parse_response_status_def capture_status_def server_parse_response_headers_def
      capture_response_headers_def raw_fields_eq split: list.split)

end
