(* ===== verification/Tls.thy ===== *)
theory Tls
  imports Dns Server_Config
begin

text \<open>
  \<open>tls.rs\<close>: which certificate the server starts with, the ACME provisioning of a wildcard
  certificate over Cloudflare DNS, the files it keeps, and the renewal loop. Parameters are the
  ACME client (\<open>instant_acme\<close>), the key and CSR generator (\<open>rcgen\<close>), the PEM and X.509 parsers and
  the consistency check of \<open>rustls\<close>; the file system is a map from paths to files whose
  operations may fail.
\<close>

section \<open>Files\<close>

record disk_file =
  f_data :: bytes
  f_private :: bool

type_synonym files = "str \<Rightarrow> disk_file option"

datatype fs_action = MkDir str | WriteFile str bytes | Restrict str

text \<open>
  What the system makes of an operation. \<open>fs::write\<close> creates or truncates the file first, so a
  failed write may leave a part of the data.
\<close>

datatype fs_outcome = Performed | Refused str | Partly nat str

definition put_file :: "str \<Rightarrow> bytes \<Rightarrow> files \<Rightarrow> files" where
  "put_file path d fs = fs(path \<mapsto> \<lparr>f_data = d, f_private = (case fs path of Some f \<Rightarrow> f_private f | None \<Rightarrow> False)\<rparr>)"

fun perform :: "fs_outcome \<Rightarrow> fs_action \<Rightarrow> files \<Rightarrow> (str, unit) result \<times> files" where
  "perform (Refused e) _ fs = (Err e, fs)"
| "perform (Partly n e) (WriteFile path d) fs = (Err e, put_file path (take n d) fs)"
| "perform (Partly n e) _ fs = (Err e, fs)"
| "perform Performed (MkDir path) fs = (Ok (), fs)"
| "perform Performed (WriteFile path d) fs = (Ok (), put_file path d fs)"
| "perform Performed (Restrict path) fs = (case fs path of
     Some f \<Rightarrow> (Ok (), fs(path \<mapsto> f\<lparr>f_private := True\<rparr>))
   | None \<Rightarrow> (Err ''No such file or directory'', fs))"

fun perform_all :: "(fs_action \<Rightarrow> fs_outcome) \<Rightarrow> fs_action list \<Rightarrow> files \<Rightarrow> (str, unit) result \<times> files" where
  "perform_all io [] fs = (Ok (), fs)"
| "perform_all io (a # as) fs = (case perform (io a) a fs of
     (Inl e, fs1) \<Rightarrow> (Err e, fs1)
   | (Inr _, fs1) \<Rightarrow> perform_all io as fs1)"

definition read_file :: "str \<Rightarrow> files \<Rightarrow> (str, bytes) result" where
  "read_file path fs = (case fs path of Some f \<Rightarrow> Ok (f_data f) | None \<Rightarrow> Err ''No such file or directory'')"

definition cert_path :: "str \<Rightarrow> str" where
  "cert_path dir = path_join dir ''fullchain.pem''"

definition key_path :: "str \<Rightarrow> str" where
  "key_path dir = path_join dir ''privkey.pem''"

definition account_path :: "str \<Rightarrow> str" where
  "account_path dir = path_join dir ''acme_account.json''"

lemma paths_differ: "cert_path dir \<noteq> key_path dir" "account_path dir \<noteq> key_path dir" "account_path dir \<noteq> cert_path dir"
  by (simp_all add: cert_path_def key_path_def account_path_def path_join_def)

section \<open>The certificate source\<close>

datatype tls_source = BringYourOwn | CachedAcme | AcmeProvision | SelfSigned

definition cloudflare_acme_configured :: "config \<Rightarrow> bool" where
  "cloudflare_acme_configured c = (cf_api_token (cfg_cloudflare c) \<noteq> [] \<and> cf_zone_id (cfg_cloudflare c) \<noteq> [])"

definition select_tls_source :: "config \<Rightarrow> files \<Rightarrow> (str, tls_source) result" where
  "select_tls_source c fs =
     (let byo_cert = cert_file (cfg_tls c) \<noteq> None; byo_key = key_file (cfg_tls c) \<noteq> None in
      if byo_cert \<noteq> byo_key then Err ''tls.cert_file and tls.key_file must be configured together''
      else if byo_cert then Ok BringYourOwn
      else (case (fs (cert_path (cert_dir (cfg_tls c))) \<noteq> None, fs (key_path (cert_dir (cfg_tls c))) \<noteq> None) of
          (True, True) \<Rightarrow> Ok CachedAcme
        | (False, False) \<Rightarrow>
            (if cloudflare_acme_configured c then Ok AcmeProvision
             else if cf_api_token (cfg_cloudflare c) = [] \<and> cf_zone_id (cfg_cloudflare c) = [] then Ok SelfSigned
             else Err ''cloudflare.api_token and cloudflare.zone_id must be configured together'')
        | _ \<Rightarrow> Err (''incomplete cached ACME certificate in '' @ cert_dir (cfg_tls c) @
            '' (fullchain.pem and privkey.pem are both required)'')))"

section \<open>Loading\<close>

record server_tls =
  tc_certs :: "bytes list"
  tc_key :: bytes
  tc_alpn :: "str list"

datatype order_status = OrderPending | OrderReady | OrderProcessing | OrderValid | OrderInvalid

text \<open>
  The ACME client over the state \<open>'a\<close> of the remote side. An authorization of the order is an
  error of fetching it, or the TXT value of its DNS-01 challenge, if it offers one.
\<close>

record 'a acme_client =
  ac_restore :: "bytes \<Rightarrow> 'a \<Rightarrow> (str, unit) result \<times> 'a"
  ac_create :: "str \<Rightarrow> str \<Rightarrow> 'a \<Rightarrow> (str, bytes) result \<times> 'a"
  ac_new_order :: "str list \<Rightarrow> 'a \<Rightarrow> (str, unit) result \<times> 'a"
  ac_authorizations :: "'a \<Rightarrow> (str, str option) result list"
  ac_set_ready :: "str \<Rightarrow> 'a \<Rightarrow> (str, unit) result \<times> 'a"
  ac_refresh :: "'a \<Rightarrow> (str, order_status) result \<times> 'a"
  ac_finalize :: "bytes \<Rightarrow> 'a \<Rightarrow> (str, unit) result \<times> 'a"
  ac_certificate :: "'a \<Rightarrow> (str, bytes option) result \<times> 'a"

record 'a tls_env =
  te_acme :: "'a acme_client"
  te_production_url :: str
  te_staging_url :: str
  te_io :: "fs_action \<Rightarrow> fs_outcome"
  te_pem_certs :: "bytes \<Rightarrow> (str, bytes list) result"
  te_pem_key :: "bytes \<Rightarrow> (str, bytes option) result"
  te_single_cert :: "bytes list \<Rightarrow> bytes \<Rightarrow> (str, unit) result"
  te_key :: "(str, bytes) result"
  te_csr :: "str list \<Rightarrow> bytes \<Rightarrow> (str, bytes) result"
  te_self_signed :: "str list \<Rightarrow> (str, bytes \<times> bytes) result"
  te_not_after :: "bytes \<Rightarrow> (str, int) result"

definition load_from_files :: "'a tls_env \<Rightarrow> str \<Rightarrow> str \<Rightarrow> files \<Rightarrow> (str, server_tls) result" where
  "load_from_files env cpath kpath fs =
     and_then (read_file cpath fs) (\<lambda>cert_data.
     and_then (read_file kpath fs) (\<lambda>key_data.
     and_then (te_pem_certs env cert_data) (\<lambda>certs.
     and_then (te_pem_key env key_data) (\<lambda>k.
       (case k of
          None \<Rightarrow> Err (''no private key found in '' @ kpath)
        | Some key \<Rightarrow> and_then (te_single_cert env certs key)
            (\<lambda>_. Ok \<lparr>tc_certs = certs, tc_key = key, tc_alpn = [''http/1.1'']\<rparr>))))))"

definition generate_self_signed :: "'a tls_env \<Rightarrow> str \<Rightarrow> (str, server_tls) result" where
  "generate_self_signed env domain =
     and_then (te_self_signed env [domain, ''*.'' @ domain, ''localhost'']) (\<lambda>(cert, key).
     and_then (te_single_cert env [cert] key) (\<lambda>_. Ok \<lparr>tc_certs = [cert], tc_key = key, tc_alpn = []\<rparr>))"

text \<open>The two \<open>expect\<close> calls are the branch that gives \<open>None\<close>.\<close>

definition load_tls_config :: "'a tls_env \<Rightarrow> config \<Rightarrow> files \<Rightarrow> (str, server_tls) result option" where
  "load_tls_config env c fs =
     (case select_tls_source c fs of
        Inl e \<Rightarrow> Some (Err e)
      | Inr BringYourOwn \<Rightarrow> (case (cert_file (cfg_tls c), key_file (cfg_tls c)) of
            (Some cf, Some kf) \<Rightarrow> Some (load_from_files env cf kf fs)
          | _ \<Rightarrow> None)
      | Inr CachedAcme \<Rightarrow> Some (load_from_files env (cert_path (cert_dir (cfg_tls c))) (key_path (cert_dir (cfg_tls c))) fs)
      | Inr AcmeProvision \<Rightarrow> Some (Err ''no TLS certificate found; Cloudflare ACME provisioning is required'')
      | Inr SelfSigned \<Rightarrow> Some (generate_self_signed env (sc_domain (cfg_server c))))"

definition save_actions :: "bytes \<Rightarrow> bytes \<Rightarrow> str \<Rightarrow> fs_action list" where
  "save_actions cert_pem key_pem dir =
     [MkDir dir, WriteFile (cert_path dir) cert_pem, WriteFile (key_path dir) key_pem, Restrict (key_path dir)]"

definition save_cert :: "(fs_action \<Rightarrow> fs_outcome) \<Rightarrow> bytes \<Rightarrow> bytes \<Rightarrow> str \<Rightarrow> files \<Rightarrow> (str, unit) result \<times> files" where
  "save_cert io cert_pem key_pem dir fs = perform_all io (save_actions cert_pem key_pem dir) fs"

section \<open>Provisioning\<close>

text \<open>
  The state of a provisioning: the files, the remote ACME and DNS sides, the ids of the TXT records
  created so far (the \<open>Vec\<close> its caller owns) and the seconds slept. A step is a function of it;
  \<open>then_w\<close> is \<open>?\<close>.
\<close>

record ('a, 's) world =
  w_files :: files
  w_acme :: 'a
  w_dns :: 's
  w_txt :: "str list"
  w_slept :: nat

type_synonym ('a, 's, 'b) prov = "('a, 's) world \<Rightarrow> (str, 'b) result \<times> ('a, 's) world"

definition then_w :: "('a, 's, 'b) prov \<Rightarrow> ('b \<Rightarrow> ('a, 's, 'c) prov) \<Rightarrow> ('a, 's, 'c) prov" where
  "then_w m f w = (case m w of (Inl e, w1) \<Rightarrow> (Err e, w1) | (Inr b, w1) \<Rightarrow> f b w1)"

definition pure_w :: "(str, 'b) result \<Rightarrow> ('a, 's, 'b) prov" where
  "pure_w r w = (r, w)"

definition sleep_w :: "nat \<Rightarrow> ('a, 's, unit) prov" where
  "sleep_w n w = (Ok (), w\<lparr>w_slept := w_slept w + n\<rparr>)"

definition acme_w :: "str \<Rightarrow> ('a \<Rightarrow> (str, 'b) result \<times> 'a) \<Rightarrow> ('a, 's, 'b) prov" where
  "acme_w what op w = (case op (w_acme w) of
     (Inl e, a) \<Rightarrow> (Err (what @ '': '' @ e), w\<lparr>w_acme := a\<rparr>)
   | (Inr b, a) \<Rightarrow> (Ok b, w\<lparr>w_acme := a\<rparr>))"

definition files_w :: "'a tls_env \<Rightarrow> fs_action list \<Rightarrow> ('a, 's, unit) prov" where
  "files_w env as w = (case perform_all (te_io env) as (w_files w) of (r, fs) \<Rightarrow> (r, w\<lparr>w_files := fs\<rparr>))"

definition acme_account :: "'a tls_env \<Rightarrow> config \<Rightarrow> ('a, 's, unit) prov" where
  "acme_account env c w =
     (let path = account_path (cert_dir (cfg_tls c)) in
      case w_files w path of
        Some f \<Rightarrow> acme_w ''ACME restore'' (ac_restore (te_acme env) (f_data f)) w
      | None \<Rightarrow>
          then_w (acme_w ''ACME create'' (ac_create (te_acme env) (''mailto:'' @ acme_email (cfg_tls c))
              (if acme_env (cfg_tls c) = ''production'' then te_production_url env else te_staging_url env)))
            (\<lambda>creds. files_w env [WriteFile path creds, Restrict path]) w)"

definition order_names :: "config \<Rightarrow> str list" where
  "order_names c = [''*.'' @ sc_domain (cfg_server c), sc_domain (cfg_server c)]"

definition publish_txt :: "'s http_api \<Rightarrow> cloudflare_client \<Rightarrow> str \<Rightarrow> str \<Rightarrow> ('a, 's, unit) prov" where
  "publish_txt api cf name v w = (case create_txt_record api cf name v (w_dns w) of
     (Inl e, d) \<Rightarrow> (Err e, w\<lparr>w_dns := d\<rparr>)
   | (Inr record_id, d) \<Rightarrow> (Ok (), w\<lparr>w_dns := d, w_txt := w_txt w @ [record_id]\<rparr>))"

fun publish_challenges :: "'s http_api \<Rightarrow> cloudflare_client \<Rightarrow> str \<Rightarrow> (str, str option) result list \<Rightarrow> ('a, 's, unit) prov" where
  "publish_challenges api cf name [] w = (Ok (), w)"
| "publish_challenges api cf name (Inl e # as) w = (Err (''ACME auth: '' @ e), w)"
| "publish_challenges api cf name (Inr None # as) w = (Err ''No DNS-01 challenge found'', w)"
| "publish_challenges api cf name (Inr (Some v) # as) w =
     then_w (publish_txt api cf name v) (\<lambda>_. publish_challenges api cf name as) w"

fun ready_challenges :: "'a tls_env \<Rightarrow> (str, str option) result list \<Rightarrow> ('a, 's, unit) prov" where
  "ready_challenges env [] w = (Ok (), w)"
| "ready_challenges env (Inl e # as) w = (Err (''ACME auth: '' @ e), w)"
| "ready_challenges env (Inr None # as) w = ready_challenges env as w"
| "ready_challenges env (Inr (Some v) # as) w =
     then_w (acme_w ''ACME challenge ready'' (ac_set_ready (te_acme env) v)) (\<lambda>_. ready_challenges env as) w"

text \<open>The two polling loops; the status with which the loop was left is that of the order.\<close>

function poll_ready :: "'a tls_env \<Rightarrow> nat \<Rightarrow> ('a, 's, order_status) prov" where
  "poll_ready env attempts w =
     (case acme_w ''ACME refresh'' (ac_refresh (te_acme env)) w of
        (Inl e, w1) \<Rightarrow> (Err e, w1)
      | (Inr status, w1) \<Rightarrow>
          (if status = OrderReady \<or> status = OrderValid then (Ok status, w1)
           else if status = OrderPending then
             (if attempts + 1 > 30 then (Err ''ACME order still pending after 150s'', w1)
              else poll_ready env (attempts + 1) (w1\<lparr>w_slept := w_slept w1 + 5\<rparr>))
           else if status = OrderInvalid then (Err ''ACME order became invalid'', w1)
           else (Err ''Unexpected ACME order status'', w1)))"
  by pat_completeness auto
termination by (relation "measure (\<lambda>(_, attempts, _). 31 - attempts)") auto

function poll_valid :: "'a tls_env \<Rightarrow> nat \<Rightarrow> ('a, 's, unit) prov" where
  "poll_valid env attempts w =
     (case acme_w ''ACME refresh after finalize'' (ac_refresh (te_acme env)) w of
        (Inl e, w1) \<Rightarrow> (Err e, w1)
      | (Inr status, w1) \<Rightarrow>
          (if status = OrderValid then (Ok (), w1)
           else if status = OrderProcessing then
             (if attempts + 1 > 20 then (Err ''ACME order still processing after finalize'', w1)
              else poll_valid env (attempts + 1) (w1\<lparr>w_slept := w_slept w1 + 5\<rparr>))
           else (Err ''ACME order failed after finalize'', w1)))"
  by pat_completeness auto
termination by (relation "measure (\<lambda>(_, attempts, _). 21 - attempts)") auto

declare poll_ready.simps [simp del] poll_valid.simps [simp del]

definition finalize_order :: "'a tls_env \<Rightarrow> order_status \<Rightarrow> bytes \<Rightarrow> ('a, 's, unit) prov" where
  "finalize_order env status csr =
     (if status = OrderValid then pure_w (Ok ())
      else then_w (acme_w ''ACME finalize'' (ac_finalize (te_acme env) csr)) (\<lambda>_. poll_valid env 0))"

definition download_and_save :: "'a tls_env \<Rightarrow> config \<Rightarrow> bytes \<Rightarrow> ('a, 's, server_tls) prov" where
  "download_and_save env c key =
     then_w (acme_w ''ACME certificate'' (ac_certificate (te_acme env))) (\<lambda>chain.
       (case chain of
          None \<Rightarrow> pure_w (Err ''No certificate returned by ACME'')
        | Some cert_pem \<Rightarrow>
            then_w (files_w env (save_actions cert_pem key (cert_dir (cfg_tls c)))) (\<lambda>_ w.
              (load_from_files env (cert_path (cert_dir (cfg_tls c))) (key_path (cert_dir (cfg_tls c))) (w_files w), w))))"

definition provision_wildcard_cert_inner ::
  "'a tls_env \<Rightarrow> 's http_api \<Rightarrow> cloudflare_client \<Rightarrow> config \<Rightarrow> ('a, 's, server_tls) prov" where
  "provision_wildcard_cert_inner env api cf c =
     then_w (files_w env [MkDir (cert_dir (cfg_tls c))]) (\<lambda>_.
     then_w (acme_account env c) (\<lambda>_.
     then_w (acme_w ''ACME order'' (ac_new_order (te_acme env) (order_names c))) (\<lambda>_.
     then_w (\<lambda>w. publish_challenges api cf (''_acme-challenge.'' @ sc_domain (cfg_server c))
         (ac_authorizations (te_acme env) (w_acme w)) w) (\<lambda>_.
     then_w (sleep_w 30) (\<lambda>_.
     then_w (\<lambda>w. ready_challenges env (ac_authorizations (te_acme env) (w_acme w)) w) (\<lambda>_.
     then_w (poll_ready env 0) (\<lambda>status.
     then_w (pure_w (te_key env)) (\<lambda>key.
     then_w (pure_w (te_csr env (order_names c) key)) (\<lambda>csr.
     then_w (finalize_order env status csr) (\<lambda>_.
     download_and_save env c key))))))))))"

definition cloudflare_of :: "config \<Rightarrow> cloudflare_client" where
  "cloudflare_of c = cloudflare_new (cf_api_token (cfg_cloudflare c)) (cf_zone_id (cfg_cloudflare c))"

definition provision_wildcard_cert ::
  "'a tls_env \<Rightarrow> 's http_api \<Rightarrow> config \<Rightarrow> ('a, 's, server_tls) prov" where
  "provision_wildcard_cert env api c w =
     (let cf = cloudflare_of c in
      case provision_wildcard_cert_inner env api cf c (w\<lparr>w_txt := []\<rparr>) of
        (r, w1) \<Rightarrow>
          (case delete_records api cf (w_txt w1) (w_dns w1) of
             (cleanup, d) \<Rightarrow>
               (case (r, cleanup) of
                  (Inr tls, _) \<Rightarrow> Ok tls
                | (Inl e, Inr _) \<Rightarrow> Err e
                | (Inl e, Inl ce) \<Rightarrow> Err (e @ ''; additionally, TXT record cleanup failed: '' @ ce),
                w1\<lparr>w_dns := d\<rparr>)))"

section \<open>Renewal\<close>

definition cert_expires_within :: "'a tls_env \<Rightarrow> str \<Rightarrow> int \<Rightarrow> int \<Rightarrow> files \<Rightarrow> (str, bool) result" where
  "cert_expires_within env path threshold now fs =
     and_then (read_file path fs) (\<lambda>cert_data.
     and_then (te_pem_certs env cert_data) (\<lambda>certs.
       (case certs of
          [] \<Rightarrow> Err ''No certificates found in PEM file''
        | cert # _ \<Rightarrow> and_then (te_not_after env cert) (\<lambda>not_after. Ok (not_after - now < threshold)))))"

definition acme_managed :: "config \<Rightarrow> bool" where
  "acme_managed c = (cloudflare_acme_configured c \<and> cert_file (cfg_tls c) = None \<and> key_file (cfg_tls c) = None)"

text \<open>One tick of the loop, at \<open>now\<close>; the second component is the watch channel.\<close>

definition renewal_round ::
  "'a tls_env \<Rightarrow> 's http_api \<Rightarrow> config \<Rightarrow> int \<Rightarrow> ('a, 's) world \<times> server_tls option \<Rightarrow> ('a, 's) world \<times> server_tls option" where
  "renewal_round env api c now = (\<lambda>(w, serving).
     (if \<not> acme_managed c then (w, serving)
      else if w_files w (cert_path (cert_dir (cfg_tls c))) = None then (w, serving)
      else (case cert_expires_within env (cert_path (cert_dir (cfg_tls c))) (30 * 24 * 3600) now (w_files w) of
          Inr True \<Rightarrow> (case provision_wildcard_cert env api c w of
              (Inr tls, w1) \<Rightarrow> (w1, Some tls)
            | (Inl e, w1) \<Rightarrow> (w1, serving))
        | _ \<Rightarrow> (w, serving))))"

text \<open>The loop: the ticks after the first, each with what the environment does during it.\<close>

fun cert_renewal_loop ::
  "'s http_api \<Rightarrow> config \<Rightarrow> ('a tls_env \<times> int) list \<Rightarrow> ('a, 's) world \<times> server_tls option \<Rightarrow> ('a, 's) world \<times> server_tls option" where
  "cert_renewal_loop api c [] st = st"
| "cert_renewal_loop api c ((env, now) # rounds) st = cert_renewal_loop api c rounds (renewal_round env api c now st)"

end
