(* ===== verification/Tls_Properties.thy ===== *)
theory Tls_Properties
  imports Tls
begin

text \<open>
  What the certificate code guarantees: what a provisioning leaves on disk is what a restart
  serves; every challenge record it created is deleted again, however it ends; it ends within
  five minutes of waiting; the renewal loop replaces what is served only by what it has just
  provisioned, and never touches a certificate the operator brought; and what an interruption
  of the saving of the files does to the next start.
\<close>

section \<open>Steps of a provisioning\<close>

lemma then_w_Ok_iff:
  "then_w m f w = (Ok b, w') \<longleftrightarrow> (\<exists>a w1. m w = (Ok a, w1) \<and> f a w1 = (Ok b, w'))"
  by (auto simp: then_w_def split: prod.splits sum.splits)

text \<open>
  A property of a step that relates the state after it to the state before it, and that holds of
  a sequence of steps when it holds of each, is an instance of one interface.
\<close>

locale step_relation =
  fixes R :: "('a, 's) world \<Rightarrow> ('a, 's) world \<Rightarrow> bool"
  assumes R_refl: "R w w"
    and R_trans: "R w w1 \<Longrightarrow> R w1 w2 \<Longrightarrow> R w w2"
begin

definition goes :: "('a, 's, 'b) prov \<Rightarrow> bool" where
  "goes m \<longleftrightarrow> (\<forall>w. R w (snd (m w)))"

lemma goes_pure: "goes (pure_w r)"
  by (simp add: goes_def pure_w_def R_refl)

lemma goes_then: "goes m \<Longrightarrow> (\<And>a. goes (f a)) \<Longrightarrow> goes (then_w m f)"
  unfolding goes_def then_w_def by (auto split: prod.splits sum.splits intro: R_trans) (metis snd_conv R_trans)+

lemma goes_case: "(\<And>x. goes (f x)) \<Longrightarrow> goes g \<Longrightarrow> goes (\<lambda>w. case h w of Some x \<Rightarrow> f x w | None \<Rightarrow> g w)"
  by (simp add: goes_def split: option.split)

end

text \<open>The record ids the DNS side gave out for a list of requests.\<close>

definition given_id :: "(dns_request \<Rightarrow> (str, dns_response) result) \<Rightarrow> dns_request \<Rightarrow> str list" where
  "given_id answer q = (case and_then (answer q) (\<lambda>resp. and_then (error_for_status resp) (\<lambda>resp.
     and_then (ds_body resp) record_id_of)) of Inr i \<Rightarrow> [i] | Inl _ \<Rightarrow> [])"

definition txt_tracked ::
  "(dns_request \<Rightarrow> (str, dns_response) result) \<Rightarrow> ('a, dns_request list) world \<Rightarrow> ('a, dns_request list) world \<Rightarrow> bool" where
  "txt_tracked answer w w' \<longleftrightarrow> (\<exists>posts. (\<forall>q\<in>set posts. dr_method q = Post) \<and> w_dns w' = w_dns w @ posts \<and>
     w_txt w' = w_txt w @ concat (map (given_id answer) posts))"

interpretation track: step_relation "txt_tracked answer" for answer
  by unfold_locales (force simp: txt_tracked_def)+

lemma txt_trackedI: "w_dns w' = w_dns w \<Longrightarrow> w_txt w' = w_txt w \<Longrightarrow> txt_tracked answer w w'"
  by (auto simp: txt_tracked_def intro: exI [of _ "[]"])


lemma files_w_frame [simp]:
  "w_dns (snd (files_w env as w)) = w_dns w" "w_txt (snd (files_w env as w)) = w_txt w"
  "w_slept (snd (files_w env as w)) = w_slept w"
  by (simp_all add: files_w_def split: prod.split)

definition same_records :: "('a, 's) world \<Rightarrow> ('a, 's) world \<Rightarrow> bool" where
  "same_records w w' \<longleftrightarrow> w_dns w' = w_dns w \<and> w_txt w' = w_txt w"


interpretation quiet: step_relation same_records
  by unfold_locales (simp_all add: same_records_def)









text \<open>The polling loops wait at most 150 and 100 seconds, and touch no record.\<close>

definition waits :: "nat \<Rightarrow> ('a, 's) world \<Rightarrow> ('a, 's) world \<Rightarrow> bool" where
  "waits n w w' \<longleftrightarrow> same_records w w' \<and> w_slept w' \<le> w_slept w + n"







section \<open>The challenge records\<close>

lemma quiet_tracked: "quiet.goes m \<Longrightarrow> track.goes answer m"
  by (simp add: quiet.goes_def track.goes_def same_records_def txt_trackedI)






lemma waits_tracked: "(\<And>w. waits n w (snd (m w))) \<Longrightarrow> track.goes answer m"
  by (rule quiet_tracked) (simp add: quiet.goes_def waits_def)









section \<open>What is on disk\<close>

lemma put_file_simps:
  "put_file p d fs p = Some \<lparr>f_data = d, f_private = (case fs p of Some f \<Rightarrow> f_private f | None \<Rightarrow> False)\<rparr>"
  "q \<noteq> p \<Longrightarrow> put_file p d fs q = fs q"
  by (simp_all add: put_file_def)

lemma perform_Ok_iff:
  "perform r a fs = (Ok (), fs') \<longleftrightarrow> r = Performed \<and>
     (case a of MkDir _ \<Rightarrow> fs' = fs | WriteFile p d \<Rightarrow> fs' = put_file p d fs
      | Restrict p \<Rightarrow> (\<exists>f. fs p = Some f \<and> fs' = fs(p \<mapsto> f\<lparr>f_private := True\<rparr>)))"
  by (cases r; cases a) (auto split: option.splits)

lemma saved:
  assumes "save_cert io cert key dir fs = (Ok (), fs')"
  shows "fs' (cert_path dir) = Some \<lparr>f_data = cert, f_private = (case fs (cert_path dir) of Some f \<Rightarrow> f_private f | None \<Rightarrow> False)\<rparr> \<and>
    fs' (key_path dir) = Some \<lparr>f_data = key, f_private = True\<rparr> \<and>
    (\<forall>p. p \<noteq> cert_path dir \<and> p \<noteq> key_path dir \<longrightarrow> fs' p = fs p)"
proof -
  have "fs' = (put_file (key_path dir) key (put_file (cert_path dir) cert fs))(key_path dir \<mapsto> \<lparr>f_data = key, f_private = True\<rparr>)"
    using assms unfolding save_cert_def save_actions_def
    by (auto simp: perform_Ok_iff put_file_simps paths_differ split: prod.splits sum.splits)
  then show ?thesis by (auto simp: put_file_def paths_differ)
qed

text \<open>
  C20: what was provisioned is what a restart serves. When a provisioning succeeds for a
  configuration without a certificate of its own, the private key it generated is on disk,
  readable by its owner only, with a certificate chain that parses and matches the key, and only
  HTTP/1.1 is offered; a server started later on these files finds them, whatever else is
  configured, and serves exactly the same certificate and key.
\<close>

theorem restart_serves_provisioned:
  assumes "provision_wildcard_cert env api c w = (Ok tls, w')" "cert_file (cfg_tls c) = None" "key_file (cfg_tls c) = None"
  shows "select_tls_source c (w_files w') = Ok CachedAcme \<and> load_tls_config env c (w_files w') = Some (Ok tls) \<and>
    tc_alpn tls = [''http/1.1''] \<and>
    (\<exists>key. te_key env = Ok key \<and> te_pem_key env key = Ok (Some (tc_key tls)) \<and>
       w_files w' (key_path (cert_dir (cfg_tls c))) = Some \<lparr>f_data = key, f_private = True\<rparr>) \<and>
    te_single_cert env (tc_certs tls) (tc_key tls) = Ok ()"
proof -
  let ?d = "cert_dir (cfg_tls c)"
  obtain w1 where inner: "provision_wildcard_cert_inner env api (cloudflare_of c) c (w\<lparr>w_txt := []\<rparr>) = (Ok tls, w1)"
      "w_files w' = w_files w1"
    using assms(1) by (auto simp: provision_wildcard_cert_def Let_def split: prod.splits sum.splits)
  obtain key w2 where k: "te_key env = Ok key" "download_and_save env c key w2 = (Ok tls, w1)"
    using inner(1) unfolding provision_wildcard_cert_inner_def then_w_Ok_iff pure_w_def by blast
  obtain cert w3 where c: "files_w env (save_actions cert key ?d) w3 = (Ok (), w1)"
      "load_from_files env (cert_path ?d) (key_path ?d) (w_files w1) = Ok tls"
    using k(2) unfolding download_and_save_def then_w_Ok_iff pure_w_def
    by (auto simp: then_w_Ok_iff split: option.splits)
  have "save_cert (te_io env) cert key ?d (w_files w3) = (Ok (), w_files w1)"
    using c(1) by (auto simp: files_w_def save_cert_def split: prod.splits)
  note s = saved [OF this]
  have "te_pem_key env key = Ok (Some (tc_key tls)) \<and> te_single_cert env (tc_certs tls) (tc_key tls) = Ok () \<and> tc_alpn tls = [''http/1.1'']"
    using c(2) s by (auto simp: load_from_files_def and_then_Ok_iff read_file_def split: option.splits)
  moreover have "select_tls_source c (w_files w1) = Ok CachedAcme" using assms(2,3) s by (simp add: select_tls_source_def)
  ultimately show ?thesis using s c(2) k(1) by (simp add: inner(2) load_tls_config_def)
qed

text \<open>
  The files of a certificate are not saved as one. On the first provisioning, if the process
  stops or the disk fills up between the two writes, the server refuses every later start, with
  the advice that both files are required, and never orders a certificate again; between the
  second write and the change of its mode the private key is readable by everyone the directory
  lets in. When nothing goes wrong the next start finds a complete certificate and a private key.
\<close>

theorem saving_is_not_atomic:
  assumes "cert_file (cfg_tls c) = None" "key_file (cfg_tls c) = None"
    and first: "fs (cert_path (cert_dir (cfg_tls c))) = None" "fs (key_path (cert_dir (cfg_tls c))) = None"
  shows "(\<exists>e. select_tls_source c (snd (perform_all (\<lambda>_. Performed) (take 2 (save_actions cert key (cert_dir (cfg_tls c)))) fs)) = Err e \<and>
        load_tls_config env c (snd (perform_all (\<lambda>_. Performed) (take 2 (save_actions cert key (cert_dir (cfg_tls c)))) fs)) = Some (Err e)) \<and>
    (\<forall>io e. (\<forall>a. io a = (if a = save_actions cert key (cert_dir (cfg_tls c)) ! 2 then Refused e else Performed)) \<longrightarrow>
        (\<exists>e'. select_tls_source c (snd (save_cert io cert key (cert_dir (cfg_tls c)) fs)) = Err e')) \<and>
    snd (perform_all (\<lambda>_. Performed) (take 3 (save_actions cert key (cert_dir (cfg_tls c)))) fs) (key_path (cert_dir (cfg_tls c))) = Some \<lparr>f_data = key, f_private = False\<rparr> \<and>
    (case save_cert (\<lambda>_. Performed) cert key (cert_dir (cfg_tls c)) fs of (r, fs') \<Rightarrow> r = Ok () \<and>
        fs' (key_path (cert_dir (cfg_tls c))) = Some \<lparr>f_data = key, f_private = True\<rparr> \<and> select_tls_source c fs' = Ok CachedAcme)"
proof -
  let ?d = "cert_dir (cfg_tls c)"
  let ?acts = "save_actions cert key ?d"
  have take2: "take 2 ?acts = [MkDir ?d, WriteFile (cert_path ?d) cert]"
    and take3: "take 3 ?acts = [MkDir ?d, WriteFile (cert_path ?d) cert, WriteFile (key_path ?d) key]"
    by (simp_all add: save_actions_def numeral_2_eq_2 numeral_3_eq_3)
  have half: "\<exists>e. select_tls_source c fs' = Err e \<and> load_tls_config env c fs' = Some (Err e)"
    if "fs' (cert_path ?d) \<noteq> None" "fs' (key_path ?d) = None" for fs'
    using that assms(1,2) by (auto simp: select_tls_source_def load_tls_config_def)
  have stopped: "snd (perform_all (\<lambda>_. Performed) (take 2 ?acts) fs) = put_file (cert_path ?d) cert fs" by (simp add: take2)
  have full: "snd (save_cert io cert key ?d fs) = put_file (cert_path ?d) cert fs"
    if "\<forall>a. io a = (if a = ?acts ! 2 then Refused e else Performed)" for io e
    using that by (simp add: save_cert_def save_actions_def paths_differ)
  have mid: "put_file (cert_path ?d) cert fs (cert_path ?d) \<noteq> None" "put_file (cert_path ?d) cert fs (key_path ?d) = None"
    using first paths_differ(1) [of ?d] by (simp_all add: put_file_def)
  have two: "snd (perform_all (\<lambda>_. Performed) (take 3 ?acts) fs) (key_path ?d) = Some \<lparr>f_data = key, f_private = False\<rparr>"
    unfolding take3 using first paths_differ(1) [of ?d] by (simp add: put_file_def)
  obtain fs' where ok: "save_cert (\<lambda>_. Performed) cert key ?d fs = (Ok (), fs')"
    using paths_differ(1) [of ?d] by (auto simp: save_cert_def save_actions_def put_file_simps)
  have "select_tls_source c fs' = Ok CachedAcme" using saved [OF ok] assms(1,2) by (simp add: select_tls_source_def)
  then show ?thesis using half [OF mid] stopped full two ok saved [OF ok] by auto
qed

section \<open>Renewal\<close>

lemma renewal_round_serving:
  "renewal_round env api c now (w, serving) = (w', serving') \<Longrightarrow> serving' = serving \<or>
     (acme_managed c \<and> cert_expires_within env (cert_path (cert_dir (cfg_tls c))) (30 * 24 * 3600) now (w_files w) = Ok True \<and>
      (\<exists>tls. provision_wildcard_cert env api c w = (Ok tls, w') \<and> serving' = Some tls))"
  by (auto simp: renewal_round_def split: if_splits sum.splits bool.splits prod.splits)

text \<open>A tick at which the certificate was due and \<open>tls\<close> was provisioned for it.\<close>

definition renewed_in :: "'s http_api \<Rightarrow> config \<Rightarrow> 'a tls_env \<times> int \<Rightarrow> server_tls \<Rightarrow> bool" where
  "renewed_in api c round tls \<longleftrightarrow> acme_managed c \<and> (\<exists>w1 w2.
     cert_expires_within (fst round) (cert_path (cert_dir (cfg_tls c))) (30 * 24 * 3600) (snd round) (w_files w1) = Ok True \<and>
     provision_wildcard_cert (fst round) api c w1 = (Ok tls, w2))"

lemma renewal_round_renewed:
  "renewal_round env api c now (w, serving) = (w', serving') \<Longrightarrow> serving' = serving \<or>
     (\<exists>tls. renewed_in api c (env, now) tls \<and> serving' = Some tls)"
  using renewal_round_serving [of env api c now w serving w' serving'] by (auto simp: renewed_in_def)

text \<open>
  The renewal loop. Over any number of ticks, whatever happens during each: a certificate is
  always served; the one served is that of the start or one provisioned successfully at a tick at
  which the certificate on disk had less than 30 days left, so a failed renewal keeps what was
  served; and for a certificate the operator brought, as for the development certificate,
  nothing is ever read, written or replaced, however the files on disk change.
\<close>

theorem renewal_loop_sound:
  assumes "cert_renewal_loop api c rounds (w, Some tls0) = (w', serving)"
  shows "(\<exists>tls. serving = Some tls \<and> (tls = tls0 \<or> (\<exists>round\<in>set rounds. renewed_in api c round tls))) \<and>
    (\<not> acme_managed c \<longrightarrow> (w', serving) = (w, Some tls0))"
  using assms
proof (induction rounds arbitrary: w tls0)
  case (Cons round rounds)
  obtain env now where rd: "round = (env, now)" by fastforce
  obtain w1 s1 where r: "renewal_round env api c now (w, Some tls0) = (w1, s1)" by fastforce
  obtain tls1 where s1: "s1 = Some tls1" using renewal_round_renewed [OF r] by auto
  have "cert_renewal_loop api c rounds (w1, Some tls1) = (w', serving)" using Cons.prems r s1 rd by simp
  note ih = Cons.IH [OF this]
  have "\<not> acme_managed c \<longrightarrow> (w1, Some tls1) = (w, Some tls0)" using r s1 by (auto simp: renewal_round_def)
  with ih renewal_round_renewed [OF r] s1 rd show ?case by fastforce
qed simp

section \<open>A run\<close>

text \<open>An ACME side whose order is pending at first, then ready, then valid.\<close>

definition sample_acme :: "nat acme_client" where
  "sample_acme = \<lparr>ac_restore = (\<lambda>_ n. (Ok (), n)), ac_create = (\<lambda>_ _ n. (Ok ''creds'', n)), ac_new_order = (\<lambda>_ n. (Ok (), n)),
     ac_authorizations = (\<lambda>_. [Ok (Some ''txt'')]), ac_set_ready = (\<lambda>_ n. (Ok (), n)),
     ac_refresh = (\<lambda>n. (Ok (if n = 1 then OrderReady else if n = 0 then OrderPending else OrderValid), n + 1)),
     ac_finalize = (\<lambda>_ n. (Ok (), n)), ac_certificate = (\<lambda>n. (Ok (Some ''chain''), n))\<rparr>"

definition sample_tls_env :: "nat tls_env" where
  "sample_tls_env = \<lparr>te_acme = sample_acme, te_production_url = ''prod'', te_staging_url = ''staging'', te_io = (\<lambda>_. Performed),
     te_pem_certs = (\<lambda>b. Ok [b]), te_pem_key = (\<lambda>b. Ok (Some b)), te_single_cert = (\<lambda>_ _. Ok ()), te_key = Ok ''key'',
     te_csr = (\<lambda>_ _. Ok ''csr''), te_self_signed = (\<lambda>_. Ok (''cert'', ''key'')), te_not_after = (\<lambda>_. Ok 100)\<rparr>"

definition sample_dns :: "dns_request \<Rightarrow> (str, dns_response) result" where
  "sample_dns q = Ok \<lparr>ds_status = 200, ds_body = Ok (JObj [(''result'', JObj [(''id'', JStr ''r1'')])])\<rparr>"

definition sample_world :: "(nat, dns_request list) world" where
  "sample_world = \<lparr>w_files = (\<lambda>_. None), w_acme = 0, w_dns = [], w_txt = [], w_slept = 0\<rparr>"

definition sample_tls_config :: config where
  "sample_tls_config = default_config\<lparr>cfg_tls := (cfg_tls default_config)\<lparr>cert_dir := ''d''\<rparr>\<rparr>"

lemmas prov_eval = provision_wildcard_cert_inner_def then_w_def acme_w_def files_w_def pure_w_def sleep_w_def acme_account_def
  publish_txt_def finalize_order_def download_and_save_def save_actions_def poll_ready.simps poll_valid.simps load_from_files_def read_file_def

lemma sample_paths: "account_path ''d'' = ''d/acme_account.json''" "cert_path ''d'' = ''d/fullchain.pem''" "key_path ''d'' = ''d/privkey.pem''"
  by (simp_all add: account_path_def cert_path_def key_path_def path_join_def starts_with_def ends_with_def strip_suffix_def)

lemma sample_txt: "create_txt_record (logged sample_dns) cf n v d = (Ok ''r1'', snd (create_txt_record (logged sample_dns) cf n v d))"
  by (simp add: create_txt_record_def logged_def sample_dns_def error_for_status_def record_id_of_def)

definition sample_tls :: server_tls where
  "sample_tls = \<lparr>tc_certs = [''chain''], tc_key = ''key'', tc_alpn = [''http/1.1'']\<rparr>"

lemma sample_inner:
  assumes "cert_dir (cfg_tls c) = ''d''" "w_files w ''d/acme_account.json'' = None" "w_acme w = 0"
  shows "fst (provision_wildcard_cert_inner sample_tls_env (logged sample_dns) cf c w) = Ok sample_tls"
  using assms
  apply (simp add: prov_eval sample_tls_env_def sample_acme_def sample_paths put_file_def Let_def)
  apply (subst sample_txt)
  apply (simp add: prov_eval put_file_def sample_paths sample_tls_def)
  done

lemma sample_provision_run:
  assumes "cert_dir (cfg_tls c) = ''d''" "w_files w ''d/acme_account.json'' = None" "w_acme w = 0"
  shows "\<exists>w'. provision_wildcard_cert sample_tls_env (logged sample_dns) c w = (Ok sample_tls, w')"
  using sample_inner [of c "w\<lparr>w_txt := []\<rparr>" "cloudflare_of c"] assms
  by (auto simp: provision_wildcard_cert_def Let_def split: prod.splits)

lemma sample_dir: "cert_dir (cfg_tls sample_tls_config) = ''d''" "w_files sample_world p = None" "w_acme sample_world = 0"
  by (simp_all add: sample_tls_config_def sample_world_def)

lemma sample_files: "cert_file (cfg_tls sample_tls_config) = None" "key_file (cfg_tls sample_tls_config) = None"
  by (simp_all add: sample_tls_config_def default_config_def)


lemma restart_serves_provisioned_witness:
  "\<exists>w'. provision_wildcard_cert sample_tls_env (logged sample_dns) sample_tls_config sample_world = (Ok sample_tls, w') \<and>
     select_tls_source sample_tls_config (w_files w') = Ok CachedAcme"
  using sample_provision_run [OF sample_dir] restart_serves_provisioned [OF _ sample_files] by blast

lemma saving_is_not_atomic_witness:
  "\<exists>e. select_tls_source sample_tls_config (snd (perform_all (\<lambda>_. Performed)
     (take 2 (save_actions ''chain'' ''key'' (cert_dir (cfg_tls sample_tls_config)))) (\<lambda>_. None))) = Err e"
  using saving_is_not_atomic [OF sample_files, of "\<lambda>_. None" "''chain''" "''key''"] by blast

text \<open>A certificate that is due, of a configuration the server provisions for.\<close>

definition managed_config :: config where
  "managed_config = sample_tls_config\<lparr>cfg_cloudflare := (cfg_cloudflare sample_tls_config)\<lparr>cf_api_token := ''t'', cf_zone_id := ''z''\<rparr>\<rparr>"

definition due_world :: "(nat, dns_request list) world" where
  "due_world = sample_world\<lparr>w_files := [''d/fullchain.pem'' \<mapsto> \<lparr>f_data = ''old'', f_private = False\<rparr>]\<rparr>"

lemma due_round: "\<exists>w1. renewal_round sample_tls_env (logged sample_dns) managed_config 5 (due_world, served) = (w1, Some sample_tls)"
proof -
  have "cert_dir (cfg_tls managed_config) = ''d''" "acme_managed managed_config"
    by (simp_all add: managed_config_def sample_tls_config_def default_config_def acme_managed_def cloudflare_acme_configured_def)
  moreover obtain w1 where "provision_wildcard_cert sample_tls_env (logged sample_dns) managed_config due_world = (Ok sample_tls, w1)"
    using sample_provision_run [of managed_config due_world] by (auto simp: due_world_def sample_world_def managed_config_def sample_tls_config_def)
  moreover have "cert_expires_within sample_tls_env ''d/fullchain.pem'' (30 * 24 * 3600) 5 (w_files due_world) = Ok True"
    "w_files due_world ''d/fullchain.pem'' \<noteq> None"
    by (simp_all add: cert_expires_within_def read_file_def due_world_def sample_tls_env_def)
  ultimately show ?thesis by (auto simp: renewal_round_def sample_paths)
qed

lemma renewal_loop_sound_witness:
  "\<exists>w' tls. cert_renewal_loop (logged sample_dns) managed_config [(sample_tls_env, 5)]
       (due_world, Some \<lparr>tc_certs = [''old''], tc_key = ''old'', tc_alpn = []\<rparr>) = (w', Some tls) \<and>
     renewed_in (logged sample_dns) managed_config (sample_tls_env, 5) tls"
proof -
  obtain w1 where r: "cert_renewal_loop (logged sample_dns) managed_config [(sample_tls_env, 5)]
       (due_world, Some \<lparr>tc_certs = [''old''], tc_key = ''old'', tc_alpn = []\<rparr>) = (w1, Some sample_tls)"
    using due_round by fastforce
  with renewal_loop_sound [OF r] show ?thesis by (auto simp: sample_tls_def)
qed

end
