(* ===== verification/Metrics.thy ===== *)
theory Metrics
  imports Rust_Net Proto_Messages
begin

text \<open>
  \<open>metrics.rs\<close>: the metrics the server registers at its start, the endpoint that serves them, and
  what one relayed response adds to them (\<open>proxy.rs\<close>). Creating and registering a metric is the
  \<open>prometheus\<close> crate, a parameter; a failure of either is a panic, \<open>None\<close>. A counter is an atomic
  \<open>u64\<close>, a gauge an \<open>i64\<close>.
\<close>

datatype metric_kind = IntGauge | IntCounter | IntCounterVec "str list" | HistogramVec "nat list" "str list"

record metric =
  mt_name :: str
  mt_help :: str
  mt_kind :: metric_kind

definition server_metrics :: "metric list" where
  "server_metrics =
     [\<lparr>mt_name = ''rgrok_active_tunnels'', mt_help = ''Number of active tunnels'', mt_kind = IntGauge\<rparr>,
      \<lparr>mt_name = ''rgrok_requests_total'', mt_help = ''Total proxied requests by status'', mt_kind = IntCounterVec [''status'']\<rparr>,
      \<lparr>mt_name = ''rgrok_request_duration_ms'', mt_help = ''Request duration in milliseconds'',
        mt_kind = HistogramVec [5, 10, 25, 50, 100, 250, 500, 1000, 2500] [''method'']\<rparr>,
      \<lparr>mt_name = ''rgrok_bytes_in_total'', mt_help = ''Total bytes received from clients'', mt_kind = IntCounter\<rparr>,
      \<lparr>mt_name = ''rgrok_bytes_out_total'', mt_help = ''Total bytes sent to clients'', mt_kind = IntCounter\<rparr>,
      \<lparr>mt_name = ''rgrok_ws_connections_active'', mt_help = ''Active WebSocket control connections'', mt_kind = IntGauge\<rparr>,
      \<lparr>mt_name = ''rgrok_tcp_reservations_retained'',
        mt_help = ''TCP port reservations retained after listener shutdown timed out'', mt_kind = IntGauge\<rparr>,
      \<lparr>mt_name = ''rgrok_buffered_request_body_bytes'',
        mt_help = ''Bytes held in currently buffered public request bodies'', mt_kind = IntGauge\<rparr>,
      \<lparr>mt_name = ''rgrok_tunnel_errors_total'', mt_help = ''Total tunnel errors by kind'', mt_kind = IntCounterVec [''kind'']\<rparr>]"

fun register_all ::
  "(metric \<Rightarrow> (str, metric) result) \<Rightarrow> (metric list \<Rightarrow> metric \<Rightarrow> (str, metric list) result) \<Rightarrow> metric list \<Rightarrow> metric list \<Rightarrow>
   metric list option" where
  "register_all create register [] registry = Some registry"
| "register_all create register (m # ms) registry =
     (case create m of
        Inl e \<Rightarrow> None
      | Inr x \<Rightarrow> (case register registry x of Inl e \<Rightarrow> None | Inr registry1 \<Rightarrow> register_all create register ms registry1))"

definition metrics_new ::
  "(metric \<Rightarrow> (str, metric) result) \<Rightarrow> (metric list \<Rightarrow> metric \<Rightarrow> (str, metric list) result) \<Rightarrow> metric list option" where
  "metrics_new create register = register_all create register server_metrics []"

text \<open>\<open>serve\<close>: port 0 disables the endpoint; it is never bound to a public address.\<close>

definition metrics_serve :: "port \<Rightarrow> str option" where
  "metrics_serve p = (if p = 0 then None else Some (''127.0.0.1:'' @ show_nat p))"

definition metrics_handler :: "(metric list \<Rightarrow> bytes) \<Rightarrow> metric list \<Rightarrow> (str \<times> str) \<times> bytes" where
  "metrics_handler encode registry = ((''content-type'', ''text/plain; version=0.0.4; charset=utf-8''), encode registry)"

section \<open>What a relayed response adds\<close>

record metric_values =
  mv_requests_total :: "str \<Rightarrow> 64 word"
  mv_observations :: "(str \<times> nat) list"
  mv_bytes_in :: "64 word"
  mv_bytes_out :: "64 word"

definition record_exchange :: "nat \<Rightarrow> str \<Rightarrow> nat \<Rightarrow> nat \<Rightarrow> nat \<Rightarrow> nat \<Rightarrow> metric_values \<Rightarrow> metric_values" where
  "record_exchange status meth duration_ms raw_len body_len reply_len v =
     v\<lparr>mv_requests_total := (mv_requests_total v)(show_nat status := mv_requests_total v (show_nat status) + 1),
       mv_observations := mv_observations v @ [(meth, duration_ms)],
       mv_bytes_in := mv_bytes_in v + word_of_nat (raw_len + body_len),
       mv_bytes_out := mv_bytes_out v + word_of_nat reply_len\<rparr>"

section \<open>The registration never panics\<close>

text \<open>
  What the crate documents: a metric can be created when its name is a letter or underscore followed
  by letters, digits, underscores and colons, and is registered when no other has its name.
\<close>

definition name_byte :: "byte \<Rightarrow> bool" where
  "name_byte c = (c \<in> set ''abcdefghijklmnopqrstuvwxyzABCDEFGHIJKLMNOPQRSTUVWXYZ0123456789_:'')"

definition metric_name_ok :: "str \<Rightarrow> bool" where
  "metric_name_ok n = (n \<noteq> [] \<and> hd n \<notin> set ''0123456789'' \<and> list_all name_byte n)"

definition prometheus_ok ::
  "(metric \<Rightarrow> (str, metric) result) \<Rightarrow> (metric list \<Rightarrow> metric \<Rightarrow> (str, metric list) result) \<Rightarrow> bool" where
  "prometheus_ok create register \<longleftrightarrow> (\<forall>m. metric_name_ok (mt_name m) \<longrightarrow> create m = Ok m) \<and>
     (\<forall>registry m. mt_name m \<notin> mt_name ` set registry \<longrightarrow> register registry m = Ok (registry @ [m]))"

lemma register_all_ok:
  assumes "prometheus_ok create register" "list_all (\<lambda>m. metric_name_ok (mt_name m)) ms"
    "distinct (map mt_name ms)" "\<forall>m\<in>set ms. mt_name m \<notin> mt_name ` set registry"
  shows "register_all create register ms registry = Some (registry @ ms)"
  using assms(2-4)
proof (induction ms arbitrary: registry)
  case (Cons m ms)
  then have "create m = Ok m" "register registry m = Ok (registry @ [m])"
    using assms(1) by (auto simp: prometheus_ok_def)
  moreover have "\<forall>x\<in>set ms. mt_name x \<notin> mt_name ` set (registry @ [m])" 
  proof
    fix x assume x: "x \<in> set ms"
    have "mt_name m \<notin> mt_name ` set ms" using Cons.prems(2) by simp
    then have "mt_name x \<noteq> mt_name m" using imageI [OF x, of mt_name] by metis
    moreover have "mt_name x \<notin> mt_name ` set registry" using Cons.prems(3) x by simp
    ultimately show "mt_name x \<notin> mt_name ` set (registry @ [m])" by simp
  qed
  ultimately show ?case using Cons.IH [of "registry @ [m]"] Cons.prems by simp
qed simp

lemma metrics_new_total:
  assumes "prometheus_ok create register"
  shows "metrics_new create register = Some server_metrics"
proof -
  have "list_all (\<lambda>m. metric_name_ok (mt_name m)) server_metrics"
    by (simp add: server_metrics_def metric_name_ok_def name_byte_def)
  moreover have "distinct (map mt_name server_metrics)" by (simp add: server_metrics_def)
  ultimately show ?thesis using register_all_ok [OF assms] by (simp add: metrics_new_def)
qed

end
