(* ===== verification/Server_Main.thy ===== *)
theory Server_Main
  imports Tls_Properties Control Web_Ui Metrics
begin

text \<open>
  \<open>main.rs\<close> of the server with the accept loops of \<open>proxy.rs\<close> and \<open>control.rs\<close>, and where the
  metrics endpoint of \<open>metrics.rs\<close> listens: the command line, the start, and the process as a
  state machine of the events its tasks see (connections, failed accepts, renewal ticks, SIGHUP,
  Ctrl-C). What the tasks of the connections do to the shared state is any sequence of its operations.
\<close>

section \<open>The process\<close>

datatype listener = ControlPlane | HttpsProxy | HttpProxy

instantiation listener :: enum
begin

definition enum_listener :: "listener list" where
  "enum_listener = [ControlPlane, HttpsProxy, HttpProxy]"

definition enum_all_listener :: "(listener \<Rightarrow> bool) \<Rightarrow> bool" where
  "enum_all_listener P = (P ControlPlane \<and> P HttpsProxy \<and> P HttpProxy)"

definition enum_ex_listener :: "(listener \<Rightarrow> bool) \<Rightarrow> bool" where
  "enum_ex_listener P = (P ControlPlane \<or> P HttpsProxy \<or> P HttpProxy)"

instance
  by standard
    (auto simp: enum_listener_def enum_all_listener_def enum_ex_listener_def intro: listener.exhaust, (metis listener.exhaust)+)

end

text \<open>An accepted connection, with the certificate its handshake uses (\<open>None\<close>: no TLS).\<close>

datatype connection = ControlConn "server_tls option" | HttpsConn server_tls | HttpConn

record ('a, 's) process =
  ps_state :: server_state
  ps_world :: "('a, 's) world"
  ps_serving :: "server_tls option"
  ps_control_tls :: "server_tls option"
  ps_https_tls :: server_tls
  ps_ended :: "listener \<Rightarrow> (str, unit) result option"
  ps_ui :: "(str, ui_security option) result"
  ps_metrics :: "str option"
  ps_accepted :: "connection list"
  ps_exited :: bool

definition is_listening :: "listener \<Rightarrow> ('a, 's) process \<Rightarrow> bool" where
  "is_listening l p = (ps_ended p l = None \<and> \<not> ps_exited p)"

definition acceptor_for :: "server_tls option \<Rightarrow> server_tls \<Rightarrow> server_tls" where
  "acceptor_for latest initial = (case latest of Some tls \<Rightarrow> tls | None \<Rightarrow> initial)"

definition accept_connection :: "listener \<Rightarrow> ('a, 's) process \<Rightarrow> connection" where
  "accept_connection l p = (case l of
     ControlPlane \<Rightarrow> ControlConn (map_option (acceptor_for (ps_serving p)) (ps_control_tls p))
   | HttpsProxy \<Rightarrow> HttpsConn (acceptor_for (ps_serving p) (ps_https_tls p))
   | HttpProxy \<Rightarrow> HttpConn)"

text \<open>
  What a \<open>select!\<close> of the loops or a task of the process sees next: \<open>accept\<close> returns a connection or
  an error, a loop notices the cancellation, a tick of the renewal, a SIGHUP with what loading the
  file gives, Ctrl-C, and the end of the five seconds it allows. In between, the tasks of the
  connections and the reaper apply operations to the shared state (\<open>HandlerStep\<close>); the reload of the
  blocklist and the cancellation are this process's own.
\<close>

fun handler_op :: "server_op \<Rightarrow> bool" where
  "handler_op (OpReload _) = False"
| "handler_op OpCancel = False"
| "handler_op _ = True"

datatype 'a process_event = Incoming listener | AcceptFailed listener str | LoopCancelled listener
  | RenewalTick "'a tls_env" int | Sighup "(str, config) result" | CtrlC | Drained
  | HandlerStep dns_api server_op

definition end_listener :: "listener \<Rightarrow> (str, unit) result \<Rightarrow> ('a, 's) process \<Rightarrow> ('a, 's) process" where
  "end_listener l r p = (if is_listening l p then p\<lparr>ps_ended := (ps_ended p)(l \<mapsto> r)\<rparr> else p)"

definition reload_on_signal :: "(str, config) result \<Rightarrow> server_state \<Rightarrow> server_state" where
  "reload_on_signal loaded s = (case loaded of
     Inl e \<Rightarrow> s
   | Inr new_config \<Rightarrow> reload_revoked_jtis (revoked_jtis (cfg_auth new_config)) s)"

fun process_step :: "'s http_api \<Rightarrow> 'a process_event \<Rightarrow> ('a, 's) process \<Rightarrow> ('a, 's) process" where
  "process_step api (Incoming l) p =
     (if is_listening l p then p\<lparr>ps_accepted := ps_accepted p @ [accept_connection l p]\<rparr> else p)"
| "process_step api (AcceptFailed l e) p = end_listener l (Err e) p"
| "process_step api (LoopCancelled l) p = (if ss_cancelled (ps_state p) then end_listener l (Ok ()) p else p)"
| "process_step api (RenewalTick env now) p =
     (if ps_exited p then p
      else (case renewal_round env api (ss_config (ps_state p)) now (ps_world p, ps_serving p) of
        (w, serving) \<Rightarrow> p\<lparr>ps_world := w, ps_serving := serving\<rparr>))"
| "process_step api (Sighup loaded) p = (if ps_exited p then p else p\<lparr>ps_state := reload_on_signal loaded (ps_state p)\<rparr>)"
| "process_step api CtrlC p = (if ps_exited p then p else p\<lparr>ps_state := (ps_state p)\<lparr>ss_cancelled := True\<rparr>\<rparr>)"
| "process_step api Drained p = (if ss_cancelled (ps_state p) then p\<lparr>ps_exited := True\<rparr> else p)"
| "process_step api (HandlerStep dns op) p =
     (if ps_exited p \<or> \<not> handler_op op then p else p\<lparr>ps_state := apply_op dns op (ps_state p)\<rparr>)"

definition process_run :: "'s http_api \<Rightarrow> 'a process_event list \<Rightarrow> ('a, 's) process \<Rightarrow> ('a, 's) process" where
  "process_run api evs p = fold (process_step api) evs p"

section \<open>The start\<close>

datatype server_command = TokenGenerate str "64 word option"

record server_cli =
  sv_config :: str
  sv_command :: "server_command option"

text \<open>What \<open>main\<close> comes to: a token printed, an error, a panic, or the process.\<close>

datatype ('a, 's) main_outcome = Printed str | MainFailed str | MainPanicked | Running "('a, 's) process"

text \<open>The certificate of the start, and what provisioning it leaves behind.\<close>

definition startup_tls ::
  "'a tls_env \<Rightarrow> 's http_api \<Rightarrow> config \<Rightarrow> tls_source \<Rightarrow> ('a, 's) world \<Rightarrow> (str, server_tls) result option \<times> ('a, 's) world" where
  "startup_tls env api c source w =
     (case source of
        AcmeProvision \<Rightarrow> (case provision_wildcard_cert env api c w of (r, w1) \<Rightarrow> (Some r, w1))
      | _ \<Rightarrow> (load_tls_config env c (w_files w), w))"

text \<open>The listeners as they are spawned: a public port that cannot be bound ends its task only.\<close>

definition spawn_server ::
  "(listener \<Rightarrow> (str, unit) result) \<Rightarrow> str \<Rightarrow> config \<Rightarrow> tls_source \<Rightarrow> server_tls \<Rightarrow> ('a, 's) world \<Rightarrow> ('a, 's) process" where
  "spawn_server bind uuid c source tls w =
     \<lparr>ps_state = new_server_state c, ps_world = w, ps_serving = Some tls,
      ps_control_tls = (if source = SelfSigned then None else Some tls), ps_https_tls = tls,
      ps_ended = (\<lambda>l. case bind l of Inl e \<Rightarrow> Some (Err e) | Inr _ \<Rightarrow> None),
      ps_ui = ui_serve uuid c, ps_metrics = metrics_serve (metrics_port (cfg_server c)),
      ps_accepted = [], ps_exited = False\<rparr>"

definition start_server ::
  "'a tls_env \<Rightarrow> 's http_api \<Rightarrow> (listener \<Rightarrow> (str, unit) result) \<Rightarrow> str \<Rightarrow> config \<Rightarrow> ('a, 's) world \<Rightarrow> ('a, 's) main_outcome" where
  "start_server env api bind uuid c w =
     (case select_tls_source c (w_files w) of
        Inl e \<Rightarrow> MainFailed ''failed to select TLS source''
      | Inr source \<Rightarrow>
          (case startup_tls env api c source w of
             (None, w1) \<Rightarrow> MainPanicked
           | (Some (Inl e), w1) \<Rightarrow> MainFailed
               (if source = AcmeProvision then ''failed to provision ACME wildcard certificate''
                else ''failed to load TLS configuration'')
           | (Some (Inr tls), w1) \<Rightarrow>
               (case bind ControlPlane of
                  Inl e \<Rightarrow> MainFailed e
                | Inr _ \<Rightarrow> Running (spawn_server bind uuid c source tls w1))))"

definition server_main ::
  "(token_claims \<Rightarrow> str \<Rightarrow> (str, str) result) \<Rightarrow> (str, 64 word) result \<Rightarrow> str \<Rightarrow>
   (str \<Rightarrow> (str, str) result) \<Rightarrow> (str \<Rightarrow> (str, config) result) \<Rightarrow> 'a tls_env \<Rightarrow> 's http_api \<Rightarrow>
   (listener \<Rightarrow> (str, unit) result) \<Rightarrow> server_cli \<Rightarrow> ('a, 's) world \<Rightarrow> ('a, 's) main_outcome" where
  "server_main encode clock uuid read_to_string from_toml env api bind cli w =
     (case load_config read_to_string from_toml (sv_config cli) of
        Inl e \<Rightarrow> MainFailed e
      | Inr c \<Rightarrow>
          (case sv_command cli of
             Some (TokenGenerate lbl expires_in) \<Rightarrow>
               (case generate_token encode clock uuid (auth_secret (cfg_auth c)) lbl expires_in of
                  Inl e \<Rightarrow> MainFailed e | Inr token \<Rightarrow> Printed token)
           | None \<Rightarrow> start_server env api bind uuid c w))"

section \<open>The start, summed up\<close>





section \<open>The running process\<close>

lemma handler_op_revoked:
  "handler_op x \<Longrightarrow> ss_revoked_jtis (apply_op dns x s) = ss_revoked_jtis s"
  by (cases x)
    (auto simp: reserve_http_tunnel_def release_http_tunnel_def register_tunnel_def Let_def release_reservation_def
      remove_tunnel_if_owner_def reserve_tcp_port_def release_tcp_port_reservation_def
      try_register_tcp_tunnel_def remove_tcp_tunnel_def remove_tcp_tunnel_if_owner_def late_release_def
      new_session_def modify_session_def store_capture_def create_dns_record_def
      delete_dns_record_def try_send_def split: option.splits sum.splits prod.splits)

lemma run_append: "process_run api (evs @ evs') p = process_run api evs' (process_run api evs p)"
  by (simp add: process_run_def)

lemma end_listener_simps [simp]:
  "ps_state (end_listener l r p) = ps_state p" "ps_serving (end_listener l r p) = ps_serving p"
  "ps_control_tls (end_listener l r p) = ps_control_tls p" "ps_https_tls (end_listener l r p) = ps_https_tls p"
  "ps_accepted (end_listener l r p) = ps_accepted p" "ps_exited (end_listener l r p) = ps_exited p"
  "ps_world (end_listener l r p) = ps_world p"
  by (simp_all add: end_listener_def)

lemma end_listener_ended: "ps_ended p l = Some r \<Longrightarrow> ps_ended (end_listener l' r' p) l = Some r"
  by (auto simp: end_listener_def is_listening_def)

lemma step_tls: "ps_control_tls (process_step api e p) = ps_control_tls p" "ps_https_tls (process_step api e p) = ps_https_tls p"
  "ss_config (ps_state (process_step api e p)) = ss_config (ps_state p)"
  by (cases e; simp add: reload_on_signal_def reload_revoked_jtis_def apply_op_config split: prod.split sum.split)+

lemma run_tls: "ps_control_tls (process_run api evs p) = ps_control_tls p" "ps_https_tls (process_run api evs p) = ps_https_tls p"
  "ss_config (ps_state (process_run api evs p)) = ss_config (ps_state p)"
  unfolding process_run_def by (induction evs arbitrary: p) (simp_all add: step_tls)

text \<open>The invariant of the shared state holds in every run of a server that \<open>main\<close> has started.\<close>

lemma step_inv: "server_inv (ps_state p) \<Longrightarrow> server_inv (ps_state (process_step api e p))"
  by (cases e) (auto simp: reload_on_signal_def apply_op_inv inv_reload split: prod.split sum.split elim!: inv_frame)

interpretation process_machine: event_machine "process_step api" "\<lambda>p. server_inv (ps_state p)" for api
  by unfold_locales (rule step_inv)

lemma running_server_inv:
  assumes "server_main encode clock uuid rd toml env api bind cli w = Running p"
  shows "server_inv (ps_state (process_run api evs p))"
proof -
  have "server_inv (ps_state p)"
    using assms server_inv_new
    by (auto simp: server_main_def start_server_def spawn_server_def split: sum.splits option.splits prod.splits server_command.splits)
  then show ?thesis unfolding process_run_def by (rule process_machine.run_keeps)
qed

text \<open>The certificate a connection was accepted with, and whether it has one.\<close>

fun conn_tls :: "connection \<Rightarrow> server_tls option" where
  "conn_tls (ControlConn t) = t"
| "conn_tls (HttpsConn t) = Some t"
| "conn_tls HttpConn = None"

fun is_renewal :: "'a process_event \<Rightarrow> bool" where
  "is_renewal (RenewalTick _ _) = True"
| "is_renewal _ = False"

lemma step_serving: "\<not> is_renewal e \<Longrightarrow> ps_serving (process_step api e p) = ps_serving p"
  by (cases e) auto

lemma accepted_with:
  assumes "ps_serving p = Some tls" "\<forall>e\<in>set evs. \<not> is_renewal e"
  shows "\<exists>new. ps_accepted (process_run api evs p) = ps_accepted p @ new \<and> ps_serving (process_run api evs p) = Some tls \<and>
    (\<forall>x\<in>set new. x = HttpConn \<or> x = HttpsConn tls \<or> x = ControlConn (if ps_control_tls p = None then None else Some tls))"
  using assms
proof (induction evs arbitrary: p)
  case (Cons e evs)
  have s: "ps_serving (process_step api e p) = Some tls" using Cons.prems step_serving [of e api p] by simp
  obtain new where n: "ps_accepted (process_run api evs (process_step api e p)) = ps_accepted (process_step api e p) @ new"
      "ps_serving (process_run api evs (process_step api e p)) = Some tls"
      "\<forall>x\<in>set new. x = HttpConn \<or> x = HttpsConn tls \<or> x = ControlConn (if ps_control_tls p = None then None else Some tls)"
    using Cons.IH [OF s] Cons.prems(2) by (auto simp: step_tls)
  have "\<exists>one. ps_accepted (process_step api e p) = ps_accepted p @ one \<and>
      (\<forall>x\<in>set one. x = HttpConn \<or> x = HttpsConn tls \<or> x = ControlConn (if ps_control_tls p = None then None else Some tls))"
    using Cons.prems by (cases e) (auto simp: accept_connection_def acceptor_for_def split: listener.split)
  then show ?case using n by (fastforce simp: process_run_def)
qed (simp add: process_run_def)

text \<open>
  C38: certificates change without a restart. From any point of a run at which a certificate is
  served, a renewal that succeeds makes it the one every later connection of both TLS listeners
  is accepted with, until the next tick of the loop; a tick whose renewal fails or is not due
  changes none; and whether the control plane speaks TLS is decided at the start for good.
\<close>

theorem renewed_certificate_reaches_connections:
  assumes "ps_serving p = Some tls0" "\<not> ps_exited p"
    and "renewal_round env api (ss_config (ps_state p)) now (ps_world p, Some tls0) = (w1, Some tls)"
    and "\<forall>e\<in>set evs. \<not> is_renewal e"
  shows "\<exists>new. ps_accepted (process_run api (RenewalTick env now # evs) p) = ps_accepted p @ new \<and>
    (\<forall>x\<in>set new. x = HttpConn \<or> x = HttpsConn tls \<or> x = ControlConn (if ps_control_tls p = None then None else Some tls)) \<and>
    (tls = tls0 \<or> renewed_in api (ss_config (ps_state p)) (env, now) tls)"
proof -
  let ?p = "process_step api (RenewalTick env now) p"
  have s: "?p = p\<lparr>ps_world := w1, ps_serving := Some tls\<rparr>" using assms(1-3) by simp
  then have "ps_serving ?p = Some tls" by simp
  from accepted_with [OF this assms(4), of api] s renewal_round_renewed [OF assms(3)] show ?thesis
    by (auto simp: process_run_def)
qed

text \<open>
  One failed \<open>accept\<close> ends a listener for good. Errors such as a reset before the accept or a
  lack of file descriptors are returned by \<open>accept\<close> and pass; here the loop of the listener
  returns the error, the task that ran it logs it, and nothing starts it again: whatever happens
  later, the process runs on and no connection of this listener is accepted any more.
\<close>

theorem failed_accept_ends_listener:
  assumes "is_listening l p"
  shows "ps_ended (process_run api (AcceptFailed l e # evs) p) l = Some (Err e) \<and>
    (\<exists>new. ps_accepted (process_run api (AcceptFailed l e # evs) p) = ps_accepted p @ new \<and>
       (\<forall>x\<in>set new. case x of ControlConn _ \<Rightarrow> l \<noteq> ControlPlane | HttpsConn _ \<Rightarrow> l \<noteq> HttpsProxy | HttpConn \<Rightarrow> l \<noteq> HttpProxy)) \<and>
    (evs = [] \<longrightarrow> \<not> ps_exited (process_run api (AcceptFailed l e # evs) p) \<and>
       (\<forall>l'. l' \<noteq> l \<longrightarrow> is_listening l' (process_run api (AcceptFailed l e # evs) p) = is_listening l' p))"
proof -
  let ?p = "process_step api (AcceptFailed l e) p"
  have dead: "ps_ended (process_run api evs q) l = Some r \<and> (\<exists>new. ps_accepted (process_run api evs q) = ps_accepted q @ new \<and>
      (\<forall>x\<in>set new. case x of ControlConn _ \<Rightarrow> l \<noteq> ControlPlane | HttpsConn _ \<Rightarrow> l \<noteq> HttpsProxy | HttpConn \<Rightarrow> l \<noteq> HttpProxy))"
    if "ps_ended q l = Some r" for q r
    using that
  proof (induction evs arbitrary: q)
    case (Cons ev evs)
    have k: "ps_ended (process_step api ev q) l = Some r"
      using Cons.prems by (cases ev) (auto simp: end_listener_ended split: prod.split)
    have "\<exists>one. ps_accepted (process_step api ev q) = ps_accepted q @ one \<and>
        (\<forall>x\<in>set one. case x of ControlConn _ \<Rightarrow> l \<noteq> ControlPlane | HttpsConn _ \<Rightarrow> l \<noteq> HttpsProxy | HttpConn \<Rightarrow> l \<noteq> HttpProxy)"
      using Cons.prems by (cases ev) (auto simp: accept_connection_def is_listening_def split: listener.split prod.split)
    then show ?case using Cons.IH [OF k] by (fastforce simp: process_run_def)
  qed (simp add: process_run_def)
  have e: "ps_ended ?p l = Some (Err e)" "ps_accepted ?p = ps_accepted p" "\<not> ps_exited ?p"
    "\<forall>l'. l' \<noteq> l \<longrightarrow> is_listening l' ?p = is_listening l' p"
    using assms by (simp_all add: end_listener_def is_listening_def)
  show ?thesis using dead [OF e(1)] e by (auto simp: process_run_def)
qed

text \<open>The blocklist a run ends with: that of the last file a SIGHUP could load.\<close>

fun last_blocklist :: "'a process_event list \<Rightarrow> str list \<Rightarrow> str list" where
  "last_blocklist [] jtis = jtis"
| "last_blocklist (Sighup (Inr c) # evs) jtis = last_blocklist evs (revoked_jtis (cfg_auth c))"
| "last_blocklist (_ # evs) jtis = last_blocklist evs jtis"

lemma step_blocklist:
  "\<not> ps_exited p \<Longrightarrow> e \<noteq> Drained \<Longrightarrow> \<not> ps_exited (process_step api e p) \<and>
     ss_revoked_jtis (ps_state (process_step api e p)) = last_blocklist [e] (ss_revoked_jtis (ps_state p))"
  by (cases "([e], ss_revoked_jtis (ps_state p))" rule: last_blocklist.cases)
    (auto simp: reload_on_signal_def reload_revoked_jtis_def handler_op_revoked split: prod.split)

lemma last_blocklist_Cons: "last_blocklist (e # evs) jtis = last_blocklist evs (last_blocklist [e] jtis)"
  by (cases "([e], jtis)" rule: last_blocklist.cases) auto

text \<open>
  C39: revocation without a restart. After any run of the process the tokens refused are exactly
  those of the last configuration file that a SIGHUP could load (of the start, if none): a file
  that does not load or does not validate changes nothing, and no connection becomes a session with a
  token whose identifier is in that list.
\<close>

theorem revocation_by_signal:
  assumes "\<not> ps_exited p" "Drained \<notin> set evs"
  shows "(is_jti_revoked j (ps_state (process_run api evs p)) \<longleftrightarrow> j \<in> set (last_blocklist evs (ss_revoked_jtis (ps_state p)))) \<and>
    (\<forall>claims sid. tk_jti claims \<in> set (last_blocklist evs (ss_revoked_jtis (ps_state p))) \<longrightarrow>
       auth_session (authenticate decode clock uuid opened write_ok first (ps_state (process_run api evs p))) \<noteq> Some (claims, sid))"
proof -
  have "ss_revoked_jtis (ps_state (process_run api evs p)) = last_blocklist evs (ss_revoked_jtis (ps_state p))"
    using assms
  proof (induction evs arbitrary: p)
    case (Cons e evs)
    have "\<not> ps_exited (process_step api e p)"
      "ss_revoked_jtis (ps_state (process_step api e p)) = last_blocklist [e] (ss_revoked_jtis (ps_state p))"
      using step_blocklist [of p e api] Cons.prems by auto
    then show ?case using Cons.IH [of "process_step api e p"] Cons.prems(2) last_blocklist_Cons [of e evs]
      by (simp add: process_run_def)
  qed (simp add: process_run_def)
  then show ?thesis
    by (auto simp: is_jti_revoked_def authenticate_def rejected_def split: timed.splits sum.splits client_msg.splits if_splits)
qed

text \<open>
  A graceful end: Ctrl-C, every loop notices the cancellation, the five seconds pass. Nothing is
  accepted from then on, every listener that was up ends without an error, and the process exits.
\<close>

definition graceful_exit :: "'a process_event list" where
  "graceful_exit = CtrlC # map LoopCancelled enum_class.enum @ [Drained]"

lemma exited_step: "ps_exited p \<Longrightarrow> e \<noteq> Drained \<Longrightarrow> process_step api e p = p"
  by (cases e) (auto simp: is_listening_def end_listener_def)

lemma ended_end_listener:
  "ps_ended (end_listener l r p) l' = (if l' = l \<and> is_listening l p then Some r else ps_ended p l')"
  by (simp add: end_listener_def)

lemma graceful_shutdown:
  assumes "\<not> ps_exited p" "q = process_run api graceful_exit p"
  shows "ps_exited q \<and> ps_accepted q = ps_accepted p \<and>
    (\<forall>l. ps_ended q l = (if is_listening l p then Some (Ok ()) else ps_ended p l)) \<and>
    (\<forall>evs. Drained \<notin> set evs \<longrightarrow> process_run api evs q = q)"
proof -
  define p1 where "p1 = p\<lparr>ps_state := (ps_state p)\<lparr>ss_cancelled := True\<rparr>\<rparr>"
  define p2 where "p2 = end_listener HttpProxy (Ok ()) (end_listener HttpsProxy (Ok ()) (end_listener ControlPlane (Ok ()) p1))"
  have p1: "\<not> ps_exited p1" "ss_cancelled (ps_state p1)" "ps_accepted p1 = ps_accepted p" "ps_ended p1 = ps_ended p"
    using assms(1) by (simp_all add: p1_def)
  have "q = p2\<lparr>ps_exited := True\<rparr>"
    using assms p1(1,2) by (simp add: process_run_def graceful_exit_def enum_listener_def p1_def [symmetric] p2_def)
  moreover have "ps_ended p2 l = (if is_listening l p then Some (Ok ()) else ps_ended p l)" for l
    using assms(1) p1 by (cases l) (simp_all add: p2_def ended_end_listener is_listening_def)
  ultimately have q: "ps_exited q" "ps_accepted q = ps_accepted p"
    "\<forall>l. ps_ended q l = (if is_listening l p then Some (Ok ()) else ps_ended p l)"
    by (simp_all add: p2_def p1)
  moreover have "process_run api evs q = q" if "Drained \<notin> set evs" for evs
    using that by (induction evs) (auto simp: process_run_def exited_step q(1))
  ultimately show ?thesis by blast
qed

section \<open>A run\<close>

definition sample_process :: "(nat, dns_request list) process" where
  "sample_process = spawn_server (\<lambda>_. Ok ()) ''csrf'' managed_config CachedAcme \<lparr>tc_certs = [''old''], tc_key = ''old'', tc_alpn = []\<rparr> due_world"

lemma sample_process_simps: "\<not> ps_exited sample_process" "is_listening l sample_process"
  "ps_serving sample_process = Some \<lparr>tc_certs = [''old''], tc_key = ''old'', tc_alpn = []\<rparr>"
  "ss_config (ps_state sample_process) = managed_config" "ps_world sample_process = due_world" "ps_accepted sample_process = []"
  by (simp_all add: sample_process_def spawn_server_def is_listening_def new_server_state_def)


lemma renewed_certificate_reaches_connections_witness:
  "\<exists>new. ps_accepted (process_run (logged sample_dns) [RenewalTick sample_tls_env 5, Incoming HttpsProxy] sample_process) = new \<and>
     (\<forall>x\<in>set new. x = HttpConn \<or> x = HttpsConn sample_tls \<or>
        x = ControlConn (if ps_control_tls sample_process = None then None else Some sample_tls))"
proof -
  obtain w1 where r: "renewal_round sample_tls_env (logged sample_dns) (ss_config (ps_state sample_process)) 5
      (ps_world sample_process, Some \<lparr>tc_certs = [''old''], tc_key = ''old'', tc_alpn = []\<rparr>) = (w1, Some sample_tls)"
    using due_round by (auto simp: sample_process_simps)
  show ?thesis
    using renewed_certificate_reaches_connections [OF sample_process_simps(3,1) r, of "[Incoming HttpsProxy]"]
    by (simp add: sample_process_simps(6))
qed

lemma failed_accept_ends_listener_witness:
  "ps_ended (process_run (logged sample_dns) [AcceptFailed HttpsProxy ''Too many open files'', Incoming HttpsProxy] sample_process) HttpsProxy =
     Some (Err ''Too many open files'')"
  using failed_accept_ends_listener [OF sample_process_simps(2) [of HttpsProxy], of "logged sample_dns" "''Too many open files''"
      "[Incoming HttpsProxy]"] by blast

lemma revocation_by_signal_witness:
  "is_jti_revoked ''j'' (ps_state (process_run (logged sample_dns)
     [Sighup (Ok (default_config\<lparr>cfg_auth := (cfg_auth default_config)\<lparr>revoked_jtis := [''j'']\<rparr>\<rparr>)), Sighup (Err ''no file'')] sample_process))"
  using revocation_by_signal [OF sample_process_simps(1), of
      "[Sighup (Ok (default_config\<lparr>cfg_auth := (cfg_auth default_config)\<lparr>revoked_jtis := [''j'']\<rparr>\<rparr>)), Sighup (Err ''no file'')]" "''j''"]
  by simp

end
