(* ===== verification/Yamux_Transport.thy ===== *)
theory Yamux_Transport
  imports Proto_Transport
begin

text \<open>
  The transport abstraction of \<open>transport.rs\<close>: the trait \<open>TunnelTransport\<close> as an interface, and
  \<open>YamuxTransport\<close>, which meets it with the driver task of \<open>Proto_Transport\<close>. The text of a
  \<open>yamux::ConnectionError\<close> is the crate's, a parameter.
\<close>

section \<open>The wrapper\<close>

text \<open>
  The receiver of the inbound channel is the number of streams it has taken; the channel itself
  is the log \<open>inbound_tx\<close> of the driver. The type of a stream is unchanged by the \<open>compat\<close> wrappers.
\<close>

record 's yamux_transport =
  yt_control :: "'s driver"
  yt_received :: nat

definition yamux_transport_new :: "'s driver \<Rightarrow> 's yamux_transport" where
  "yamux_transport_new d = \<lparr>yt_control = d, yt_received = 0\<rparr>"

definition waiting :: "'s yamux_transport \<Rightarrow> 's list" where
  "waiting t = drop (yt_received t) (inbound_tx (yt_control t))"

text \<open>
  \<open>YamuxControl::open_stream\<close>, once its request \<open>r\<close> is made: the answer of the driver, or \<open>Closed\<close>
  when the driver has ended and dropped the \<open>oneshot\<close>.
\<close>

definition control_open_stream :: "str \<Rightarrow> nat \<Rightarrow> 's driver \<Rightarrow> (str, 's) result poll" where
  "control_open_stream closed_error r d = (case map_of (replies d) r of
     Some res \<Rightarrow> Ready res
   | None \<Rightarrow> (if running d then Pending else Ready (Err closed_error)))"

definition transport_open_stream :: "str \<Rightarrow> nat \<Rightarrow> 's yamux_transport \<Rightarrow> (str, 's) result poll" where
  "transport_open_stream closed_error r t = (case control_open_stream closed_error r (yt_control t) of
     Ready (Inl e) \<Rightarrow> Ready (Err (''yamux open_stream: '' @ e))
   | other \<Rightarrow> other)"

definition accept_stream :: "'s yamux_transport \<Rightarrow> (str, 's) result poll \<times> 's yamux_transport" where
  "accept_stream t = (case waiting t of
     s # _ \<Rightarrow> (Ready (Ok s), t\<lparr>yt_received := yt_received t + 1\<rparr>)
   | [] \<Rightarrow> (if running (yt_control t) then (Pending, t) else (Ready (Err ''yamux connection closed''), t)))"

definition kind :: "'s yamux_transport \<Rightarrow> str" where
  "kind t = ''websocket''"

text \<open>Flushing and closing the WebSocket adapter only passes the sink's answer on.\<close>

definition poll_flush :: "(str, unit) result poll \<Rightarrow> (str, unit) result poll" where
  "poll_flush sink = sink"

definition poll_close :: "(str, unit) result poll \<Rightarrow> (str, unit) result poll" where
  "poll_close sink = sink"

section \<open>The interface\<close>

text \<open>
  What a user of \<open>TunnelTransport\<close> may rely on when accepting streams, whatever carries them:
  they come in the order in which the peer opened them, none twice, and an error means the end.
\<close>

locale tunnel_transport =
  fixes accept :: "'t \<Rightarrow> (str, 's) result poll \<times> 't"
    and queued :: "'t \<Rightarrow> 's list"
    and alive :: "'t \<Rightarrow> bool"
  assumes accept_first: "queued t = s # ss \<Longrightarrow> \<exists>t'. accept t = (Ready (Ok s), t') \<and> queued t' = ss \<and> alive t' = alive t"
    and accept_none: "queued t = [] \<Longrightarrow> \<exists>r. accept t = (r, t) \<and> (if alive t then r = Pending else (\<exists>e. r = Ready (Err e)))"
begin

fun accept_n :: "nat \<Rightarrow> 't \<Rightarrow> (str, 's) result poll list \<times> 't" where
  "accept_n 0 t = ([], t)"
| "accept_n (Suc n) t = (case accept t of (r, t1) \<Rightarrow> (case accept_n n t1 of (rs, t2) \<Rightarrow> (r # rs, t2)))"

lemma accept_in_order:
  "n \<le> length (queued t) \<Longrightarrow> \<exists>t'. accept_n n t = (map (Ready \<circ> Ok) (take n (queued t)), t') \<and>
     queued t' = drop n (queued t) \<and> alive t' = alive t"
proof (induction n arbitrary: t)
  case (Suc n)
  then obtain s ss where q: "queued t = s # ss" by (cases "queued t") auto
  obtain t1 where t1: "accept t = (Ready (Ok s), t1)" "queued t1 = ss" "alive t1 = alive t" using accept_first [OF q] by blast
  have "n \<le> length (queued t1)" using Suc.prems q t1(2) by simp
  from Suc.IH [OF this] q t1 show ?case by auto
qed simp

lemma accept_n_snoc:
  "accept_n n t = (rs, t1) \<Longrightarrow> accept t1 = (r, t2) \<Longrightarrow> accept_n (Suc n) t = (rs @ [r], t2)"
proof (induction n arbitrary: t rs)
  case (Suc n)
  obtain r1 t3 qs where t3: "accept t = (r1, t3)" "accept_n n t3 = (qs, t1)" "rs = r1 # qs"
    using Suc.prems(1) by (auto split: prod.splits)
  have "accept_n (Suc n) t3 = (qs @ [r], t2)" by (rule Suc.IH [OF t3(2) Suc.prems(2)])
  then show ?case by (subst accept_n.simps(2)) (simp only: t3 prod.case append.simps)
qed simp

lemma accept_ends:
  assumes "\<not> alive t"
  shows "\<exists>t' e. accept_n (Suc (length (queued t))) t = (map (Ready \<circ> Ok) (queued t) @ [Ready (Err e)], t')"
proof -
  obtain t1 where t1: "accept_n (length (queued t)) t = (map (Ready \<circ> Ok) (queued t), t1)"
      "queued t1 = []" "\<not> alive t1"
    using accept_in_order [of "length (queued t)" t] assms by auto
  then obtain e where "accept t1 = (Ready (Err e), t1)" using accept_none [of t1] by auto
  from accept_n_snoc [OF t1(1) this] show ?thesis by blast
qed

end

lemma waiting_Cons: "waiting t = s # ss \<Longrightarrow> waiting (t\<lparr>yt_received := yt_received t + 1\<rparr>) = ss"
  by (simp add: waiting_def) (metis drop_Suc list.sel(3) tl_drop)

interpretation yt: tunnel_transport accept_stream waiting "\<lambda>t. running (yt_control t)"
proof (unfold_locales, goal_cases)
  case (1 t s ss)
  then show ?case using waiting_Cons [OF 1] by (simp add: accept_stream_def)
next
  case (2 t)
  then show ?case by (simp add: accept_stream_def)
qed

text \<open>
  Every stream the driver handed over is accepted, in order, and only then the end is reported:
  also streams that arrived before the connection died are delivered.
\<close>

lemma transport_delivers_all:
  assumes "\<not> running d"
  shows "\<exists>t e. yt.accept_n (Suc (length (inbound_tx d))) (yamux_transport_new d) =
    (map (Ready \<circ> Ok) (inbound_tx d) @ [Ready (Err e)], t)"
  using yt.accept_ends [of "yamux_transport_new d"] assms by (auto simp: waiting_def yamux_transport_new_def)

end
